(* ===== verification/Prelude.thy ===== *)
theory Prelude
  imports Main
begin

text \<open>
  Shared vocabulary of the development. Go strings are byte strings, so they are
  HOL strings (lists of 8-bit characters). The theory models the few functions
  of Go's \<open>strings\<close> and \<open>strconv\<close> packages that the processor calls, the
  idiom \<open>for k, v := range m { if cond { delete(m, k) } }\<close> on maps, and collects
  the facts about them: \<open>go_string\<close> for strings, \<open>map_ops\<close> for maps.
\<close>

named_theorems go_string
named_theorems map_ops

section \<open>Maps\<close>

text \<open>\<open>map_drop P m\<close> deletes every entry that satisfies \<open>P\<close>; the order in which Go
  iterates does not matter because the condition reads one entry at a time.\<close>

definition map_drop :: "('k \<Rightarrow> 'v \<Rightarrow> bool) \<Rightarrow> ('k \<rightharpoonup> 'v) \<Rightarrow> ('k \<rightharpoonup> 'v)" where
  "map_drop P m = (\<lambda>k. case m k of None \<Rightarrow> None | Some v \<Rightarrow> if P k v then None else Some v)"

lemma map_drop_Some [map_ops]: "map_drop P m k = Some v \<longleftrightarrow> m k = Some v \<and> \<not> P k v"
  by (auto simp: map_drop_def split: option.splits if_splits)

lemma map_drop_None [map_ops]: "map_drop P m k = None \<longleftrightarrow> (\<forall>v. m k = Some v \<longrightarrow> P k v)"
  by (auto simp: map_drop_def split: option.splits if_splits)

lemma map_drop_empty [simp]: "map_drop P Map.empty = Map.empty"
  by (rule ext) (simp add: map_drop_def)

lemma map_drop_id: "(\<And>k v. m k = Some v \<Longrightarrow> \<not> P k v) \<Longrightarrow> map_drop P m = m"
  by (rule ext) (auto simp: map_drop_def split: option.splits)

text \<open>A sequence of writes applied from left to right; a later write of a key wins.\<close>

definition put_all :: "('k \<times> 'v) list \<Rightarrow> ('k \<rightharpoonup> 'v) \<Rightarrow> ('k \<rightharpoonup> 'v)" where
  "put_all ws m = fold (\<lambda>(k, v) m. m(k \<mapsto> v)) ws m"

lemma put_all_Nil [simp]: "put_all [] m = m"
  by (simp add: put_all_def)

lemma put_all_Cons [simp]: "put_all ((k, v) # ws) m = put_all ws (m(k \<mapsto> v))"
  by (simp add: put_all_def)

lemma put_all_append [simp]: "put_all (ws @ ws') m = put_all ws' (put_all ws m)"
  by (simp add: put_all_def)

lemma put_all_if [simp]:
  "put_all (if b then ws else []) m = (if b then put_all ws m else m)"
  by simp

lemma put_all_other: "k \<notin> fst ` set ws \<Longrightarrow> put_all ws m k = m k"
  by (induction ws arbitrary: m) auto

lemma put_all_distinct:
  "distinct (map fst ws) \<Longrightarrow> (k, v) \<in> set ws \<Longrightarrow> put_all ws m k = Some v"
proof (induction ws arbitrary: m)
  case Nil
  then show ?case by simp
next
  case (Cons w ws)
  obtain k' v' where w: "w = (k', v')" by (cases w)
  show ?case
  proof (cases "(k, v) \<in> set ws")
    case True
    with Cons w show ?thesis by simp
  next
    case False
    with Cons.prems w have "k' = k" "v' = v" "k \<notin> fst ` set ws" by auto
    with w show ?thesis by (simp add: put_all_other)
  qed
qed

lemma put_all_cases: "put_all ws m k = Some v \<Longrightarrow> (k, v) \<in> set ws \<or> m k = Some v"
proof (induction ws arbitrary: m)
  case Nil
  then show ?case by simp
next
  case (Cons w ws)
  then show ?case by (cases w) (fastforce split: if_splits)
qed

section \<open>Lists\<close>

lemma find_append:
  "find P (xs @ ys) = (case find P xs of Some x \<Rightarrow> Some x | None \<Rightarrow> find P ys)"
  by (induction xs) simp_all

section \<open>Go's strings package\<close>

definition hasPrefix :: "string \<Rightarrow> string \<Rightarrow> bool" where
  "hasPrefix s p \<longleftrightarrow> take (length p) s = p"

lemma hasPrefix_iff [go_string]: "hasPrefix s p \<longleftrightarrow> (\<exists>t. s = p @ t)"
  unfolding hasPrefix_def by (metis append_eq_conv_conj append_take_drop_id)

text \<open>\<open>strings.Contains(s, t)\<close>\<close>

fun contains :: "string \<Rightarrow> string \<Rightarrow> bool" where
  "contains [] t = (t = [])"
| "contains (c # s) t = (hasPrefix (c # s) t \<or> contains s t)"

lemma contains_iff [go_string]: "contains s t \<longleftrightarrow> (\<exists>a b. s = a @ t @ b)"
proof (induction s)
  case Nil
  then show ?case by auto
next
  case (Cons c s)
  show ?case
  proof
    assume "contains (c # s) t"
    then consider "hasPrefix (c # s) t" | "contains s t" by auto
    then show "\<exists>a b. c # s = a @ t @ b"
    proof cases
      case 1
      then show ?thesis by (metis append_Nil hasPrefix_iff)
    next
      case 2
      then show ?thesis using Cons.IH by (metis append_Cons)
    qed
  next
    assume "\<exists>a b. c # s = a @ t @ b"
    then obtain a b where ab: "c # s = a @ t @ b" by blast
    show "contains (c # s) t"
    proof (cases a)
      case Nil
      with ab have "hasPrefix (c # s) t" by (auto simp: hasPrefix_iff)
      then show ?thesis by simp
    next
      case (Cons d a')
      with ab Cons.IH have "contains s t" by auto
      then show ?thesis by simp
    qed
  qed
qed

text \<open>\<open>strings.IndexByte\<close> and the hand-written loops that look for the first
  occurrence of a byte; Go's \<open>-1\<close> is \<open>None\<close>.\<close>

fun index_byte :: "char \<Rightarrow> string \<Rightarrow> nat option" where
  "index_byte c [] = None"
| "index_byte c (x # s) = (if x = c then Some 0 else map_option Suc (index_byte c s))"

lemma index_byte_None [go_string]: "index_byte c s = None \<longleftrightarrow> c \<notin> set s"
  by (induction s) auto

lemma index_byte_append [go_string]:
  "c \<notin> set a \<Longrightarrow> index_byte c (a @ c # b) = Some (length a)"
  by (induction a) auto

lemma index_byte_Some [go_string]:
  "index_byte c s = Some i \<longleftrightarrow> i < length s \<and> s ! i = c \<and> c \<notin> set (take i s)"
proof (induction s arbitrary: i)
  case Nil
  then show ?case by simp
next
  case (Cons x s)
  then show ?case by (cases i) auto
qed

lemma index_byte_split:
  "index_byte c s = Some i \<Longrightarrow> s = take i s @ c # drop (Suc i) s"
  using id_take_nth_drop index_byte_Some by fastforce

text \<open>\<open>strings.LastIndexByte\<close>\<close>

definition last_index_byte :: "char \<Rightarrow> string \<Rightarrow> nat option" where
  "last_index_byte c s = map_option (\<lambda>i. length s - Suc i) (index_byte c (rev s))"

lemma last_index_byte_append [go_string]:
  "c \<notin> set b \<Longrightarrow> last_index_byte c (a @ c # b) = Some (length a)"
  by (simp add: last_index_byte_def index_byte_append)

lemma last_index_byte_None [go_string]: "last_index_byte c s = None \<longleftrightarrow> c \<notin> set s"
  by (simp add: last_index_byte_def index_byte_None)

text \<open>\<open>strings.Count(s, t)\<close> for a one-byte \<open>t\<close>\<close>

definition count_byte :: "char \<Rightarrow> string \<Rightarrow> nat" where
  "count_byte c s = length (filter (\<lambda>x. x = c) s)"

lemma count_byte_zero [go_string]: "count_byte c s = 0 \<longleftrightarrow> c \<notin> set s"
  by (auto simp: count_byte_def filter_empty_conv)

lemma count_byte_simps [simp]:
  "count_byte c [] = 0"
  "count_byte c (x # s) = (if x = c then Suc (count_byte c s) else count_byte c s)"
  "count_byte c (s @ t) = count_byte c s + count_byte c t"
  by (simp_all add: count_byte_def)

text \<open>ASCII lower-casing of one byte. \<open>strings.ToLower\<close> also maps the runes beyond
  ASCII; the code only compares its result with \<open>grpcroute\<close>, whose letters are not
  the lower case of any rune beyond ASCII, so bytes above 127 stay as they are.\<close>

definition lower_byte :: "char \<Rightarrow> char" where
  "lower_byte c = (if 65 \<le> (of_char c :: nat) \<and> (of_char c :: nat) \<le> 90
     then char_of ((of_char c :: nat) + 32) else c)"

definition toLower :: "string \<Rightarrow> string" where
  "toLower s = map lower_byte s"

text \<open>\<open>strings.EqualFold(s, t)\<close> for an ASCII \<open>t\<close>. Besides the ASCII letters, Unicode
  simple folding identifies the Kelvin sign (bytes E2 84 AA) with \<open>k\<close> and the long s
  (bytes C5 BF) with \<open>s\<close>.\<close>

fun fold_bytes :: "string \<Rightarrow> string" where
  "fold_bytes (a # b # c # s) =
     (if a = CHR 0xE2 \<and> b = CHR 0x84 \<and> c = CHR 0xAA then CHR ''k'' # fold_bytes s
      else if a = CHR 0xC5 \<and> b = CHR 0xBF then CHR ''s'' # fold_bytes (c # s)
      else lower_byte a # fold_bytes (b # c # s))"
| "fold_bytes [a, b] =
     (if a = CHR 0xC5 \<and> b = CHR 0xBF then ''s'' else [lower_byte a, lower_byte b])"
| "fold_bytes [a] = [lower_byte a]"
| "fold_bytes [] = []"

definition equalFold :: "string \<Rightarrow> string \<Rightarrow> bool" where
  "equalFold s t \<longleftrightarrow> fold_bytes s = fold_bytes t"

lemma equalFold_refl [simp]: "equalFold s s"
  by (simp add: equalFold_def)

text \<open>\<open>strings.TrimSpace(s) == ""\<close>: every rune of \<open>s\<close> is Unicode white space.\<close>

definition ascii_space :: "char \<Rightarrow> bool" where
  "ascii_space c \<longleftrightarrow> c \<in> set [CHR '' '', CHR 0x09, CHR 0x0A, CHR 0x0B, CHR 0x0C, CHR 0x0D]"

definition wide_space :: "char \<Rightarrow> char \<Rightarrow> char \<Rightarrow> bool" where
  "wide_space a b c \<longleftrightarrow>
     (a = CHR 0xE1 \<and> b = CHR 0x9A \<and> c = CHR 0x80) \<or>
     (a = CHR 0xE2 \<and> b = CHR 0x80 \<and>
       ((of_char c :: nat) \<in> {0x80..0x8A} \<or> c = CHR 0xA8 \<or> c = CHR 0xA9 \<or> c = CHR 0xAF)) \<or>
     (a = CHR 0xE2 \<and> b = CHR 0x81 \<and> c = CHR 0x9F) \<or>
     (a = CHR 0xE3 \<and> b = CHR 0x80 \<and> c = CHR 0x80)"

fun is_blank :: "string \<Rightarrow> bool" where
  "is_blank [] = True"
| "is_blank (a # s) =
     (if ascii_space a then is_blank s
      else case s of
        [] \<Rightarrow> False
      | b # s1 \<Rightarrow>
          if a = CHR 0xC2 \<and> (b = CHR 0x85 \<or> b = CHR 0xA0) then is_blank s1
          else (case s1 of [] \<Rightarrow> False | c # s2 \<Rightarrow> wide_space a b c \<and> is_blank s2))"

section \<open>Decimal numbers (strconv)\<close>

definition is_digit :: "char \<Rightarrow> bool" where
  "is_digit c \<longleftrightarrow> 48 \<le> (of_char c :: nat) \<and> (of_char c :: nat) \<le> 57"

definition digit_val :: "char \<Rightarrow> nat" where
  "digit_val c = of_char c - 48"

definition digits_val :: "string \<Rightarrow> nat" where
  "digits_val s = foldl (\<lambda>n c. 10 * n + digit_val c) 0 s"

text \<open>\<open>strconv.Atoi\<close> on a 64-bit platform: an optional sign, at least one digit and
  nothing else, in the range of \<open>int64\<close>. An error is \<open>None\<close>.\<close>

definition atoi :: "string \<Rightarrow> int option" where
  "atoi s =
     (let neg = (case s of c # _ \<Rightarrow> c = CHR ''-'' | [] \<Rightarrow> False);
          ds = (case s of c # t \<Rightarrow> if c = CHR ''-'' \<or> c = CHR ''+'' then t else s | [] \<Rightarrow> s);
          n = int (digits_val ds)
      in if ds = [] \<or> \<not> list_all is_digit ds then None
         else if neg then (if n \<le> 2 ^ 63 then Some (- n) else None)
         else (if n < 2 ^ 63 then Some n else None))"

text \<open>Decimal notation of a natural number, as the data planes print rule indexes.\<close>

fun itoa :: "nat \<Rightarrow> string" where
  "itoa n = (if n < 10 then [char_of (48 + n)]
             else itoa (n div 10) @ [char_of (48 + n mod 10)])"

declare itoa.simps [simp del]

lemma of_char_digit: "n < 10 \<Longrightarrow> (of_char (char_of (48 + n) :: char) :: nat) = 48 + n"
  by simp

lemma itoa_digits: "list_all is_digit (itoa n)"
proof (induction n rule: itoa.induct)
  case (1 n)
  then show ?case
    by (subst itoa.simps) (auto simp: is_digit_def [of "char_of _"])
qed

lemma itoa_nonempty [simp]: "itoa n \<noteq> []"
  by (subst itoa.simps) simp

lemma digits_val_snoc: "digits_val (s @ [c]) = 10 * digits_val s + digit_val c"
  by (simp add: digits_val_def)

lemma digits_val_itoa: "digits_val (itoa n) = n"
proof (induction n rule: itoa.induct)
  case (1 n)
  show ?case
  proof (cases "n < 10")
    case True
    then show ?thesis
      by (subst itoa.simps) (simp add: digits_val_def digit_val_def)
  next
    case False
    with 1 have "digits_val (itoa n) = 10 * (n div 10) + digit_val (char_of (48 + n mod 10))"
      by (subst itoa.simps) (simp add: digits_val_snoc)
    also have "digit_val (char_of (48 + n mod 10)) = n mod 10"
      by (simp add: digit_val_def)
    finally show ?thesis by simp
  qed
qed

lemma atoi_itoa: "int n < 2 ^ 63 \<Longrightarrow> atoi (itoa n) = Some (int n)"
proof -
  assume n: "int n < 2 ^ 63"
  obtain c t where ct: "itoa n = c # t" by (cases "itoa n") auto
  with itoa_digits [of n] have "is_digit c" by simp
  then have "c \<noteq> CHR ''-''" "c \<noteq> CHR ''+''"
    by (auto simp: is_digit_def)
  with ct have "(case itoa n of c # t \<Rightarrow> c = CHR ''-'' | [] \<Rightarrow> False) = False"
    and "(case itoa n of c # t \<Rightarrow> if c = CHR ''-'' \<or> c = CHR ''+'' then t else itoa n
      | [] \<Rightarrow> itoa n) = itoa n" by simp_all
  with n show ?thesis
    by (simp add: atoi_def digits_val_itoa itoa_digits)
qed

lemma atoi_range: "atoi s = Some n \<Longrightarrow> - (2 ^ 63) \<le> n \<and> n < 2 ^ 63"
  by (auto simp: atoi_def Let_def split: if_splits)

lemma slash_not_digit [simp]: "\<not> is_digit (CHR ''/'')"
  by (simp add: is_digit_def)

end
