(* ===== verification/GoRegexp.thy ===== *)
theory GoRegexp
  imports Prelude
begin

text \<open>
  Go's \<open>regexp\<close> package as far as the processor uses it: a compiled expression, its
  \<open>SubexpNames\<close> and \<open>FindStringSubmatch\<close>. A compiled expression is a syntax tree over
  bytes; matching is leftmost-first, as documented: the matcher lists every way to match
  in priority order (greedy alternatives first) and the first one is taken, at the leftmost
  position that has one. A loop ends after an iteration that consumes nothing.

  Parsing a pattern is modelled for the part of the RE2 syntax the default configuration
  uses (literals, escapes, classes, groups, named groups, alternation, \<open>*\<close>, \<open>+\<close>, \<open>?\<close> and
  their lazy forms, the two anchors). Other patterns are outside of \<open>re_parse\<close>; the
  operations that compile user patterns take the compiler as an argument.
\<close>

section \<open>Syntax trees and matching\<close>

datatype regex =
    Eps
  | Cls bool string              \<comment> \<open>byte class; \<open>True\<close> negates it\<close>
  | Seq regex regex
  | Alt regex regex
  | Star bool regex              \<comment> \<open>\<open>True\<close>: greedy\<close>
  | Cap nat regex                \<comment> \<open>capture group number\<close>
  | BeginText
  | EndText

definition Lit :: "char \<Rightarrow> regex" where
  "Lit c = Cls False [c]"

definition Plus :: "bool \<Rightarrow> regex \<Rightarrow> regex" where
  "Plus g r = Seq r (Star g r)"

definition Opt :: "bool \<Rightarrow> regex \<Rightarrow> regex" where
  "Opt g r = (if g then Alt r Eps else Alt Eps r)"

text \<open>Position in the subject, the text from there on, the submatches so far.\<close>

type_synonym mstate = "nat \<times> string \<times> string list"

fun star_iter :: "bool \<Rightarrow> (mstate \<Rightarrow> mstate list) \<Rightarrow> nat \<Rightarrow> mstate \<Rightarrow> mstate list" where
  "star_iter g f 0 st = [st]"
| "star_iter g f (Suc n) st =
     (let more = concat (map (\<lambda>st'. if fst st' = fst st then [st'] else star_iter g f n st') (f st))
      in if g then more @ [st] else st # more)"

definition cls_step :: "bool \<Rightarrow> string \<Rightarrow> mstate \<Rightarrow> mstate list" where
  "cls_step neg cs st =
     (case st of (p, s, c) \<Rightarrow>
       (case s of [] \<Rightarrow> []
        | x # xs \<Rightarrow> if (x \<in> set cs) \<noteq> neg then [(Suc p, xs, c)] else []))"

lemma cls_step_simps [simp]:
  "cls_step neg cs (p, [], c) = []"
  "cls_step neg cs (p, x # xs, c) = (if (x \<in> set cs) \<noteq> neg then [(Suc p, xs, c)] else [])"
  by (simp_all add: cls_step_def)

primrec mtch :: "regex \<Rightarrow> mstate \<Rightarrow> mstate list" where
  "mtch Eps st = [st]"
| "mtch (Cls neg cs) st = cls_step neg cs st"
| "mtch (Seq r1 r2) st = concat (map (mtch r2) (mtch r1 st))"
| "mtch (Alt r1 r2) st = mtch r1 st @ mtch r2 st"
| "mtch (Star g r) st = star_iter g (mtch r) (Suc (length (fst (snd st)))) st"
| "mtch (Cap n r) st =
     map (\<lambda>(p', s', c'). (p', s', c'[n := take (p' - fst st) (fst (snd st))])) (mtch r st)"
| "mtch BeginText st = (if fst st = 0 then [st] else [])"
| "mtch EndText st = (if fst (snd st) = [] then [st] else [])"

lemma mtch_Cls [simp]: "mtch (Cls neg cs) = cls_step neg cs"
  by (rule ext) simp

record regexp =
  re_ast :: regex
  re_names :: "string list"   \<comment> \<open>\<open>SubexpNames()\<close>: entry 0 is the whole match\<close>

definition SubexpNames :: "regexp \<Rightarrow> string list" where
  "SubexpNames re = re_names re"

text \<open>The search tries every start from the left.\<close>

fun find_from :: "regexp \<Rightarrow> nat \<Rightarrow> string \<Rightarrow> string list option" where
  "find_from re p s =
     (case mtch (re_ast re) (p, s, replicate (length (re_names re)) '''') of
        (p', s', c) # _ \<Rightarrow> Some (c[0 := take (p' - p) s])
      | [] \<Rightarrow> (case s of [] \<Rightarrow> None | _ # t \<Rightarrow> find_from re (Suc p) t))"

declare find_from.simps [simp del]

definition FindStringSubmatch :: "regexp \<Rightarrow> string \<Rightarrow> string list option" where
  "FindStringSubmatch re s = find_from re 0 s"

section \<open>Facts about matching\<close>

lemma star_iter_caps:
  assumes "\<And>st st'. st' \<in> set (f st) \<Longrightarrow> length (snd (snd st')) = length (snd (snd st))"
    and "st' \<in> set (star_iter g f n st)"
  shows "length (snd (snd st')) = length (snd (snd st))"
  using assms(2)
proof (induction n arbitrary: st)
  case 0
  then show ?case by simp
next
  case (Suc n)
  from Suc.prems
  have "st' = st \<or> (\<exists>u \<in> set (f st). st' = u \<or> st' \<in> set (star_iter g f n u))"
    by (cases g) (auto simp: Let_def split: if_splits)
  then consider "st' = st" | u where "u \<in> set (f st)" "st' = u"
    | u where "u \<in> set (f st)" "st' \<in> set (star_iter g f n u)" by blast
  then show ?case
  proof cases
    case (3 u)
    have "length (snd (snd st')) = length (snd (snd u))" by (rule Suc.IH) (rule 3)
    with assms(1) [OF 3(1)] show ?thesis by simp
  qed (use assms(1) in auto)
qed

lemma mtch_caps:
  "st' \<in> set (mtch r st) \<Longrightarrow> length (snd (snd st')) = length (snd (snd st))"
proof (induction r arbitrary: st st')
  case (Cls neg cs)
  then show ?case by (auto simp: cls_step_def split: prod.splits list.splits if_splits)
next
  case (Star g r)
  from Star.prems
  have "st' \<in> set (star_iter g (mtch r) (Suc (length (fst (snd st)))) st)"
    by (simp only: mtch.simps)
  then show ?case by (rule star_iter_caps [rotated]) (rule Star.IH)
next
  case (Cap n r)
  from Cap.prems obtain u where u: "u \<in> set (mtch r st)"
    and "st' = (\<lambda>(p', s', c'). (p', s', c'[n := take (p' - fst st) (fst (snd st))])) u"
    by (auto simp only: mtch.simps set_map)
  then have "length (snd (snd st')) = length (snd (snd u))"
    by (simp split: prod.splits)
  with Cap.IH [OF u] show ?case by simp
next
  case (Seq r1 r2)
  from Seq.prems obtain u where "u \<in> set (mtch r1 st)" "st' \<in> set (mtch r2 u)" by auto
  with Seq.IH show ?case by metis
qed (auto split: if_splits)

text \<open>\<open>FindStringSubmatch\<close> returns one string per group, so indexing its result with the
  index of a name of \<open>SubexpNames\<close> never panics.\<close>

lemma find_from_length:
  "find_from re p s = Some m \<Longrightarrow> length m = length (re_names re)"
proof (induction re p s rule: find_from.induct)
  case (1 re p s)
  let ?st = "(p, s, replicate (length (re_names re)) '''')"
  show ?case
  proof (cases "mtch (re_ast re) ?st")
    case Nil
    with 1 show ?thesis
      by (auto simp: find_from.simps [of re p s] split: list.splits)
  next
    case (Cons a as)
    then have "a \<in> set (mtch (re_ast re) ?st)" by simp
    then have "length (snd (snd a)) = length (re_names re)"
      using mtch_caps by fastforce
    with Cons 1 show ?thesis
      by (cases a) (auto simp: find_from.simps [of re p s])
  qed
qed

lemma FindStringSubmatch_length:
  "FindStringSubmatch re s = Some m \<Longrightarrow> length m = length (SubexpNames re)"
  by (simp add: FindStringSubmatch_def SubexpNames_def find_from_length)

text \<open>An expression that starts with \<open>^\<close> matches at position 0 or not at all.\<close>

lemma find_from_anchored:
  assumes "re_ast re = Seq BeginText r" and "0 < p"
  shows "find_from re p s = None"
  using assms
proof (induction re p s rule: find_from.induct)
  case (1 re p s)
  then show ?case by (auto simp: find_from.simps [of re p s] split: list.splits)
qed

text \<open>The first match of a sequence is the first match of its tail after the first match of
  its head, when there is one.\<close>

lemma mtch_Seq_first:
  "mtch r1 st = st1 # rest \<Longrightarrow> mtch r2 st1 = st2 # rest2 \<Longrightarrow>
   \<exists>rest'. mtch (Seq r1 r2) st = st2 # rest'"
  by simp

lemma mtch_Opt_first:
  "mtch r st = st1 # rest \<Longrightarrow> \<exists>rest'. mtch (Opt True r) st = st1 # rest'"
  by (simp add: Opt_def)

lemma mtch_Opt_none: "mtch r st = [] \<Longrightarrow> mtch (Opt True r) st = [st]"
  by (simp add: Opt_def)

lemma mtch_Lit: "mtch (Lit ch) (p, ch # s, c) = [(Suc p, s, c)]"
  by (simp add: Lit_def)

text \<open>A literal string, as the parser builds it: one \<open>Seq\<close> per byte.\<close>

fun lits :: "string \<Rightarrow> regex \<Rightarrow> regex" where
  "lits [] r = r"
| "lits (ch # t) r = Seq (Lit ch) (lits t r)"

lemma mtch_lits: "mtch (lits t r) (p, t @ s, c) = mtch r (p + length t, s, c)"
  by (induction t arbitrary: p) (simp_all add: Lit_def)

lemma mtch_lits_fail:
  "\<not> hasPrefix s t \<Longrightarrow> mtch (lits t r) (p, s, c) = []"
proof (induction t arbitrary: p s)
  case Nil
  then show ?case by (simp add: hasPrefix_def)
next
  case (Cons ch t)
  then show ?case
    by (cases s) (auto simp: Lit_def hasPrefix_def)
qed

text \<open>A greedy loop over a byte class lists its matches longest first.\<close>

lemma star_cls_first:
  assumes "list_all (\<lambda>x. (x \<in> set cs) \<noteq> neg) w"
    and "\<And>x t. s = x # t \<Longrightarrow> (x \<in> set cs) = neg" and "length w < n"
  shows "\<exists>rest. star_iter True (cls_step neg cs) n (p, w @ s, c) = (p + length w, s, c) # rest"
  using assms(1,3)
proof (induction w arbitrary: p n)
  case Nil
  then obtain m where "n = Suc m" by (cases n) auto
  with assms(2) show ?case by (cases s) auto
next
  case (Cons x w)
  then obtain m where n: "n = Suc m" and "length w < m" by (cases n) auto
  with Cons.IH [of m "Suc p"] Cons.prems obtain rest where
    "star_iter True (cls_step neg cs) m (Suc p, w @ s, c) = (Suc p + length w, s, c) # rest"
    by auto
  with n Cons.prems show ?case by simp
qed

lemma plus_cls_first:
  assumes "w \<noteq> []" "list_all (\<lambda>x. (x \<in> set cs) \<noteq> neg) w"
    and "\<And>x t. s = x # t \<Longrightarrow> (x \<in> set cs) = neg"
  shows "\<exists>rest. mtch (Plus True (Cls neg cs)) (p, w @ s, c) = (p + length w, s, c) # rest"
proof -
  obtain x v where w: "w = x # v" using assms(1) by (cases w) auto
  have "length v < Suc (length (v @ s))" by simp
  with assms w obtain rest where
    "star_iter True (cls_step neg cs) (Suc (length (v @ s))) (Suc p, v @ s, c)
       = (Suc p + length v, s, c) # rest"
    using star_cls_first [of cs neg v s "Suc (length (v @ s))" "Suc p" c] by auto
  then show ?thesis using assms(2) w by (simp add: Plus_def)
qed

lemma plus_cls_none:
  "(\<And>x t. s = x # t \<Longrightarrow> (x \<in> set cs) = neg) \<Longrightarrow> mtch (Plus True (Cls neg cs)) (p, s, c) = []"
  by (cases s) (auto simp: Plus_def)

lemma mtch_Cap_first:
  "mtch r (p, s, c) = (p', s', c') # rest \<Longrightarrow>
   \<exists>rest'. mtch (Cap n r) (p, s, c) = (p', s', c'[n := take (p' - p) s]) # rest'"
  by simp

section \<open>Pattern syntax\<close>

fun char_range :: "nat \<Rightarrow> nat \<Rightarrow> string" where
  "char_range a b = map char_of [a..<Suc b]"

definition escape_class :: "char \<Rightarrow> (bool \<times> string) option" where
  "escape_class c =
     (if c = CHR ''d'' then Some (False, ''0123456789'')
      else if c = CHR ''D'' then Some (True, ''0123456789'')
      else if c = CHR 0x5C \<or> c \<in> set ''.+*?()|[]{}^$/-'' then Some (False, [c])
      else None)"

text \<open>The members of a bracket class up to its closing bracket.\<close>

fun class_items :: "string \<Rightarrow> (string \<times> string) option" where
  "class_items [] = None"
| "class_items (a # s) =
     (if a = CHR '']'' then Some ([], s)
      else if a = CHR 0x5C \<or> a = CHR ''['' then None
      else case s of
        b # c # t \<Rightarrow>
          if b = CHR ''-'' \<and> c \<noteq> CHR '']'' then
            (if (of_char a :: nat) \<le> of_char c \<and> c \<noteq> CHR 0x5C \<and> c \<noteq> CHR ''['' then
               map_option (\<lambda>(cs, u). (char_range (of_char a) (of_char c) @ cs, u)) (class_items t)
             else None)
          else map_option (\<lambda>(cs, u). (a # cs, u)) (class_items s)
      | _ \<Rightarrow> map_option (\<lambda>(cs, u). (a # cs, u)) (class_items s))"

definition name_char :: "char \<Rightarrow> bool" where
  "name_char c \<longleftrightarrow> is_digit c \<or> c = CHR ''_''
     \<or> (65 \<le> (of_char c :: nat) \<and> (of_char c :: nat) \<le> 90)
     \<or> (97 \<le> (of_char c :: nat) \<and> (of_char c :: nat) \<le> 122)"

definition quantify :: "regex \<Rightarrow> string \<Rightarrow> (regex \<times> string) option" where
  "quantify r s =
     (case s of
        q # t \<Rightarrow>
          if q = CHR ''*'' \<or> q = CHR ''+'' \<or> q = CHR ''?'' then
            (let (g, u) = (case t of l # v \<Rightarrow> if l = CHR ''?'' then (False, v) else (True, t)
                           | [] \<Rightarrow> (True, t));
                 r' = (if q = CHR ''*'' then Star g r else if q = CHR ''+'' then Plus g r else Opt g r)
             in case u of x # _ \<Rightarrow> if x \<in> set ''*+?{'' then None else Some (r', u)
                | [] \<Rightarrow> Some (r', u))
          else if q = CHR ''{'' then None else Some (r, s)
      | [] \<Rightarrow> Some (r, s))"

text \<open>The parser carries the group names seen so far (their number is the index of the next
  group). Each call spends one unit of fuel; \<open>3 * length + 3\<close> units are provided.\<close>

fun p_alt :: "nat \<Rightarrow> string list \<Rightarrow> string \<Rightarrow> (regex \<times> string list \<times> string) option"
and p_seq :: "nat \<Rightarrow> string list \<Rightarrow> string \<Rightarrow> (regex \<times> string list \<times> string) option"
and p_atom :: "nat \<Rightarrow> string list \<Rightarrow> string \<Rightarrow> (regex \<times> string list \<times> string) option" where
  "p_alt 0 ns s = None"
| "p_alt (Suc f) ns s =
     (case p_seq f ns s of
        Some (r, ns', c # t) \<Rightarrow>
          if c = CHR ''|'' then
            (case p_alt f ns' t of Some (r2, ns2, u) \<Rightarrow> Some (Alt r r2, ns2, u) | None \<Rightarrow> None)
          else Some (r, ns', c # t)
      | x \<Rightarrow> x)"
| "p_seq 0 ns s = None"
| "p_seq (Suc f) ns s =
     (case s of
        [] \<Rightarrow> Some (Eps, ns, s)
      | c # _ \<Rightarrow>
          if c = CHR ''|'' \<or> c = CHR '')'' then Some (Eps, ns, s)
          else case p_atom f ns s of
            None \<Rightarrow> None
          | Some (a, ns1, s1) \<Rightarrow>
              (case quantify a s1 of
                 None \<Rightarrow> None
               | Some (a', s2) \<Rightarrow>
                   (case p_seq f ns1 s2 of
                      None \<Rightarrow> None
                    | Some (r, ns2, s3) \<Rightarrow> Some (Seq a' r, ns2, s3))))"
| "p_atom 0 ns s = None"
| "p_atom (Suc f) ns s =
     (let close = (\<lambda>wrap res. case res of
                     Some (r, ns', c # t) \<Rightarrow>
                       if c = CHR '')'' then Some (wrap r, ns', t) else None
                   | _ \<Rightarrow> None)
      in if hasPrefix s ''(?P<'' then
           (let rest = drop 4 s; nm = takeWhile name_char rest in
            if nm = [] \<or> nm \<in> set ns then None
            else case drop (length nm) rest of
              c # t \<Rightarrow> if c = CHR ''>'' then close (Cap (length ns)) (p_alt f (ns @ [nm]) t) else None
            | [] \<Rightarrow> None)
         else if hasPrefix s ''(?:'' then close id (p_alt f ns (drop 3 s))
         else if hasPrefix s ''(?'' then None
         else case s of
           [] \<Rightarrow> None
         | c # t \<Rightarrow>
             if c = CHR ''('' then close (Cap (length ns)) (p_alt f (ns @ ['''']) t)
             else if c = CHR ''^'' then Some (BeginText, ns, t)
             else if c = CHR ''$'' then Some (EndText, ns, t)
             else if c = CHR ''.'' then Some (Cls True [CHR 0x0A], ns, t)
             else if c = CHR ''['' then
               (let neg = hasPrefix t ''^''; u = (if neg then tl t else t) in
                if hasPrefix u '']'' then None
                else case class_items u of
                  Some (cs, v) \<Rightarrow> Some (Cls neg cs, ns, v)
                | None \<Rightarrow> None)
             else if c = CHR 0x5C then
               (case t of
                  [] \<Rightarrow> None
                | d # v \<Rightarrow>
                    (case escape_class d of
                       Some (neg, cs) \<Rightarrow> Some (Cls neg cs, ns, v)
                     | None \<Rightarrow> None))
             else if c \<in> set ''*+?{'' then None
             else Some (Lit c, ns, t))"

definition re_parse :: "string \<Rightarrow> regexp option" where
  "re_parse s =
     (case p_alt (3 * length s + 3) [''''] s of
        Some (r, ns, []) \<Rightarrow> Some \<lparr>re_ast = r, re_names = ns\<rparr>
      | _ \<Rightarrow> None)"

end
