(* ===== verification/Attrs.thy ===== *)
theory Attrs
  imports Prelude
begin

text \<open>
  Attribute keys (\<open>attrs.go\<close>) and the attribute maps they are written to. A
  \<open>pcommon.Map\<close> of the collector is a map from keys to values; the processor reads it
  with \<open>Get\<close> and \<open>Value.AsString\<close> and writes it with \<open>PutStr\<close>, \<open>PutInt\<close>, \<open>PutBool\<close>,
  \<open>PutEmptySlice\<close> and \<open>Remove\<close>. Values of the kinds the processor never writes
  (doubles, bytes, maps) are \<open>VOther\<close> with an opaque payload. The constants of
  \<open>attrs.go\<close> keep their names; the library proves them pairwise distinct once.
\<close>

section \<open>Attribute keys\<close>

definition AttrGatewayName :: string where "AttrGatewayName = ''k8s.gateway.name''"
definition AttrGatewayNamespace :: string where "AttrGatewayNamespace = ''k8s.gateway.namespace''"
definition AttrGatewayUID :: string where "AttrGatewayUID = ''k8s.gateway.uid''"
definition AttrGatewayListenerName :: string where "AttrGatewayListenerName = ''k8s.gateway.listener.name''"
definition AttrGatewayClassName :: string where "AttrGatewayClassName = ''k8s.gatewayclass.name''"
definition AttrGatewayClassController :: string where "AttrGatewayClassController = ''k8s.gatewayclass.controller''"
definition AttrHTTPRouteName :: string where "AttrHTTPRouteName = ''k8s.httproute.name''"
definition AttrHTTPRouteNamespace :: string where "AttrHTTPRouteNamespace = ''k8s.httproute.namespace''"
definition AttrHTTPRouteUID :: string where "AttrHTTPRouteUID = ''k8s.httproute.uid''"
definition AttrHTTPRouteRuleIndex :: string where "AttrHTTPRouteRuleIndex = ''k8s.httproute.rule_index''"
definition AttrHTTPRouteMatchIndex :: string where "AttrHTTPRouteMatchIndex = ''k8s.httproute.match_index''"
definition AttrHTTPRouteParentRef :: string where "AttrHTTPRouteParentRef = ''k8s.httproute.parent_ref''"
definition AttrHTTPRouteParentKind :: string where "AttrHTTPRouteParentKind = ''k8s.httproute.parent.kind''"
definition AttrHTTPRouteRuleName :: string where "AttrHTTPRouteRuleName = ''k8s.httproute.rule.name''"
definition AttrHTTPRouteAccepted :: string where "AttrHTTPRouteAccepted = ''k8s.httproute.accepted''"
definition AttrHTTPRouteResolvedRefs :: string where "AttrHTTPRouteResolvedRefs = ''k8s.httproute.resolved_refs''"
definition AttrGRPCRouteName :: string where "AttrGRPCRouteName = ''k8s.grpcroute.name''"
definition AttrGRPCRouteNamespace :: string where "AttrGRPCRouteNamespace = ''k8s.grpcroute.namespace''"
definition AttrGRPCRouteUID :: string where "AttrGRPCRouteUID = ''k8s.grpcroute.uid''"
definition AttrGRPCRouteParentRef :: string where "AttrGRPCRouteParentRef = ''k8s.grpcroute.parent_ref''"
definition AttrGRPCRouteParentKind :: string where "AttrGRPCRouteParentKind = ''k8s.grpcroute.parent.kind''"
definition AttrGRPCRouteRuleName :: string where "AttrGRPCRouteRuleName = ''k8s.grpcroute.rule.name''"
definition AttrGRPCRouteAccepted :: string where "AttrGRPCRouteAccepted = ''k8s.grpcroute.accepted''"
definition AttrGRPCRouteResolvedRefs :: string where "AttrGRPCRouteResolvedRefs = ''k8s.grpcroute.resolved_refs''"
definition AttrRouteMode :: string where "AttrRouteMode = ''gateway.networking.k8s.io/route-mode''"
definition AttrParentServiceName :: string where "AttrParentServiceName = ''k8s.service.parent.name''"
definition AttrParentServiceNamespace :: string where "AttrParentServiceNamespace = ''k8s.service.parent.namespace''"
definition AttrParentServicePort :: string where "AttrParentServicePort = ''k8s.service.parent.port''"
definition AttrWaypointImplementation :: string where "AttrWaypointImplementation = ''k8s.gatewayapi.waypoint.implementation''"
definition AttrWaypointName :: string where "AttrWaypointName = ''k8s.gatewayapi.waypoint.name''"
definition AttrWaypointNamespace :: string where "AttrWaypointNamespace = ''k8s.gatewayapi.waypoint.namespace''"
definition AttrRouteRole :: string where "AttrRouteRole = ''k8s.gatewayapi.route.role''"
definition AttrRawRouteName :: string where "AttrRawRouteName = ''k8s.gatewayapi.raw_route_name''"
definition AttrParser :: string where "AttrParser = ''k8s.gatewayapi.parser''"
definition AttrPolicyNames :: string where "AttrPolicyNames = ''k8s.gatewayapi.policy.names''"
definition AttrPolicyKinds :: string where "AttrPolicyKinds = ''k8s.gatewayapi.policy.kinds''"
definition AttrPolicyNamespaces :: string where "AttrPolicyNamespaces = ''k8s.gatewayapi.policy.namespaces''"
definition AttrPolicyGroups :: string where "AttrPolicyGroups = ''k8s.gatewayapi.policy.groups''"
definition AttrPolicyTargetKind :: string where "AttrPolicyTargetKind = ''k8s.gatewayapi.policy.target_kind''"

text \<open>Values of the route-mode, route-role and waypoint-implementation attributes.\<close>

definition RouteModeIngress :: string where "RouteModeIngress = ''ingress''"
definition RouteModeMesh :: string where "RouteModeMesh = ''mesh''"
definition RouteRoleProducer :: string where "RouteRoleProducer = ''producer''"
definition RouteRoleConsumer :: string where "RouteRoleConsumer = ''consumer''"
definition WaypointImplIstioAmbient :: string where "WaypointImplIstioAmbient = ''istio-ambient''"
definition WaypointImplKgateway :: string where "WaypointImplKgateway = ''kgateway''"
definition WaypointImplIstioEastWest :: string where "WaypointImplIstioEastWest = ''istio-eastwest''"

lemmas attr_defs =
  AttrGatewayName_def AttrGatewayNamespace_def AttrGatewayUID_def AttrGatewayListenerName_def
  AttrGatewayClassName_def AttrGatewayClassController_def AttrHTTPRouteName_def
  AttrHTTPRouteNamespace_def AttrHTTPRouteUID_def AttrHTTPRouteRuleIndex_def
  AttrHTTPRouteMatchIndex_def AttrHTTPRouteParentRef_def AttrHTTPRouteParentKind_def
  AttrHTTPRouteRuleName_def AttrHTTPRouteAccepted_def AttrHTTPRouteResolvedRefs_def
  AttrGRPCRouteName_def AttrGRPCRouteNamespace_def AttrGRPCRouteUID_def
  AttrGRPCRouteParentRef_def AttrGRPCRouteParentKind_def AttrGRPCRouteRuleName_def
  AttrGRPCRouteAccepted_def AttrGRPCRouteResolvedRefs_def AttrRouteMode_def
  AttrParentServiceName_def AttrParentServiceNamespace_def AttrParentServicePort_def
  AttrWaypointImplementation_def AttrWaypointName_def AttrWaypointNamespace_def
  AttrRouteRole_def AttrRawRouteName_def AttrParser_def AttrPolicyNames_def AttrPolicyKinds_def
  AttrPolicyNamespaces_def AttrPolicyGroups_def AttrPolicyTargetKind_def

lemmas const_defs =
  RouteModeIngress_def RouteModeMesh_def RouteRoleProducer_def RouteRoleConsumer_def
  WaypointImplIstioAmbient_def WaypointImplKgateway_def WaypointImplIstioEastWest_def

text \<open>The keys the processor may write, by route kind.\<close>

definition http_keys :: "string list" where
  "http_keys =
   [AttrHTTPRouteName, AttrHTTPRouteNamespace, AttrHTTPRouteUID, AttrHTTPRouteRuleIndex,
   AttrHTTPRouteMatchIndex, AttrHTTPRouteParentRef, AttrHTTPRouteParentKind,
   AttrHTTPRouteRuleName, AttrHTTPRouteAccepted, AttrHTTPRouteResolvedRefs]"

definition grpc_keys :: "string list" where
  "grpc_keys =
   [AttrGRPCRouteName, AttrGRPCRouteNamespace, AttrGRPCRouteUID, AttrGRPCRouteParentRef,
   AttrGRPCRouteParentKind, AttrGRPCRouteRuleName, AttrGRPCRouteAccepted,
   AttrGRPCRouteResolvedRefs]"

definition shared_keys :: "string list" where
  "shared_keys =
   [AttrGatewayName, AttrGatewayNamespace, AttrGatewayUID, AttrGatewayListenerName,
   AttrGatewayClassName, AttrGatewayClassController, AttrRouteMode, AttrParentServiceName,
   AttrParentServiceNamespace, AttrParentServicePort, AttrWaypointImplementation,
   AttrWaypointName, AttrWaypointNamespace, AttrRouteRole, AttrParser, AttrPolicyNames,
   AttrPolicyKinds, AttrPolicyNamespaces, AttrPolicyGroups, AttrPolicyTargetKind]"

text \<open>The keys the processor stamps under names of its own. \<open>AttrRawRouteName\<close> is not among them: the
  raw name goes under whatever key is configured as the passthrough attribute, which it is by default.\<close>

definition schema_keys :: "string list" where
  "schema_keys = http_keys @ grpc_keys @ shared_keys"

lemmas key_list_defs = http_keys_def grpc_keys_def shared_keys_def schema_keys_def

lemma schema_keys_distinct: "distinct schema_keys"
  by (simp add: key_list_defs attr_defs)

text \<open>Every pair of keys of the schema is unequal, as simplification rules.\<close>

lemma schema_keys_rev_distinct: "distinct (rev schema_keys)"
  using schema_keys_distinct by simp

lemmas attr_neq = schema_keys_distinct [unfolded key_list_defs, simplified]
lemmas attr_neq_sym = schema_keys_rev_distinct [unfolded key_list_defs, simplified]
declare attr_neq [simp] attr_neq_sym [simp]

lemma attr_neq_check: "AttrParser \<noteq> AttrRouteMode" "AttrRouteMode \<noteq> AttrParser"
  by simp_all

lemma const_neq [simp]:
  "RouteModeIngress \<noteq> RouteModeMesh" "RouteModeMesh \<noteq> RouteModeIngress"
  "RouteModeMesh \<noteq> []" "RouteModeIngress \<noteq> []"
  "RouteRoleProducer \<noteq> RouteRoleConsumer" "RouteRoleConsumer \<noteq> RouteRoleProducer"
  "RouteRoleProducer \<noteq> []" "RouteRoleConsumer \<noteq> []"
  "WaypointImplIstioAmbient \<noteq> []" "WaypointImplKgateway \<noteq> []" "WaypointImplIstioEastWest \<noteq> []"
  "WaypointImplIstioAmbient \<noteq> WaypointImplKgateway"
  "WaypointImplIstioAmbient \<noteq> WaypointImplIstioEastWest"
  "WaypointImplKgateway \<noteq> WaypointImplIstioEastWest"
  by (simp_all add: const_defs)

section \<open>Attribute maps\<close>

datatype attr_value =
    VStr string
  | VInt int
  | VBool bool
  | VSlice "string list"
  | VOther nat

type_synonym attrs = "string \<rightharpoonup> attr_value"

datatype signalKind = signalTraces | signalLogs | signalMetrics

definition putString :: "attrs \<Rightarrow> string \<Rightarrow> string \<Rightarrow> attrs" where
  "putString m key val = m(key \<mapsto> VStr val)"

definition putInt :: "attrs \<Rightarrow> string \<Rightarrow> int \<Rightarrow> attrs" where
  "putInt m key n = m(key \<mapsto> VInt n)"

definition putBool :: "attrs \<Rightarrow> string \<Rightarrow> bool \<Rightarrow> attrs" where
  "putBool m key b = m(key \<mapsto> VBool b)"

definition putSlice :: "attrs \<Rightarrow> string \<Rightarrow> string list \<Rightarrow> attrs" where
  "putSlice m key xs = m(key \<mapsto> VSlice xs)"

definition removeKey :: "attrs \<Rightarrow> string \<Rightarrow> attrs" where
  "removeKey m key = m(key := None)"

lemmas attr_ops = putString_def putInt_def putBool_def putSlice_def removeKey_def

text \<open>\<open>pcommon.Value.AsString\<close> is collector code, so it is an argument of the operations
  that read attributes; they rely on its documented behaviour on string values.\<close>

type_synonym as_string = "attr_value \<Rightarrow> string"

definition as_string_ok :: "as_string \<Rightarrow> bool" where
  "as_string_ok asString \<longleftrightarrow> (\<forall>s. asString (VStr s) = s)"

text \<open>A conversion for examples: strings as they are, booleans and integers printed.\<close>

fun show_value :: as_string where
  "show_value (VStr s) = s"
| "show_value (VBool b) = (if b then ''true'' else ''false'')"
| "show_value (VInt n) = (if n < 0 then ''-'' @ itoa (nat (- n)) else itoa (nat n))"
| "show_value (VSlice xs) = concat xs"
| "show_value (VOther n) = itoa n"

lemma show_value_ok [simp]: "as_string_ok show_value"
  by (simp add: as_string_ok_def)

text \<open>\<open>combinedView\<close>: the record's attributes first, then the resource's.\<close>

record combinedView =
  cv_record :: attrs
  cv_resource :: attrs

definition view_Get :: "as_string \<Rightarrow> combinedView \<Rightarrow> string \<Rightarrow> string option" where
  "view_Get asString v key =
     (case cv_record v key of
        Some val \<Rightarrow> Some (asString val)
      | None \<Rightarrow> (case cv_resource v key of Some val \<Rightarrow> Some (asString val) | None \<Rightarrow> None))"

lemma view_Get_record [simp]:
  "cv_record v key = Some val \<Longrightarrow> view_Get asString v key = Some (asString val)"
  by (simp add: view_Get_def)

lemma view_Get_eq: "view_Get asString v = (\<lambda>k. map_option asString ((cv_resource v ++ cv_record v) k))"
  by (rule ext) (auto simp: view_Get_def map_add_def split: option.splits)

end
