(* ===== verification/Parsers.thy ===== *)
theory Parsers
  imports GoRegexp
begin

text \<open>
  The package \<open>parser\<close>: what a parser returns (\<open>Result\<close>), the three parsers (\<open>envoy.go\<close>,
  \<open>linkerd.go\<close>, \<open>passthrough.go\<close>) and the interface the chain walks (\<open>parser.go\<close>). An
  \<open>AttrGetter\<close> is a partial function from keys to strings. The locale \<open>route_parser\<close> is the
  contract of the interface; each parser is an interpretation of it.
\<close>

section \<open>The interface\<close>

type_synonym attrGetter = "string \<Rightarrow> string option"

record result =
  Matched :: bool
  Namespace :: string
  Name :: string
  Kind :: string
  RuleIndex :: int
  MatchIndex :: int
  RawRouteName :: string
  ParserName :: string

text \<open>The zero value \<open>Result{}\<close>.\<close>

definition no_result :: result where
  "no_result = \<lparr>Matched = False, Namespace = '''', Name = '''', Kind = '''',
     RuleIndex = 0, MatchIndex = 0, RawRouteName = '''', ParserName = ''''\<rparr>"

lemma no_result_sel [simp]:
  "Matched no_result = False" "Namespace no_result = ''''" "Name no_result = ''''"
  "ParserName no_result = ''''" "RawRouteName no_result = ''''"
  by (simp_all add: no_result_def)

text \<open>\<open>MapAttrs.Get\<close>\<close>

definition MapAttrs_Get :: "(string \<rightharpoonup> string) \<Rightarrow> attrGetter" where
  "MapAttrs_Get m key = m key"

section \<open>The Envoy-family parser\<close>

record EnvoyParser =
  ep_name :: string
  ep_controllers :: "string list"
  ep_sourceAttribute :: string
  ep_re :: regexp
  ep_nsIdx :: int
  ep_nameIdx :: int
  ep_ruleIdx :: int
  ep_matchIdx :: int

text \<open>The loop over \<open>re.SubexpNames()\<close> that resolves the four group indexes.\<close>

fun resolve_groups :: "int \<Rightarrow> string list \<Rightarrow> EnvoyParser \<Rightarrow> EnvoyParser" where
  "resolve_groups i [] p = p"
| "resolve_groups i (n # ns) p =
     resolve_groups (i + 1) ns
       (if n = ''ns'' then p\<lparr>ep_nsIdx := i\<rparr>
        else if n = ''name'' then p\<lparr>ep_nameIdx := i\<rparr>
        else if n = ''rule'' then p\<lparr>ep_ruleIdx := i\<rparr>
        else if n = ''match'' then p\<lparr>ep_matchIdx := i\<rparr>
        else p)"

text \<open>\<open>rc\<close> is \<open>regexp.Compile\<close>; \<open>None\<close> is its error.\<close>

definition NewEnvoyParser ::
  "(string \<Rightarrow> regexp option) \<Rightarrow> string \<Rightarrow> string \<Rightarrow> string \<Rightarrow> string list \<Rightarrow> EnvoyParser option"
where
  "NewEnvoyParser rc name sourceAttribute formatRegex controllers =
     (case rc formatRegex of
        None \<Rightarrow> None
      | Some re \<Rightarrow>
          Some (resolve_groups 0 (SubexpNames re)
            \<lparr>ep_name = name, ep_controllers = controllers, ep_sourceAttribute = sourceAttribute,
             ep_re = re, ep_nsIdx = -1, ep_nameIdx = -1, ep_ruleIdx = -1, ep_matchIdx = -1\<rparr>))"

definition capturedInt :: "string list \<Rightarrow> int \<Rightarrow> int" where
  "capturedInt m idx =
     (if idx < 0 \<or> int (length m) \<le> idx then -1
      else let s = m ! nat idx in
        if s = '''' then -1
        else case atoi s of None \<Rightarrow> -1 | Some n \<Rightarrow> n)"

definition envoy_Parse :: "EnvoyParser \<Rightarrow> attrGetter \<Rightarrow> result" where
  "envoy_Parse p get =
     (case get (ep_sourceAttribute p) of
        None \<Rightarrow> no_result
      | Some raw \<Rightarrow>
          if raw = '''' then no_result
          else case FindStringSubmatch (ep_re p) raw of
            None \<Rightarrow> no_result
          | Some m \<Rightarrow>
              if ep_nsIdx p < 0 \<or> ep_nameIdx p < 0 then no_result
              else let ns = m ! nat (ep_nsIdx p); name = m ! nat (ep_nameIdx p) in
                if ns = '''' \<or> name = '''' then no_result
                else \<lparr>Matched = True, Namespace = ns, Name = name, Kind = ''HTTPRoute'',
                      RuleIndex = capturedInt m (ep_ruleIdx p),
                      MatchIndex = capturedInt m (ep_matchIdx p),
                      RawRouteName = raw, ParserName = ep_name p\<rparr>)"

text \<open>Every group index is \<open>-1\<close> or the index of a group, so \<open>m[p.nsIdx]\<close> stays in range.\<close>

definition groups_in_range :: "int \<Rightarrow> EnvoyParser \<Rightarrow> bool" where
  "groups_in_range n p \<longleftrightarrow>
     (\<forall>i \<in> {ep_nsIdx p, ep_nameIdx p, ep_ruleIdx p, ep_matchIdx p}. i = -1 \<or> (0 \<le> i \<and> i < n))"

lemma resolve_groups_frame [simp]:
  "ep_re (resolve_groups i ns p) = ep_re p" "ep_name (resolve_groups i ns p) = ep_name p"
  "ep_controllers (resolve_groups i ns p) = ep_controllers p"
  "ep_sourceAttribute (resolve_groups i ns p) = ep_sourceAttribute p"
  by (induction ns arbitrary: i p) auto

lemma groups_in_range_set:
  assumes "0 \<le> i" "groups_in_range i p"
  shows "groups_in_range (i + 1) p" "groups_in_range (i + 1) (p\<lparr>ep_nsIdx := i\<rparr>)"
    "groups_in_range (i + 1) (p\<lparr>ep_nameIdx := i\<rparr>)" "groups_in_range (i + 1) (p\<lparr>ep_ruleIdx := i\<rparr>)"
    "groups_in_range (i + 1) (p\<lparr>ep_matchIdx := i\<rparr>)"
  using assms by (simp_all add: groups_in_range_def) linarith+

lemma resolve_groups_range:
  "0 \<le> i \<Longrightarrow> groups_in_range i p \<Longrightarrow> groups_in_range (i + int (length ns)) (resolve_groups i ns p)"
proof (induction ns arbitrary: i p)
  case Nil
  then show ?case by simp
next
  case (Cons n ns)
  let ?p = "if n = ''ns'' then p\<lparr>ep_nsIdx := i\<rparr>
        else if n = ''name'' then p\<lparr>ep_nameIdx := i\<rparr>
        else if n = ''rule'' then p\<lparr>ep_ruleIdx := i\<rparr>
        else if n = ''match'' then p\<lparr>ep_matchIdx := i\<rparr>
        else p"
  from Cons.prems have "groups_in_range (i + 1) ?p"
    by (simp add: groups_in_range_set)
  with Cons.IH [of "i + 1" ?p] Cons.prems show ?case
    by (simp add: algebra_simps)
qed

lemma NewEnvoyParser_in_range:
  assumes "NewEnvoyParser rc name src fmt cs = Some p"
    and "FindStringSubmatch (ep_re p) raw = Some m"
  shows "groups_in_range (int (length m)) p"
proof -
  from assms(1) obtain re q where re: "rc fmt = Some re"
    and p: "p = resolve_groups 0 (SubexpNames re) q" and q: "groups_in_range 0 q" "ep_re q = re"
    by (auto simp: NewEnvoyParser_def groups_in_range_def split: option.splits)
  with assms(2) have "length m = length (SubexpNames re)"
    by (simp add: FindStringSubmatch_length)
  with p q resolve_groups_range [of 0 q "SubexpNames re"] show ?thesis by simp
qed

lemma capturedInt_range: "- (2 ^ 63) \<le> capturedInt m idx \<and> capturedInt m idx < 2 ^ 63"
  using atoi_range by (auto simp: capturedInt_def Let_def split: option.splits)

text \<open>What a group contributes to a result: \<open>-1\<close> when the expression has no such group, when the
  group is empty or took no part in the match, and when its text is not an \<open>int64\<close> in decimal;
  otherwise the number.\<close>

definition index_of_group :: "string list \<Rightarrow> int \<Rightarrow> int" where
  "index_of_group m i = (if i = -1 then -1 else case atoi (m ! nat i) of None \<Rightarrow> -1 | Some n \<Rightarrow> n)"

lemma atoi_empty: "atoi '''' = None"
  by code_simp

lemma capturedInt_group:
  "i = -1 \<or> (0 \<le> i \<and> nat i < length m) \<Longrightarrow> capturedInt m i = index_of_group m i"
  by (auto simp: capturedInt_def index_of_group_def Let_def atoi_empty)

text \<open>Claim C21. No access out of bounds, whatever expression is configured: a parser that was built
  resolved each of its four groups to \<open>-1\<close> or to an index of every match of its expression, so the
  unguarded reads of the namespace and the name stay within the match. When the parser matches an
  attribute, the namespace and the name it reports are the texts of those two groups, and the rule
  and match indexes are the numbers in theirs, \<open>-1\<close> where the expression has no such group or the
  captured text is absent or not a decimal \<open>int64\<close>; they are within \<open>int64\<close> in every case.\<close>

theorem envoy_indexes_in_bounds:
  assumes "NewEnvoyParser rc name src fmt cs = Some p" and "FindStringSubmatch (ep_re p) raw = Some m"
  shows "(\<forall>i \<in> {ep_nsIdx p, ep_nameIdx p, ep_ruleIdx p, ep_matchIdx p}. i = -1 \<or> (0 \<le> i \<and> nat i < length m))
    \<and> (get (ep_sourceAttribute p) = Some raw \<and> Matched (envoy_Parse p get) \<longrightarrow>
         0 \<le> ep_nsIdx p \<and> Namespace (envoy_Parse p get) = m ! nat (ep_nsIdx p) \<and>
         0 \<le> ep_nameIdx p \<and> Name (envoy_Parse p get) = m ! nat (ep_nameIdx p) \<and>
         RuleIndex (envoy_Parse p get) = index_of_group m (ep_ruleIdx p) \<and>
         MatchIndex (envoy_Parse p get) = index_of_group m (ep_matchIdx p))
    \<and> - (2 ^ 63) \<le> RuleIndex (envoy_Parse p get) \<and> RuleIndex (envoy_Parse p get) < 2 ^ 63
    \<and> - (2 ^ 63) \<le> MatchIndex (envoy_Parse p get) \<and> MatchIndex (envoy_Parse p get) < 2 ^ 63
    \<and> (Matched (envoy_Parse p get) \<longrightarrow> 0 \<le> ep_nsIdx p \<and> 0 \<le> ep_nameIdx p)"
proof -
  have range: "\<forall>i \<in> {ep_nsIdx p, ep_nameIdx p, ep_ruleIdx p, ep_matchIdx p}. i = -1 \<or> (0 \<le> i \<and> nat i < length m)"
    using NewEnvoyParser_in_range [OF assms] unfolding groups_in_range_def by (metis nat_less_iff)
  then have "capturedInt m (ep_ruleIdx p) = index_of_group m (ep_ruleIdx p)"
    "capturedInt m (ep_matchIdx p) = index_of_group m (ep_matchIdx p)"
    using capturedInt_group by blast+
  then have parts: "get (ep_sourceAttribute p) = Some raw \<and> Matched (envoy_Parse p get) \<longrightarrow>
         0 \<le> ep_nsIdx p \<and> Namespace (envoy_Parse p get) = m ! nat (ep_nsIdx p) \<and>
         0 \<le> ep_nameIdx p \<and> Name (envoy_Parse p get) = m ! nat (ep_nameIdx p) \<and>
         RuleIndex (envoy_Parse p get) = index_of_group m (ep_ruleIdx p) \<and>
         MatchIndex (envoy_Parse p get) = index_of_group m (ep_matchIdx p)"
    using assms(2) by (auto simp: envoy_Parse_def Let_def split: if_splits)
  have "- (2 ^ 63) \<le> RuleIndex (envoy_Parse p get) \<and> RuleIndex (envoy_Parse p get) < 2 ^ 63"
    "- (2 ^ 63) \<le> MatchIndex (envoy_Parse p get) \<and> MatchIndex (envoy_Parse p get) < 2 ^ 63"
    using capturedInt_range by (auto simp: envoy_Parse_def no_result_def Let_def split: option.split)
  moreover have "Matched (envoy_Parse p get) \<longrightarrow> 0 \<le> ep_nsIdx p \<and> 0 \<le> ep_nameIdx p"
    by (auto simp: envoy_Parse_def Let_def split: option.splits if_splits)
  ultimately show ?thesis using range parts by blast
qed

text \<open>An expression with the four groups in another order than the default one, and a rule that is not
  a number.\<close>

definition four_groups :: regexp where
  "four_groups = the (re_parse ''^(?P<match>[0-9]+)/(?P<ns>[^/]+)/(?P<name>[^/]+)/(?P<rule>[^/]+)$'')"

definition four_groups_parser :: EnvoyParser where
  "four_groups_parser =
     the (NewEnvoyParser (\<lambda>_. Some four_groups) ''envoy'' ''route_name'' '''' [])"

lemma envoy_indexes_in_bounds_witness:
  "let r = envoy_Parse four_groups_parser [''route_name'' \<mapsto> ''7/shop/cart/x''] in
     Matched r \<and> Namespace r = ''shop'' \<and> Name r = ''cart'' \<and> RuleIndex r = -1 \<and> MatchIndex r = 7"
proof -
  let ?get = "[''route_name'' \<mapsto> ''7/shop/cart/x'']"
  let ?m = "[''7/shop/cart/x'', ''7'', ''shop'', ''cart'', ''x'']"
  have p: "NewEnvoyParser (\<lambda>_. Some four_groups) ''envoy'' ''route_name'' '''' [] = Some four_groups_parser"
    by (simp add: NewEnvoyParser_def four_groups_parser_def)
  have "ep_re four_groups_parser = four_groups"
    by (simp add: NewEnvoyParser_def four_groups_parser_def)
  moreover have "FindStringSubmatch four_groups ''7/shop/cart/x'' = Some ?m" by code_simp
  ultimately have m: "FindStringSubmatch (ep_re four_groups_parser) ''7/shop/cart/x'' = Some ?m" by simp
  have idx: "ep_sourceAttribute four_groups_parser = ''route_name''" "ep_nsIdx four_groups_parser = 2"
    "ep_nameIdx four_groups_parser = 3" "ep_ruleIdx four_groups_parser = 4" "ep_matchIdx four_groups_parser = 1"
    by code_simp+
  have num: "atoi ''x'' = None" "atoi ''7'' = Some 7" by code_simp+
  have "Matched (envoy_Parse four_groups_parser ?get)"
    using m by (simp add: envoy_Parse_def idx Let_def)
  with envoy_indexes_in_bounds [OF p m, of ?get] show ?thesis
    by (simp add: idx index_of_group_def num Let_def)
qed

section \<open>The Linkerd parser\<close>

record LinkerdLabelKeys =
  lk_RouteName :: string
  lk_RouteKind :: string
  lk_RouteNamespace :: string
  lk_ParentName :: string

record LinkerdParser =
  lp_name :: string
  lp_controllers :: "string list"
  lp_labels :: LinkerdLabelKeys

definition or_default :: "string \<Rightarrow> string \<Rightarrow> string" where
  "or_default d s = (if s = '''' then d else s)"

definition NewLinkerdParser :: "string \<Rightarrow> string list \<Rightarrow> LinkerdLabelKeys \<Rightarrow> LinkerdParser" where
  "NewLinkerdParser name controllers keys =
     \<lparr>lp_name = name, lp_controllers = controllers,
      lp_labels =
        \<lparr>lk_RouteName = or_default ''route_name'' (lk_RouteName keys),
         lk_RouteKind = or_default ''route_kind'' (lk_RouteKind keys),
         lk_RouteNamespace = or_default ''route_namespace'' (lk_RouteNamespace keys),
         lk_ParentName = or_default ''parent_name'' (lk_ParentName keys)\<rparr>\<rparr>"

text \<open>\<open>v, _ := attrs.Get(k)\<close>: the empty string when the key is absent.\<close>

definition get_or_empty :: "attrGetter \<Rightarrow> string \<Rightarrow> string" where
  "get_or_empty get k = (case get k of Some v \<Rightarrow> v | None \<Rightarrow> '''')"

definition linkerd_Parse :: "LinkerdParser \<Rightarrow> attrGetter \<Rightarrow> result" where
  "linkerd_Parse p get =
     (case get (lk_RouteName (lp_labels p)) of
        None \<Rightarrow> no_result
      | Some name \<Rightarrow>
          if name = '''' then no_result
          else let ns = get_or_empty get (lk_RouteNamespace (lp_labels p));
                   kind = get_or_empty get (lk_RouteKind (lp_labels p)) in
            if ns = '''' then no_result
            else \<lparr>Matched = True, Namespace = ns, Name = name,
                  Kind = (if toLower kind = ''grpcroute'' then ''GRPCRoute'' else ''HTTPRoute''),
                  RuleIndex = -1, MatchIndex = -1,
                  RawRouteName = name, ParserName = lp_name p\<rparr>)"

section \<open>The passthrough parser\<close>

record PassthroughParser =
  pp_name :: string
  pp_sourceAttribute :: string
  pp_passthroughAttribute :: string

definition NewPassthroughParser :: "string \<Rightarrow> string \<Rightarrow> string \<Rightarrow> PassthroughParser" where
  "NewPassthroughParser name sourceAttribute passthroughAttribute =
     \<lparr>pp_name = name, pp_sourceAttribute = sourceAttribute,
      pp_passthroughAttribute =
        (if passthroughAttribute = '''' then ''k8s.gatewayapi.raw_route_name''
         else passthroughAttribute)\<rparr>"

definition PassthroughAttribute :: "PassthroughParser \<Rightarrow> string" where
  "PassthroughAttribute p = pp_passthroughAttribute p"

definition passthrough_Parse :: "PassthroughParser \<Rightarrow> attrGetter \<Rightarrow> result" where
  "passthrough_Parse p get =
     (case get (pp_sourceAttribute p) of
        None \<Rightarrow> no_result
      | Some raw \<Rightarrow>
          if raw = '''' then no_result
          else \<lparr>Matched = True, Namespace = '''', Name = '''', Kind = '''',
                RuleIndex = -1, MatchIndex = -1, RawRouteName = raw, ParserName = pp_name p\<rparr>)"

section \<open>Dynamic dispatch\<close>

datatype parser =
    Envoy EnvoyParser
  | Linkerd LinkerdParser
  | Passthrough PassthroughParser

fun parser_Parse :: "parser \<Rightarrow> attrGetter \<Rightarrow> result" where
  "parser_Parse (Envoy p) get = envoy_Parse p get"
| "parser_Parse (Linkerd p) get = linkerd_Parse p get"
| "parser_Parse (Passthrough p) get = passthrough_Parse p get"

lemma parser_Parse_eq [simp]:
  "parser_Parse (Envoy p1) = envoy_Parse p1" "parser_Parse (Linkerd p2) = linkerd_Parse p2"
  "parser_Parse (Passthrough p3) = passthrough_Parse p3"
  by (simp_all add: fun_eq_iff)

fun parser_Name :: "parser \<Rightarrow> string" where
  "parser_Name (Envoy p) = ep_name p"
| "parser_Name (Linkerd p) = lp_name p"
| "parser_Name (Passthrough p) = pp_name p"

fun parser_Controllers :: "parser \<Rightarrow> string list" where
  "parser_Controllers (Envoy p) = ep_controllers p"
| "parser_Controllers (Linkerd p) = lp_controllers p"
| "parser_Controllers (Passthrough p) = []"

lemmas parse_defs = envoy_Parse_def linkerd_Parse_def passthrough_Parse_def

section \<open>The contract of the interface\<close>

text \<open>
  What the chain relies on: a parser that does not match returns the zero value, one that
  matches names itself and reports the raw text of the record, the identity is given
  completely or not at all, and the result depends on the attributes only where the parser
  looks them up.
\<close>

locale route_parser =
  fixes parse :: "attrGetter \<Rightarrow> result" and parserName :: string and reads :: "string set"
  assumes unmatched: "\<not> Matched (parse get) \<Longrightarrow> parse get = no_result"
    and parser_name: "Matched (parse get) \<Longrightarrow> ParserName (parse get) = parserName"
    and raw_nonempty: "Matched (parse get) \<Longrightarrow> RawRouteName (parse get) \<noteq> ''''"
    and identity: "Namespace (parse get) = '''' \<longleftrightarrow> Name (parse get) = ''''"
    and raw_read: "Matched (parse get) \<Longrightarrow> \<exists>k \<in> reads. get k = Some (RawRouteName (parse get))"
    and local: "(\<And>k. k \<in> reads \<Longrightarrow> get k = get' k) \<Longrightarrow> parse get = parse get'"
begin

lemma no_attributes: "(\<And>k. k \<in> reads \<Longrightarrow> get k = None) \<Longrightarrow> parse get = no_result"
proof -
  assume none: "\<And>k. k \<in> reads \<Longrightarrow> get k = None"
  have "\<not> Matched (parse get)"
    using raw_read none by fastforce
  then show ?thesis by (rule unmatched)
qed

lemma identity_matched: "Name (parse get) \<noteq> '''' \<Longrightarrow> Matched (parse get)"
  using unmatched by fastforce

end

text \<open>The keys a parser reads.\<close>

fun parser_reads :: "parser \<Rightarrow> string set" where
  "parser_reads (Envoy p) = {ep_sourceAttribute p}"
| "parser_reads (Linkerd p) =
     {lk_RouteName (lp_labels p), lk_RouteNamespace (lp_labels p), lk_RouteKind (lp_labels p)}"
| "parser_reads (Passthrough p) = {pp_sourceAttribute p}"

interpretation envoy: route_parser "envoy_Parse p" "ep_name p" "{ep_sourceAttribute p}" for p
  by unfold_locales
    (auto simp: envoy_Parse_def Let_def split: option.splits if_splits)

interpretation linkerd: route_parser "linkerd_Parse p" "lp_name p" "parser_reads (Linkerd p)" for p
  by unfold_locales
    (auto simp: linkerd_Parse_def get_or_empty_def Let_def split: option.splits if_splits)

interpretation passthrough: route_parser "passthrough_Parse p" "pp_name p" "{pp_sourceAttribute p}"
  for p
  by unfold_locales (auto simp: passthrough_Parse_def split: option.splits if_splits)

interpretation any_parser: route_parser "parser_Parse pr" "parser_Name pr" "parser_reads pr" for pr
proof (cases pr)
  case (Envoy p)
  then show "route_parser (parser_Parse pr) (parser_Name pr) (parser_reads pr)"
    using envoy.route_parser_axioms [of p] by simp
next
  case (Linkerd p)
  then show "route_parser (parser_Parse pr) (parser_Name pr) (parser_reads pr)"
    using linkerd.route_parser_axioms [of p] by simp
next
  case (Passthrough p)
  then show "route_parser (parser_Parse pr) (parser_Name pr) (parser_reads pr)"
    using passthrough.route_parser_axioms [of p] by simp
qed

end
