(* ===== verification/Config.thy ===== *)
theory Config
  imports Attrs Parsers
begin

text \<open>
  The configuration (\<open>config.go\<close>) with its accessors and \<open>Validate\<close>, and the default
  configuration (\<open>createDefaultConfig\<close> in \<open>factory.go\<close>). A \<open>*bool\<close> is a \<open>bool option\<close>,
  a \<open>time.Duration\<close> an integer number of nanoseconds. Errors are values of
  \<open>config_error\<close>, one constructor per error the code builds. \<open>regexp.Compile\<close> is the
  argument \<open>rc\<close> of the operations that call it.
\<close>

section \<open>Configuration records\<close>

definition AuthTypeServiceAccount :: string where "AuthTypeServiceAccount = ''serviceAccount''"
definition AuthTypeKubeConfig :: string where "AuthTypeKubeConfig = ''kubeConfig''"
definition AuthTypeNone :: string where "AuthTypeNone = ''none''"

lemmas auth_defs = AuthTypeServiceAccount_def AuthTypeKubeConfig_def AuthTypeNone_def

record PolicyGVR =
  gvr_Group :: string
  gvr_Version :: string
  gvr_Resource :: string

record WatchConfig =
  Namespaces :: "string list"
  ResyncPeriod :: int
  wc_Policies :: "PolicyGVR list"

record ParserConfig =
  pc_Name :: string
  pc_Controllers :: "string list"
  pc_SourceAttribute :: string
  pc_FormatRegex :: string
  pc_LinkerdLabels :: LinkerdLabelKeys
  pc_PassthroughAttribute :: string

record EnrichConfig =
  enrich_Traces :: bool
  enrich_Logs :: bool
  enrich_Metrics :: bool
  ExcludeFromMetricAttributes :: "string list"

record BackendRefFallback =
  bf_Enabled :: bool
  bf_SourceAttribute :: string
  bf_SourceAttributes :: "string list"
  bf_PodIP :: "bool option"

record MeshConfig =
  WaypointClassNames :: "string list"
  ClassifyRouteRole :: "bool option"
  InferServiceParent :: "bool option"

record Config =
  AuthType :: string
  KubeConfigPath :: string
  Watch :: WatchConfig
  cfg_Parsers :: "ParserConfig list"
  Enrich :: EnrichConfig
  EmitStatusConds :: bool
  cfg_Fallback :: BackendRefFallback
  Mesh :: MeshConfig
  InformerSyncTimeout :: int

section \<open>Accessors\<close>

definition enabled_by_default :: "bool option \<Rightarrow> bool" where
  "enabled_by_default b = (case b of None \<Rightarrow> True | Some v \<Rightarrow> v)"

definition ClassifyRouteRoleEnabled :: "MeshConfig \<Rightarrow> bool" where
  "ClassifyRouteRoleEnabled m = enabled_by_default (ClassifyRouteRole m)"

definition InferServiceParentEnabled :: "MeshConfig \<Rightarrow> bool" where
  "InferServiceParentEnabled m = enabled_by_default (InferServiceParent m)"

definition WaypointEnabled :: "MeshConfig \<Rightarrow> bool" where
  "WaypointEnabled m \<longleftrightarrow> 0 < length (WaypointClassNames m)"

definition PodIPEnabled :: "BackendRefFallback \<Rightarrow> bool" where
  "PodIPEnabled b = enabled_by_default (bf_PodIP b)"

definition waypointImplForClass :: "MeshConfig \<Rightarrow> string \<Rightarrow> string" where
  "waypointImplForClass m className =
     (if className = '''' then ''''
      else if \<not> list_ex (\<lambda>c. c = className) (WaypointClassNames m) then ''''
      else if contains className ''eastwest'' \<or> contains className ''east-west''
           then WaypointImplIstioEastWest
      else if contains className ''kgateway'' then WaypointImplKgateway
      else WaypointImplIstioAmbient)"

lemma waypointImplForClass_iff:
  "waypointImplForClass m c \<noteq> '''' \<longleftrightarrow> c \<noteq> '''' \<and> c \<in> set (WaypointClassNames m)"
  by (auto simp: waypointImplForClass_def list_ex_iff)

lemma waypointImplForClass_range:
  "waypointImplForClass m c \<in>
     {'''', WaypointImplIstioAmbient, WaypointImplKgateway, WaypointImplIstioEastWest}"
  by (simp add: waypointImplForClass_def)

text \<open>\<open>effectiveSourceAttrs\<close>: the closure \<open>add\<close> over the accumulator; the map \<open>seen\<close> has
  exactly the keys of \<open>out\<close>.\<close>

definition add_key :: "string list \<Rightarrow> string \<Rightarrow> string list" where
  "add_key out k = (if k = '''' then out else if k \<in> set out then out else out @ [k])"

definition effectiveSourceAttrs :: "BackendRefFallback \<Rightarrow> string list" where
  "effectiveSourceAttrs b =
     (if length (bf_SourceAttributes b) = 0 \<and> bf_SourceAttribute b = '''' then []
      else add_key (foldl add_key [] (bf_SourceAttributes b)) (bf_SourceAttribute b))"

lemma foldl_add_key_set: "set (foldl add_key out ks) = set out \<union> (set ks - {''''})"
  by (induction ks arbitrary: out) (auto simp: add_key_def)

lemma foldl_add_key_distinct: "distinct out \<Longrightarrow> distinct (foldl add_key out ks)"
  by (induction ks arbitrary: out) (auto simp: add_key_def)

lemma effectiveSourceAttrs_set:
  "set (effectiveSourceAttrs b) = (set (bf_SourceAttributes b) \<union> {bf_SourceAttribute b}) - {''''}"
  by (auto simp: effectiveSourceAttrs_def foldl_add_key_set add_key_def)

lemma effectiveSourceAttrs_distinct: "distinct (effectiveSourceAttrs b)"
  by (simp add: effectiveSourceAttrs_def add_key_def foldl_add_key_distinct)

section \<open>Validate\<close>

datatype config_error =
    InvalidAuthType string
  | KubeConfigPathRequired
  | NoParsers
  | PassthroughNotLast nat nat
  | BadControllerRegex string string
  | BadFormatRegex string
  | MissingGroups string
  | NegativeResync
  | NegativeSyncTimeout
  | BadPolicyGVR nat
  | EmptyWaypointClass nat

definition validate_controllers ::
  "(string \<Rightarrow> regexp option) \<Rightarrow> ParserConfig \<Rightarrow> config_error option"
where
  "validate_controllers rc p =
     map_option (\<lambda>pat. BadControllerRegex (pc_Name p) pat)
       (find (\<lambda>pat. rc pat = None) (pc_Controllers p))"

definition validate_format ::
  "(string \<Rightarrow> regexp option) \<Rightarrow> ParserConfig \<Rightarrow> config_error option"
where
  "validate_format rc p =
     (if pc_Name p = ''envoy'' \<and> pc_FormatRegex p \<noteq> '''' then
        (case rc (pc_FormatRegex p) of
           None \<Rightarrow> Some (BadFormatRegex (pc_Name p))
         | Some re \<Rightarrow>
             if list_ex (\<lambda>n. n = ''ns'') (SubexpNames re) \<and> list_ex (\<lambda>n. n = ''name'') (SubexpNames re)
             then None else Some (MissingGroups (pc_Name p)))
      else None)"

definition orElse :: "'a option \<Rightarrow> 'a option \<Rightarrow> 'a option" where
  "orElse a b = (case a of Some x \<Rightarrow> Some x | None \<Rightarrow> b)"

lemma orElse_None [simp]: "orElse a b = None \<longleftrightarrow> a = None \<and> b = None"
  by (simp add: orElse_def split: option.splits)

text \<open>The loop over the parsers, at index \<open>i\<close> of \<open>n\<close>.\<close>

fun validate_parsers ::
  "(string \<Rightarrow> regexp option) \<Rightarrow> nat \<Rightarrow> nat \<Rightarrow> ParserConfig list \<Rightarrow> config_error option"
where
  "validate_parsers rc n i [] = None"
| "validate_parsers rc n i (p # ps) =
     (if pc_Name p = ''passthrough'' \<and> i \<noteq> n - 1 then Some (PassthroughNotLast i n)
      else orElse (validate_controllers rc p)
             (orElse (validate_format rc p) (validate_parsers rc n (Suc i) ps)))"

fun validate_policies :: "nat \<Rightarrow> PolicyGVR list \<Rightarrow> config_error option" where
  "validate_policies i [] = None"
| "validate_policies i (p # ps) =
     (if gvr_Version p = '''' \<or> gvr_Resource p = '''' then Some (BadPolicyGVR i)
      else validate_policies (Suc i) ps)"

fun validate_waypoints :: "nat \<Rightarrow> string list \<Rightarrow> config_error option" where
  "validate_waypoints i [] = None"
| "validate_waypoints i (c # cs) =
     (if is_blank c then Some (EmptyWaypointClass i) else validate_waypoints (Suc i) cs)"

definition Validate :: "(string \<Rightarrow> regexp option) \<Rightarrow> Config \<Rightarrow> config_error option" where
  "Validate rc c =
     (if AuthType c \<notin> {'''', AuthTypeServiceAccount, AuthTypeKubeConfig, AuthTypeNone}
        then Some (InvalidAuthType (AuthType c))
      else if AuthType c = AuthTypeKubeConfig \<and> KubeConfigPath c = '''' then Some KubeConfigPathRequired
      else if length (cfg_Parsers c) = 0 then Some NoParsers
      else orElse (validate_parsers rc (length (cfg_Parsers c)) 0 (cfg_Parsers c))
        (if ResyncPeriod (Watch c) < 0 then Some NegativeResync
         else if InformerSyncTimeout c < 0 then Some NegativeSyncTimeout
         else orElse (validate_policies 0 (wc_Policies (Watch c)))
                (validate_waypoints 0 (WaypointClassNames (Mesh c)))))"

text \<open>What acceptance by each loop means.\<close>

lemma validate_controllers_None:
  "validate_controllers rc p = None \<longleftrightarrow> (\<forall>pat \<in> set (pc_Controllers p). rc pat \<noteq> None)"
  by (auto simp: validate_controllers_def find_None_iff)

definition envoy_format_ok :: "(string \<Rightarrow> regexp option) \<Rightarrow> ParserConfig \<Rightarrow> bool" where
  "envoy_format_ok rc p \<longleftrightarrow>
     (pc_Name p = ''envoy'' \<and> pc_FormatRegex p \<noteq> '''' \<longrightarrow>
       (\<exists>re. rc (pc_FormatRegex p) = Some re \<and>
          ''ns'' \<in> set (SubexpNames re) \<and> ''name'' \<in> set (SubexpNames re)))"

lemma validate_format_None: "validate_format rc p = None \<longleftrightarrow> envoy_format_ok rc p"
  by (auto simp: validate_format_def envoy_format_ok_def list_ex_iff split: option.splits)

lemma validate_parsers_None:
  "validate_parsers rc n i ps = None \<longleftrightarrow>
     (\<forall>j < length ps. (pc_Name (ps ! j) = ''passthrough'' \<longrightarrow> i + j = n - 1) \<and>
        (\<forall>pat \<in> set (pc_Controllers (ps ! j)). rc pat \<noteq> None) \<and> envoy_format_ok rc (ps ! j))"
proof (induction ps arbitrary: i)
  case Nil
  then show ?case by simp
next
  case (Cons p ps)
  show ?case
    by (simp add: Cons All_less_Suc2 validate_controllers_None validate_format_None)
qed

lemma validate_policies_None:
  "validate_policies i ps = None \<longleftrightarrow> (\<forall>p \<in> set ps. gvr_Version p \<noteq> '''' \<and> gvr_Resource p \<noteq> '''')"
  by (induction ps arbitrary: i) auto

lemma validate_waypoints_None:
  "validate_waypoints i cs = None \<longleftrightarrow> (\<forall>c \<in> set cs. \<not> is_blank c)"
  by (induction cs arbitrary: i) auto

text \<open>Claim C40. What \<open>Validate\<close> accepts: a known authentication mode, with a path where it
  needs one; at least one parser, passthrough only in the last place, every controller pattern and
  every Envoy format compilable, the latter with the groups \<open>ns\<close> and \<open>name\<close>; no negative period;
  policies with version and resource; and no blank waypoint class.\<close>

theorem validate_accepts_iff:
  "Validate rc c = None \<longleftrightarrow>
     AuthType c \<in> {'''', ''serviceAccount'', ''kubeConfig'', ''none''}
   \<and> (AuthType c = ''kubeConfig'' \<longrightarrow> KubeConfigPath c \<noteq> '''')
   \<and> cfg_Parsers c \<noteq> []
   \<and> (\<forall>j < length (cfg_Parsers c).
        (pc_Name (cfg_Parsers c ! j) = ''passthrough'' \<longrightarrow> Suc j = length (cfg_Parsers c))
        \<and> (\<forall>pat \<in> set (pc_Controllers (cfg_Parsers c ! j)). rc pat \<noteq> None)
        \<and> envoy_format_ok rc (cfg_Parsers c ! j))
   \<and> 0 \<le> ResyncPeriod (Watch c) \<and> 0 \<le> InformerSyncTimeout c
   \<and> (\<forall>gvr \<in> set (wc_Policies (Watch c)). gvr_Version gvr \<noteq> '''' \<and> gvr_Resource gvr \<noteq> '''')
   \<and> (\<forall>cls \<in> set (WaypointClassNames (Mesh c)). \<not> is_blank cls)"
proof -
  have idx: "(j = length (cfg_Parsers c) - 1) = (Suc j = length (cfg_Parsers c))" if "j < length (cfg_Parsers c)" for j
    using that by auto
  show ?thesis
    by (auto simp: Validate_def auth_defs validate_parsers_None validate_policies_None validate_waypoints_None idx)
qed

lemma foldl_add_key_remdups:
  "foldl add_key [] ks = rev (remdups (rev (filter (\<lambda>k. k \<noteq> '''') ks)))"
proof (induction ks rule: rev_induct)
  case Nil
  then show ?case by simp
next
  case (snoc k ks)
  then show ?case by (simp add: add_key_def)
qed

text \<open>The source attributes of the fallback: the configured list in its order and then
  the legacy single attribute, without the empty names and with only the first occurrence of each
  name.\<close>

lemma effective_source_attrs_exact:
  "effectiveSourceAttrs b =
     rev (remdups (rev (filter (\<lambda>k. k \<noteq> '''') (bf_SourceAttributes b @ [bf_SourceAttribute b]))))"
proof -
  have "effectiveSourceAttrs b = foldl add_key [] (bf_SourceAttributes b @ [bf_SourceAttribute b])"
    by (simp add: effectiveSourceAttrs_def add_key_def)
  then show ?thesis by (simp only: foldl_add_key_remdups)
qed

section \<open>The default configuration\<close>

text \<open>A backslash; the Go raw strings contain it literally.\<close>

definition bs :: string where "bs = [CHR 0x5C]"

definition defaultFormatRegex :: string where
  "defaultFormatRegex =
     ''^httproute/(?P<ns>[^/]+)/(?P<name>[^/]+)(?:/rule/(?P<rule>'' @ bs @ ''d+))?(?:/match/(?P<match>''
       @ bs @ ''d+))?''"

definition no_labels :: LinkerdLabelKeys where
  "no_labels = \<lparr>lk_RouteName = '''', lk_RouteKind = '''', lk_RouteNamespace = '''', lk_ParentName = ''''\<rparr>"

definition createDefaultConfig :: Config where
  "createDefaultConfig =
     \<lparr>AuthType = AuthTypeServiceAccount, KubeConfigPath = '''',
      Watch = \<lparr>Namespaces = [], ResyncPeriod = 5 * 60 * 10 ^ 9, wc_Policies = []\<rparr>,
      cfg_Parsers =
        [\<lparr>pc_Name = ''envoy'',
          pc_Controllers =
            [''^gateway'' @ bs @ ''.envoyproxy'' @ bs @ ''.io/gatewayclass-controller$'',
             ''^kgateway'' @ bs @ ''.dev/gatewayclass-controller$'',
             ''^istio'' @ bs @ ''.io/gateway-controller$''],
          pc_SourceAttribute = ''route_name'', pc_FormatRegex = defaultFormatRegex,
          pc_LinkerdLabels = no_labels, pc_PassthroughAttribute = ''''\<rparr>,
         \<lparr>pc_Name = ''linkerd'',
          pc_Controllers = [''^linkerd'' @ bs @ ''.io/gateway-controller$''],
          pc_SourceAttribute = '''', pc_FormatRegex = '''',
          pc_LinkerdLabels =
            \<lparr>lk_RouteName = ''route_name'', lk_RouteKind = ''route_kind'',
             lk_RouteNamespace = ''route_namespace'', lk_ParentName = ''parent_name''\<rparr>,
          pc_PassthroughAttribute = ''''\<rparr>,
         \<lparr>pc_Name = ''passthrough'', pc_Controllers = [],
          pc_SourceAttribute = ''route_name'', pc_FormatRegex = '''',
          pc_LinkerdLabels = no_labels,
          pc_PassthroughAttribute = ''k8s.gatewayapi.raw_route_name''\<rparr>],
      Enrich =
        \<lparr>enrich_Traces = True, enrich_Logs = True, enrich_Metrics = True,
         ExcludeFromMetricAttributes =
           [''k8s.httproute.uid'', ''k8s.grpcroute.uid'', ''k8s.gateway.uid'',
            ''k8s.gatewayapi.raw_route_name'',
            AttrParentServicePort, AttrHTTPRouteRuleName, AttrGRPCRouteRuleName]\<rparr>,
      EmitStatusConds = True,
      cfg_Fallback =
        \<lparr>bf_Enabled = True, bf_SourceAttribute = '''',
         bf_SourceAttributes =
           [''server.address'', ''net.peer.name'', ''http.host'', ''url.full'', ''http.url''],
         bf_PodIP = None\<rparr>,
      Mesh =
        \<lparr>WaypointClassNames = [''istio-waypoint'', ''kgateway-waypoint'', ''istio-eastwest''],
         ClassifyRouteRole = None, InferServiceParent = None\<rparr>,
      InformerSyncTimeout = 30 * 10 ^ 9\<rparr>"

text \<open>The syntax tree of the default format expression.\<close>

definition slash_free :: regex where
  "slash_free = Plus True (Cls True ''/'')"

definition digits1 :: regex where
  "digits1 = Plus True (Cls False ''0123456789'')"

definition default_re :: regexp where
  "default_re =
     \<lparr>re_ast =
        Seq BeginText (lits ''httproute/'' (Seq (Cap 1 (Seq slash_free Eps)) (Seq (Lit (CHR ''/''))
          (Seq (Cap 2 (Seq slash_free Eps))
            (Seq (Opt True (lits ''/rule/'' (Seq (Cap 3 (Seq digits1 Eps)) Eps)))
              (Seq (Opt True (lits ''/match/'' (Seq (Cap 4 (Seq digits1 Eps)) Eps))) Eps)))))),
      re_names = ['''', ''ns'', ''name'', ''rule'', ''match'']\<rparr>"

lemma defaultFormatRegex_parses: "re_parse defaultFormatRegex = Some default_re"
  by code_simp

text \<open>What the default pipeline relies on when it hands its one format to \<open>regexp.Compile\<close>: the compiler
  builds the modelled expression. The format is within the syntax of theory GoRegexp, and its
  behaviour is the documented one.\<close>

definition re_conforms :: "(string \<Rightarrow> regexp option) \<Rightarrow> bool" where
  "re_conforms rc \<longleftrightarrow> rc defaultFormatRegex = re_parse defaultFormatRegex"

lemma re_conforms_parse [simp]: "re_conforms re_parse"
  by (simp add: re_conforms_def)

lemma default_config_valid: "Validate re_parse createDefaultConfig = None"
proof -
  have "re_parse (''^gateway'' @ bs @ ''.envoyproxy'' @ bs @ ''.io/gatewayclass-controller$'') \<noteq> None"
    "re_parse (''^kgateway'' @ bs @ ''.dev/gatewayclass-controller$'') \<noteq> None"
    "re_parse (''^istio'' @ bs @ ''.io/gateway-controller$'') \<noteq> None"
    "re_parse (''^linkerd'' @ bs @ ''.io/gateway-controller$'') \<noteq> None"
    by code_simp+
  moreover have "\<not> is_blank ''istio-waypoint'' \<and> \<not> is_blank ''kgateway-waypoint'' \<and> \<not> is_blank ''istio-eastwest''"
    by code_simp
  ultimately show ?thesis
    by (simp add: Validate_def createDefaultConfig_def auth_defs validate_controllers_None
        validate_format_None envoy_format_ok_def defaultFormatRegex_parses default_re_def SubexpNames_def)
qed

lemma validate_accepts_iff_witness:
  "Validate re_parse createDefaultConfig = None \<and> AuthType createDefaultConfig \<in> {'''', ''serviceAccount'', ''kubeConfig'', ''none''}"
  using validate_accepts_iff [of re_parse createDefaultConfig] default_config_valid by blast

text \<open>Route names in the format of the Envoy family, as Envoy Gateway, kgateway and Istio emit
  them; the rule and match suffixes are optional.\<close>

definition suffix :: "string \<Rightarrow> nat option \<Rightarrow> string" where
  "suffix key n = (case n of None \<Rightarrow> '''' | Some k \<Rightarrow> key @ itoa k)"

definition envoy_route :: "string \<Rightarrow> string \<Rightarrow> nat option \<Rightarrow> nat option \<Rightarrow> string" where
  "envoy_route ns name rule_ix match_ix =
     ''httproute/'' @ ns @ ''/'' @ name @ suffix ''/rule/'' rule_ix @ suffix ''/match/'' match_ix"

definition opt_digits :: "nat option \<Rightarrow> string" where
  "opt_digits n = (case n of None \<Rightarrow> '''' | Some k \<Rightarrow> itoa k)"

lemma digit_class: "is_digit c \<longleftrightarrow> c \<in> set ''0123456789''"
proof
  assume "is_digit c"
  then have "(of_char c :: nat) \<in> {48, 49, 50, 51, 52, 53, 54, 55, 56, 57}"
    unfolding is_digit_def by (simp only: insert_iff empty_iff) presburger
  also have "{48, 49, 50, 51, 52, 53, 54, 55, 56, 57} = (of_char ` set ''0123456789'' :: nat set)"
    by simp
  finally obtain d where "(of_char c :: nat) = of_char d" "d \<in> set ''0123456789''" by blast
  then show "c \<in> set ''0123456789''" by (simp only: of_char_eq_iff)
qed (auto simp: is_digit_def)

lemma segment_first:
  assumes "w \<noteq> []" "CHR ''/'' \<notin> set w" "s = [] \<or> hd s = CHR ''/''"
  shows "\<exists>rest. mtch (Cap n (Seq slash_free Eps)) (p, w @ s, c) = (p + length w, s, c[n := w]) # rest"
proof -
  from assms obtain rest where
    "mtch slash_free (p, w @ s, c) = (p + length w, s, c) # rest"
    using plus_cls_first [of w "''/''" True s p c]
    by (fastforce simp: slash_free_def list_all_iff)
  then show ?thesis by simp
qed

lemma digits_first:
  assumes "s = [] \<or> hd s = CHR ''/''"
  shows "\<exists>rest. mtch (Cap n (Seq digits1 Eps)) (p, itoa k @ s, c)
      = (p + length (itoa k), s, c[n := itoa k]) # rest"
proof -
  from assms itoa_digits [of k] obtain rest where
    "mtch digits1 (p, itoa k @ s, c) = (p + length (itoa k), s, c) # rest"
    using plus_cls_first [of "itoa k" "''0123456789''" False s p c]
    by (fastforce simp: digits1_def list_all_iff digit_class)
  then show ?thesis by simp
qed

lemma suffix_first:
  assumes "s = [] \<or> hd s = CHR ''/''" "\<not> hasPrefix s key"
  shows "\<exists>rest. mtch (Opt True (lits key (Seq (Cap n (Seq digits1 Eps)) Eps))) (p, suffix key k @ s, c)
      = (p + length (suffix key k), s, case k of None \<Rightarrow> c | Some j \<Rightarrow> c[n := itoa j]) # rest"
proof (cases k)
  case None
  with assms(2) show ?thesis
    by (simp add: suffix_def mtch_Opt_none mtch_lits_fail)
next
  case (Some j)
  obtain rest where "mtch (Cap n (Seq digits1 Eps)) (p + length key, itoa j @ s, c)
      = (p + length key + length (itoa j), s, c[n := itoa j]) # rest"
    using digits_first [OF assms(1)] by blast
  with Some show ?thesis
    by (simp add: suffix_def Opt_def mtch_lits del: mtch.simps(6))
qed

lemma mtch_anchored_lits:
  "ast = Seq BeginText (lits t r) \<Longrightarrow> mtch ast (0, t @ s, c) = mtch r (length t, s, c)"
  by (simp add: mtch_lits)

lemma default_re_mtch:
  assumes "ns \<noteq> []" "CHR ''/'' \<notin> set ns" "name \<noteq> []" "CHR ''/'' \<notin> set name"
  shows "\<exists>rest p. mtch (re_ast default_re) (0, envoy_route ns name r m, replicate 5 '''')
     = (p, '''', ['''', ns, name, opt_digits r, opt_digits m]) # rest"
proof -
  let ?s3 = "suffix ''/match/'' m" and ?c0 = "replicate 5 ([]::string)"
  let ?s2 = "suffix ''/rule/'' r @ ?s3"
  let ?c1 = "?c0[1 := ns]" and ?c2 = "?c0[1 := ns, 2 := name]"
  let ?c3 = "case r of None \<Rightarrow> ?c2 | Some j \<Rightarrow> ?c2[3 := itoa j]"
  have s3: "?s3 = [] \<or> hd ?s3 = CHR ''/''" "\<not> hasPrefix ?s3 ''/rule/''"
    by (auto simp: suffix_def hasPrefix_def split: option.splits)
  have s2: "?s2 = [] \<or> hd ?s2 = CHR ''/''"
    by (auto simp: suffix_def split: option.splits)
  let ?p2 = "Suc (10 + length ns) + length name"
  let ?p3 = "?p2 + length (suffix ''/rule/'' r)"
  obtain r1 where 1: "mtch (Cap 1 (Seq slash_free Eps)) (10, ns @ ''/'' @ name @ ?s2, ?c0)
      = (10 + length ns, ''/'' @ name @ ?s2, ?c1) # r1"
    using segment_first [OF assms(1,2), of "''/'' @ name @ ?s2" 1 10 ?c0]
    by (auto simp del: mtch.simps)
  obtain r2 where 2: "mtch (Cap 2 (Seq slash_free Eps)) (Suc (10 + length ns), name @ ?s2, ?c1)
      = (?p2, ?s2, ?c2) # r2"
    using segment_first [OF assms(3,4) s2] by blast
  obtain r3 where 3: "mtch (Opt True (lits ''/rule/'' (Seq (Cap 3 (Seq digits1 Eps)) Eps)))
      (?p2, ?s2, ?c2) = (?p3, ?s3, ?c3) # r3"
    using suffix_first [OF s3] by blast
  obtain r4 where 4: "mtch (Opt True (lits ''/match/'' (Seq (Cap 4 (Seq digits1 Eps)) Eps)))
      (?p3, ?s3, ?c3)
      = (?p3 + length ?s3, [], case m of None \<Rightarrow> ?c3 | Some j \<Rightarrow> ?c3[4 := itoa j]) # r4"
    using suffix_first [of "[]" "''/match/''" 4 ?p3 m ?c3] 
    by (auto simp: hasPrefix_def simp del: mtch.simps)
  have caps: "(case m of None \<Rightarrow> ?c3 | Some j \<Rightarrow> ?c3[4 := itoa j])
      = ['''', ns, name, opt_digits r, opt_digits m]"
    by (simp add: opt_digits_def eval_nat_numeral split: option.splits)
  let ?tl = "Seq (Opt True (lits ''/rule/'' (Seq (Cap 3 (Seq digits1 Eps)) Eps)))
    (Seq (Opt True (lits ''/match/'' (Seq (Cap 4 (Seq digits1 Eps)) Eps))) Eps)"
  let ?R = "Seq (Cap 1 (Seq slash_free Eps)) (Seq (Lit (CHR ''/'')) (Seq (Cap 2 (Seq slash_free Eps)) ?tl))"
  have tl: "\<exists>rest. mtch ?tl (?p2, ?s2, ?c2) = (?p3 + length ?s3, [], ['''', ns, name, opt_digits r, opt_digits m]) # rest"
    unfolding mtch.simps(3) 3 list.map concat.simps 4 caps by simp
  then obtain r5 where 5: "mtch (Seq (Cap 2 (Seq slash_free Eps)) ?tl) (Suc (10 + length ns), name @ ?s2, ?c1)
      = (?p3 + length ?s3, [], ['''', ns, name, opt_digits r, opt_digits m]) # r5"
    using mtch_Seq_first [OF 2] by blast
  have lit: "mtch (Lit (CHR ''/'')) (10 + length ns, ''/'' @ name @ ?s2, ?c1)
      = [(Suc (10 + length ns), name @ ?s2, ?c1)]"
    by (simp add: mtch_Lit)
  obtain rest where "mtch ?R (10, ns @ ''/'' @ name @ ?s2, ?c0)
      = (?p3 + length ?s3, [], ['''', ns, name, opt_digits r, opt_digits m]) # rest"
    using mtch_Seq_first [OF lit 5] mtch_Seq_first [OF 1] by blast
  moreover have "mtch (re_ast default_re) (0, ''httproute/'' @ X, ?c0) = mtch ?R (10, X, ?c0)" for X
  proof -
    have "re_ast default_re = Seq BeginText (lits ''httproute/'' ?R)"
      unfolding default_re_def regexp.simps ..
    then have "mtch (re_ast default_re) (0, ''httproute/'' @ X, ?c0)
        = mtch ?R (length ''httproute/'', X, ?c0)"
      by (rule mtch_anchored_lits)
    also have "length ''httproute/'' = 10" by simp
    finally show ?thesis .
  qed
  ultimately show ?thesis
    unfolding envoy_route_def by auto
qed

lemma default_re_submatch:
  assumes "ns \<noteq> []" "CHR ''/'' \<notin> set ns" "name \<noteq> []" "CHR ''/'' \<notin> set name"
  shows "\<exists>whole. FindStringSubmatch default_re (envoy_route ns name r m)
     = Some [whole, ns, name, opt_digits r, opt_digits m]"
proof -
  have "length (re_names default_re) = 5" by (simp add: default_re_def)
  moreover obtain rest p where "mtch (re_ast default_re) (0, envoy_route ns name r m, replicate 5 '''')
      = (p, '''', ['''', ns, name, opt_digits r, opt_digits m]) # rest"
    using default_re_mtch [OF assms] by blast
  ultimately show ?thesis
    by (simp add: FindStringSubmatch_def find_from.simps [of default_re 0])
qed

text \<open>Anything that does not start with \<open>httproute/\<close> is not matched.\<close>

lemma default_re_prefix:
  assumes "\<not> hasPrefix s ''httproute/''"
  shows "FindStringSubmatch default_re s = None"
proof -
  have "mtch (re_ast default_re) (0, s, replicate (length (re_names default_re)) '''') = []"
    using assms by (simp add: default_re_def mtch_lits_fail del: lits.simps)
  moreover have "find_from default_re (Suc 0) t = None" for t
    by (rule find_from_anchored) (simp_all add: default_re_def)
  ultimately show ?thesis
    by (simp add: FindStringSubmatch_def find_from.simps [of default_re 0] split: list.splits)
qed

end
