(* ===== verification/NetIP.thy ===== *)
theory NetIP
  imports Prelude
begin

text \<open>
  IP literals: \<open>net.ParseIP\<close> and \<open>IP.String\<close> of Go's standard library, and \<open>canonicalIP\<close>
  (\<open>service_informer.go\<close>), which normalises the keys of the two IP indexes. An address is the
  16 bytes of a \<open>net.IP\<close>; an IPv4 address is stored IPv4-in-IPv6. \<open>net.ParseIP\<close> rejects
  addresses with a zone.
\<close>

section \<open>Parsing\<close>

text \<open>The loop of \<open>parseIPv4Fields\<close>: current value, its number of digits, the fields so far.\<close>

fun v4_fields :: "nat \<Rightarrow> nat \<Rightarrow> nat list \<Rightarrow> string \<Rightarrow> nat list option" where
  "v4_fields val dig fs [] = (if length fs < 3 then None else Some (fs @ [val]))"
| "v4_fields val dig fs (c # s) =
     (if is_digit c then
        (if dig = 1 \<and> val = 0 then None
         else let v = 10 * val + digit_val c in
           if 255 < v then None else v4_fields v (Suc dig) fs s)
      else if c = CHR ''.'' then
        (if dig = 0 \<or> s = [] then None
         else if length fs = 3 then None
         else v4_fields 0 0 (fs @ [val]) s)
      else None)"

definition v4_mapped :: "nat list \<Rightarrow> nat list" where
  "v4_mapped fs = replicate 10 0 @ [255, 255] @ fs"

definition parseIPv4 :: "string \<Rightarrow> nat list option" where
  "parseIPv4 s = map_option v4_mapped (v4_fields 0 0 [] s)"

definition hex_val :: "char \<Rightarrow> nat option" where
  "hex_val c =
     (let n = (of_char c :: nat) in
      if 48 \<le> n \<and> n \<le> 57 then Some (n - 48)
      else if 97 \<le> n \<and> n \<le> 102 then Some (n - 87)
      else if 65 \<le> n \<and> n \<le> 70 then Some (n - 55)
      else None)"

definition is_hex :: "char \<Rightarrow> bool" where
  "is_hex c \<longleftrightarrow> hex_val c \<noteq> None"

definition hex_num :: "string \<Rightarrow> nat" where
  "hex_num s = foldl (\<lambda>n c. 16 * n + the (hex_val c)) 0 s"

text \<open>The loop of \<open>parseIPv6\<close>: the bytes so far, the position of the ellipsis, the rest of the
  input. It returns what is left of the input when it stops.\<close>

function v6_loop :: "nat list \<Rightarrow> nat option \<Rightarrow> string \<Rightarrow> (nat list \<times> nat option \<times> string) option"
where
  "v6_loop bs ell s =
     (if 16 \<le> length bs then Some (bs, ell, s)
      else let hs = takeWhile is_hex s in
        if hs = [] \<or> 4 < length hs then None
        else case dropWhile is_hex s of
          [] \<Rightarrow> Some (bs @ [hex_num hs div 256, hex_num hs mod 256], ell, [])
        | c # t \<Rightarrow>
            if c = CHR ''.'' then
              (if ell = None \<and> length bs \<noteq> 12 then None
               else if 16 < length bs + 4 then None
               else case v4_fields 0 0 [] s of
                 None \<Rightarrow> None
               | Some fs \<Rightarrow> Some (bs @ fs, ell, []))
            else if c \<noteq> CHR '':'' then None
            else if t = [] then None
            else let bs' = bs @ [hex_num hs div 256, hex_num hs mod 256] in
              if hd t = CHR '':'' then
                (if ell \<noteq> None then None
                 else if tl t = [] then Some (bs', Some (length bs'), [])
                 else v6_loop bs' (Some (length bs')) (tl t))
              else v6_loop bs' ell t)"
  by pat_completeness auto
termination
proof (relation "measure (\<lambda>(bs, ell, s). length s)", goal_cases)
  case 1
  then show ?case by simp
next
  case (2 bs ell s hs c t bs')
  then have "length (dropWhile is_hex s) = Suc (length t)" by simp
  moreover have "length (dropWhile is_hex s) \<le> length s" by (rule length_dropWhile_le)
  ultimately show ?case by simp
next
  case (3 bs ell s hs c t bs')
  then have "length (dropWhile is_hex s) = Suc (length t)" by simp
  moreover have "length (dropWhile is_hex s) \<le> length s" by (rule length_dropWhile_le)
  ultimately show ?case by simp
qed

declare v6_loop.simps [simp del]

definition v6_finish :: "nat list \<times> nat option \<times> string \<Rightarrow> nat list option" where
  "v6_finish r =
     (case r of (bs, ell, s) \<Rightarrow>
        if s \<noteq> [] then None
        else if length bs < 16 then
          (case ell of
             None \<Rightarrow> None
           | Some e \<Rightarrow> Some (take e bs @ replicate (16 - length bs) 0 @ drop e bs))
        else if ell \<noteq> None then None
        else Some bs)"

definition parseIPv6 :: "string \<Rightarrow> nat list option" where
  "parseIPv6 s =
     (if CHR ''%'' \<in> set s then None
      else if hasPrefix s ''::'' then
        (if drop 2 s = [] then Some (replicate 16 0)
         else Option.bind (v6_loop [] (Some 0) (drop 2 s)) v6_finish)
      else Option.bind (v6_loop [] None s) v6_finish)"

text \<open>\<open>netip.ParseAddr\<close> looks for the first of \<open>.\<close>, \<open>:\<close> and \<open>%\<close>.\<close>

definition ParseIP :: "string \<Rightarrow> nat list option" where
  "ParseIP s =
     (case dropWhile (\<lambda>c. c \<notin> {CHR ''.'', CHR '':'', CHR ''%''}) s of
        [] \<Rightarrow> None
      | c # _ \<Rightarrow> if c = CHR ''.'' then parseIPv4 s
                 else if c = CHR '':'' then parseIPv6 s else None)"

section \<open>Printing\<close>

definition hex_digit :: "nat \<Rightarrow> char" where
  "hex_digit n = (if n < 10 then char_of (48 + n) else char_of (87 + n))"

fun hex_string :: "nat \<Rightarrow> string" where
  "hex_string n = (if n < 16 then [hex_digit n] else hex_string (n div 16) @ [hex_digit (n mod 16)])"

declare hex_string.simps [simp del]

definition dotted :: "nat list \<Rightarrow> string" where
  "dotted fs = concat (map (\<lambda>(i, f). (if i = 0 then '''' else ''.'') @ itoa f) (enumerate 0 fs))"

fun groups :: "nat list \<Rightarrow> nat list" where
  "groups (a # b # bs) = (256 * a + b) # groups bs"
| "groups _ = []"

definition zero_run :: "nat list \<Rightarrow> nat \<Rightarrow> nat" where
  "zero_run gs i = length (takeWhile (\<lambda>g. g = 0) (drop i gs))"

text \<open>The first longest run of at least two zero groups, as start and end; (255, 255) if none.\<close>

definition best_run :: "nat list \<Rightarrow> nat \<times> nat" where
  "best_run gs =
     foldl (\<lambda>(zs, ze) i. let l = zero_run gs i in
              if 2 \<le> l \<and> ze - zs < l then (i, i + l) else (zs, ze))
       (255, 255) [0..<8]"

text \<open>The printing loop of \<open>appendTo6\<close>; \<open>n\<close> bounds the number of groups left.\<close>

fun print6 :: "nat \<Rightarrow> nat list \<Rightarrow> nat \<times> nat \<Rightarrow> nat \<Rightarrow> string" where
  "print6 0 gs r i = ''''"
| "print6 (Suc n) gs r i =
     (if 8 \<le> i then ''''
      else if i = fst r then
        ''::'' @ (if 8 \<le> snd r then '''' else hex_string (gs ! snd r) @ print6 n gs r (Suc (snd r)))
      else (if 0 < i then '':'' else '''') @ hex_string (gs ! i) @ print6 n gs r (Suc i))"

definition is_v4_mapped :: "nat list \<Rightarrow> bool" where
  "is_v4_mapped ip \<longleftrightarrow> take 12 ip = replicate 10 0 @ [255, 255]"

definition IP_String :: "nat list \<Rightarrow> string" where
  "IP_String ip =
     (if is_v4_mapped ip then dotted (drop 12 ip)
      else print6 8 (groups ip) (best_run (groups ip)) 0)"

definition canonicalIP :: "string \<Rightarrow> string" where
  "canonicalIP raw = (case ParseIP raw of None \<Rightarrow> '''' | Some ip \<Rightarrow> IP_String ip)"

section \<open>Facts\<close>

lemma v4_fields_length: "v4_fields val dig fs s = Some r \<Longrightarrow> length fs \<le> 3 \<Longrightarrow> length r = 4"
proof (induction val dig fs s arbitrary: r rule: v4_fields.induct)
  case (1 val dig fs)
  then show ?case by (auto split: if_splits)
next
  case (2 val dig fs c s)
  then show ?case by (auto simp: Let_def split: if_splits)
qed

lemma v4_fields_bytes:
  "v4_fields val dig fs s = Some r \<Longrightarrow> val \<le> 255 \<Longrightarrow> list_all (\<lambda>b. b \<le> 255) fs \<Longrightarrow>
   list_all (\<lambda>b. b \<le> 255) r"
proof (induction val dig fs s arbitrary: r rule: v4_fields.induct)
  case (1 val dig fs)
  then show ?case by (auto split: if_splits)
next
  case (2 val dig fs c s)
  then show ?case by (auto simp: Let_def split: if_splits)
qed

lemma digit_val_le: "is_digit c \<Longrightarrow> digit_val c \<le> 9"
  unfolding is_digit_def digit_val_def by linarith

text \<open>Reading the decimal notation of one field.\<close>

lemma v4_fields_digits:
  assumes "list_all is_digit ds" "ds \<noteq> []" "digits_val ds \<le> 255"
    and "length ds = 1 \<or> hd ds \<noteq> CHR ''0''"
  shows "v4_fields 0 0 fs (ds @ s) = v4_fields (digits_val ds) (length ds) fs s"
proof -
  have prefix: "v4_fields 0 0 fs (ds @ s) = v4_fields (digits_val us) (length us) fs (vs @ s)"
    if "ds = us @ vs" for us vs
    using that
  proof (induction us arbitrary: vs rule: rev_induct)
    case Nil
    then show ?case by (simp add: digits_val_def)
  next
    case (snoc c us)
    let ?v = "digits_val (us @ [c])"
    have IH: "v4_fields 0 0 fs (ds @ s) = v4_fields (digits_val us) (length us) fs (c # vs @ s)"
      using snoc by simp
    have dig: "is_digit c" using snoc.prems assms(1) by simp
    have le: "?v \<le> 255"
    proof -
      have "digits_val us' \<le> digits_val (us' @ vs')" for us' vs'
      proof (induction vs' rule: rev_induct)
        case (snoc x xs)
        then show ?case using digits_val_snoc [of "us' @ xs" x] by simp
      qed simp
      from this [of "us @ [c]" vs] snoc.prems assms(3) show ?thesis by simp
    qed
    have zero: "\<not> (length us = 1 \<and> digits_val us = 0)"
    proof
      assume *: "length us = 1 \<and> digits_val us = 0"
      then obtain d where us: "us = [d]" by (cases us) auto
      with snoc.prems assms(1) have "is_digit d" by simp
      moreover from us * have "digit_val d = 0" by (simp add: digits_val_def)
      ultimately have "(of_char d :: nat) = of_char (CHR ''0'')"
        by (simp add: is_digit_def digit_val_def)
      then have "d = CHR ''0''" by (simp only: of_char_eq_iff)
      with us snoc.prems assms(4) show False by simp
    qed
    from zero have "(length us = 1 \<and> digits_val us = 0) = False" by simp
    with IH dig le show ?case
      by (simp only: v4_fields.simps digits_val_snoc Let_def if_True if_False not_less
          length_append list.size Suc_eq_plus1 add_0_right) simp
  qed
  from prefix [of ds "[]"] show ?thesis by simp
qed

lemma itoa_no_leading_zero: "length (itoa n) = 1 \<or> hd (itoa n) \<noteq> CHR ''0''"
proof (induction n rule: itoa.induct)
  case (1 n)
  show ?case
  proof (cases "n < 10")
    case True
    then show ?thesis by (subst (1) itoa.simps) simp
  next
    case False
    then have eq: "itoa n = itoa (n div 10) @ [char_of (48 + n mod 10)]"
      by (subst itoa.simps) simp
    show ?thesis
    proof (cases "n div 10 < 10")
      case True
      then have "itoa (n div 10) = [char_of (48 + n div 10)]" by (subst itoa.simps) simp
      moreover have "(of_char (char_of (48 + n div 10) :: char) :: nat) \<noteq> of_char (CHR ''0'')"
        using True False by simp
      then have "char_of (48 + n div 10) \<noteq> CHR ''0''" by (auto simp only: of_char_eq_iff)
      ultimately have "hd (itoa n) \<noteq> CHR ''0''"
        unfolding eq by (simp only: append_Cons list.sel) blast
      then show ?thesis ..
    next
      case big: False
      have "length (itoa (n div 10)) \<noteq> 1"
        using big by (subst itoa.simps) simp
      with 1 False show ?thesis by (simp add: eq)
    qed
  qed
qed

lemma v4_fields_itoa:
  "n \<le> 255 \<Longrightarrow> v4_fields 0 0 fs (itoa n @ s) = v4_fields n (length (itoa n)) fs s"
  using v4_fields_digits [of "itoa n" fs s] itoa_no_leading_zero [of n]
  by (simp add: itoa_digits digits_val_itoa)

lemma v4_fields_dotted:
  assumes "a \<le> 255" "b \<le> 255" "c \<le> 255" "d \<le> 255"
  shows "v4_fields 0 0 [] (itoa a @ ''.'' @ itoa b @ ''.'' @ itoa c @ ''.'' @ itoa d) = Some [a, b, c, d]"
proof -
  have dot: "\<not> is_digit (CHR ''.'')" by (simp add: is_digit_def)
  have "v4_fields 0 0 [a, b, c] (itoa d) = Some [a, b, c, d]"
    using v4_fields_itoa [OF assms(4), of "[a, b, c]" "[]"] by simp
  then show ?thesis
    using assms dot by (simp add: v4_fields_itoa)
qed

lemma dotted_eq:
  "dotted [a, b, c, d] = itoa a @ ''.'' @ itoa b @ ''.'' @ itoa c @ ''.'' @ itoa d"
  by (simp add: dotted_def)

lemma ParseIP_dotted:
  assumes "a \<le> 255" "b \<le> 255" "c \<le> 255" "d \<le> 255"
  shows "ParseIP (dotted [a, b, c, d]) = Some (v4_mapped [a, b, c, d])"
proof -
  let ?P = "\<lambda>c. c \<notin> {CHR ''.'', CHR '':'', CHR ''%''}"
  have "\<forall>x \<in> set (itoa a). ?P x"
    using itoa_digits [of a] by (auto simp: list_all_iff is_digit_def)
  then have "dropWhile ?P (dotted [a, b, c, d]) = ''.'' @ itoa b @ ''.'' @ itoa c @ ''.'' @ itoa d"
    by (simp add: dotted_eq dropWhile_append2)
  then show ?thesis
    using v4_fields_dotted [OF assms] by (simp add: ParseIP_def parseIPv4_def dotted_eq)
qed

lemma canonicalIP_dotted:
  assumes "a \<le> 255" "b \<le> 255" "c \<le> 255" "d \<le> 255"
  shows "canonicalIP (dotted [a, b, c, d]) = dotted [a, b, c, d]"
  using ParseIP_dotted [OF assms]
  by (simp add: canonicalIP_def IP_String_def is_v4_mapped_def v4_mapped_def)

text \<open>An IPv4 literal in any accepted form has the dotted quad as its canonical form, and the
  canonical form is its own.\<close>

lemma parseIPv4_form:
  assumes "parseIPv4 s = Some ip"
  obtains a b c d where "ip = v4_mapped [a, b, c, d]" "a \<le> 255" "b \<le> 255" "c \<le> 255" "d \<le> 255"
proof -
  from assms obtain r where r: "v4_fields 0 0 [] s = Some r" "ip = v4_mapped r"
    by (auto simp: parseIPv4_def)
  then have "length r = 4" "list_all (\<lambda>b. b \<le> 255) r"
    using v4_fields_length v4_fields_bytes by fastforce+
  then show ?thesis
    using r that by (auto simp: length_Suc_conv eval_nat_numeral)
qed

lemma canonicalIP_v4_idem:
  assumes "parseIPv4 s = Some ip"
  shows "canonicalIP (IP_String ip) = IP_String ip"
proof -
  from assms obtain a b c d where "ip = v4_mapped [a, b, c, d]"
    and le: "a \<le> 255" "b \<le> 255" "c \<le> 255" "d \<le> 255" by (rule parseIPv4_form)
  then have "IP_String ip = dotted [a, b, c, d]"
    by (simp add: IP_String_def is_v4_mapped_def v4_mapped_def)
  with canonicalIP_dotted [OF le] show ?thesis by simp
qed

lemma canonicalIP_empty [simp]: "canonicalIP '''' = ''''"
  by (simp add: canonicalIP_def ParseIP_def)

text \<open>A string that is neither dotted nor contains a colon is no IP literal.\<close>

lemma ParseIP_bare: "CHR ''.'' \<notin> set s \<Longrightarrow> CHR '':'' \<notin> set s \<Longrightarrow> ParseIP s = None"
proof -
  assume no: "CHR ''.'' \<notin> set s" "CHR '':'' \<notin> set s"
  show ?thesis
  proof (cases "dropWhile (\<lambda>c. c \<notin> {CHR ''.'', CHR '':'', CHR ''%''}) s")
    case Nil
    then show ?thesis unfolding ParseIP_def by (simp only: list.case)
  next
    case (Cons c t)
    then have "c \<in> set s" by (metis list.set_intros(1) set_dropWhileD)
    with no have "c \<noteq> CHR ''.''" "c \<noteq> CHR '':''" by auto
    with Cons show ?thesis unfolding ParseIP_def by (simp only: list.case if_False)
  qed
qed

section \<open>Spellings of one IPv4 address\<close>

lemma itoa_byte_length: "n \<le> 255 \<Longrightarrow> length (itoa n) \<le> 3"
proof -
  assume n: "n \<le> 255"
  have small: "length (itoa m) = 1" if "m < 10" for m using that by (subst itoa.simps) simp
  have "length (itoa m) \<le> 2" if "m < 100" for m
    using that small [of "m div 10"] by (subst itoa.simps) simp
  from this [of "n div 10"] n show ?thesis by (subst itoa.simps) simp
qed

lemma itoa_hex: "x \<in> set (itoa n) \<Longrightarrow> is_hex x"
  using itoa_digits [of n] by (auto simp: list_all_iff is_digit_def is_hex_def hex_val_def Let_def)

lemma hex_prefix:
  "takeWhile is_hex (itoa n @ ''.'' @ s) = itoa n" "dropWhile is_hex (itoa n @ ''.'' @ s) = ''.'' @ s"
proof -
  have "\<not> is_hex (CHR ''.'')" by (simp add: is_hex_def hex_val_def)
  then show "takeWhile is_hex (itoa n @ ''.'' @ s) = itoa n" "dropWhile is_hex (itoa n @ ''.'' @ s) = ''.'' @ s"
    using itoa_hex by (simp_all add: takeWhile_append2 dropWhile_append2)
qed

lemma v6_loop_v4:
  assumes "takeWhile is_hex s \<noteq> []" "length (takeWhile is_hex s) \<le> 4" "dropWhile is_hex s = CHR ''.'' # t"
    and "v4_fields 0 0 [] s = Some fs" "length bs + 4 \<le> 16"
  shows "v6_loop bs (Some e) s = Some (bs @ fs, Some e, [])"
  using assms by (subst v6_loop.simps) (simp add: Let_def)

lemma v6_loop_group:
  assumes "takeWhile is_hex s = hs" "hs \<noteq> []" "length hs \<le> 4" "dropWhile is_hex s = CHR '':'' # t"
    and "t \<noteq> []" "hd t \<noteq> CHR '':''" "length bs < 16"
  shows "v6_loop bs ell s = v6_loop (bs @ [hex_num hs div 256, hex_num hs mod 256]) ell t"
  using assms by (subst v6_loop.simps) (simp add: Let_def)

lemma v6_loop_dotted:
  assumes "a \<le> 255" "b \<le> 255" "c \<le> 255" "d \<le> 255"
  shows "v6_loop [255, 255] (Some 0) (dotted [a, b, c, d]) = Some ([255, 255, a, b, c, d], Some 0, [])"
proof -
  let ?t = "itoa b @ ''.'' @ itoa c @ ''.'' @ itoa d"
  have hs: "takeWhile is_hex (dotted [a, b, c, d]) = itoa a" "dropWhile is_hex (dotted [a, b, c, d]) = CHR ''.'' # ?t"
    unfolding dotted_eq using hex_prefix [of a ?t] by (simp_all only: append_Cons append_Nil)
  have v4: "v4_fields 0 0 [] (dotted [a, b, c, d]) = Some [a, b, c, d]"
    unfolding dotted_eq using assms by (rule v4_fields_dotted)
  have ne: "takeWhile is_hex (dotted [a, b, c, d]) \<noteq> []" unfolding hs by (rule itoa_nonempty)
  have le: "length (takeWhile is_hex (dotted [a, b, c, d])) \<le> 4"
    unfolding hs using itoa_byte_length [OF assms(1)] by linarith
  have "length [255, 255 :: nat] + 4 \<le> 16" by simp
  from v6_loop_v4 [OF ne le hs(2) v4 this, of 0] show ?thesis by (simp only: append_Cons append_Nil)
qed

lemma ParseIP_mapped:
  assumes "a \<le> 255" "b \<le> 255" "c \<le> 255" "d \<le> 255"
  shows "ParseIP (''::ffff:'' @ dotted [a, b, c, d]) = Some (v4_mapped [a, b, c, d])"
proof -
  have hex: "is_hex (CHR ''f'')" "\<not> is_hex (CHR '':'')" "hex_num ''ffff'' = 65535"
    by (simp_all add: is_hex_def hex_val_def hex_num_def)
  obtain x xs where x: "itoa a = x # xs" by (cases "itoa a") auto
  then have dig: "is_digit x" using itoa_digits [of a] by simp
  have chars: "x \<noteq> CHR '':''" "dotted [a, b, c, d] \<noteq> []" "hd (dotted [a, b, c, d]) = x"
    using dig x by (auto simp: dotted_eq is_digit_def)
  have "v6_loop [] (Some 0) (''ffff:'' @ dotted [a, b, c, d]) = v6_loop [255, 255] (Some 0) (dotted [a, b, c, d])"
    using v6_loop_group [of "''ffff:'' @ dotted [a, b, c, d]" "''ffff''" "dotted [a, b, c, d]" "[]" "Some 0"] chars hex
    by simp
  moreover have "CHR ''%'' \<notin> set (dotted [a, b, c, d])"
    using itoa_digits by (fastforce simp: dotted_eq list_all_iff is_digit_def)
  ultimately show ?thesis
    using v6_loop_dotted [OF assms]
    by (simp add: ParseIP_def parseIPv6_def hasPrefix_def v6_finish_def v4_mapped_def)
qed

text \<open>One key per IPv4 address: the dotted quad is its own canonical form, and the
  IPv4-mapped IPv6 spelling of the same address has that dotted quad as its canonical form, so both
  spellings find the same entry of the two address indexes.\<close>

lemma ipv4_one_canonical_form:
  assumes "a \<le> 255" "b \<le> 255" "c \<le> 255" "d \<le> 255"
  shows "canonicalIP (dotted [a, b, c, d]) = dotted [a, b, c, d]
    \<and> canonicalIP (''::ffff:'' @ dotted [a, b, c, d]) = dotted [a, b, c, d]"
  using canonicalIP_dotted [OF assms] ParseIP_mapped [OF assms]
  by (simp add: canonicalIP_def IP_String_def is_v4_mapped_def v4_mapped_def)

lemma ipv4_one_canonical_form_witness:
  "canonicalIP ''10.0.0.1'' = ''10.0.0.1'' \<and> canonicalIP ''::ffff:10.0.0.1'' = ''10.0.0.1''"
proof -
  have "dotted [10, 0, 0, 1] = ''10.0.0.1''" by code_simp
  then show ?thesis using ipv4_one_canonical_form [of 10 0 0 1] by simp
qed

end
