(* ===== verification/IPRoundtrip.thy ===== *)
theory IPRoundtrip
  imports NetIP
begin

text \<open>
  Printing and parsing an address are inverse: \<open>net.ParseIP\<close> reads back what \<open>IP.String\<close> prints,
  for IPv4 and IPv6 with its zero compression. So \<open>canonicalIP\<close> gives two literals one key exactly
  when they are spellings of one address.
\<close>

section \<open>Hexadecimal groups\<close>

lemma hex_digit_code: "n < 16 \<Longrightarrow> (of_char (hex_digit n) :: nat) = (if n < 10 then 48 + n else 87 + n)"
  by (simp add: hex_digit_def)

lemma hex_val_digit: "n < 16 \<Longrightarrow> hex_val (hex_digit n) = Some n"
  by (simp add: hex_val_def hex_digit_code Let_def)

lemma is_hex_digit: "n < 16 \<Longrightarrow> is_hex (hex_digit n)"
  by (simp add: is_hex_def hex_val_digit)

lemma hex_string_hex: "list_all is_hex (hex_string n)"
proof (induction n rule: hex_string.induct)
  case (1 n)
  then show ?case by (subst hex_string.simps) (simp add: is_hex_digit)
qed

lemma hex_num_snoc: "hex_num (s @ [c]) = 16 * hex_num s + the (hex_val c)"
  by (simp add: hex_num_def)

lemma hex_num_string: "hex_num (hex_string n) = n"
proof (induction n rule: hex_string.induct)
  case (1 n)
  show ?case
  proof (cases "n < 16")
    case True
    then show ?thesis by (subst hex_string.simps) (simp add: hex_num_def hex_val_digit)
  next
    case False
    with 1 show ?thesis by (subst hex_string.simps) (simp add: hex_num_snoc hex_val_digit)
  qed
qed

lemma hex_string_nonempty [simp]: "hex_string n \<noteq> []"
  by (subst hex_string.simps) simp

lemma hex_string_length: "n < 65536 \<Longrightarrow> length (hex_string n) \<le> 4"
proof -
  assume n: "n < 65536"
  have len1: "length (hex_string m) \<le> 1" if "m < 16" for m using that by (subst hex_string.simps) simp
  have step: "length (hex_string m) \<le> Suc k" if "\<And>j. j < b \<Longrightarrow> length (hex_string j) \<le> k" "m < 16 * b" "0 < k" for m k b
    using that(1) [of "m div 16"] that(2,3) by (subst hex_string.simps) auto
  have len2: "length (hex_string m) \<le> 2" if "m < 256" for m using step [of 16 1 m] len1 that by simp
  have len3: "length (hex_string m) \<le> 3" if "m < 4096" for m using step [of 256 2 m] len2 that by simp
  show ?thesis using step [of 4096 3 n] len3 n by simp
qed

lemma hex_chars: "\<not> is_hex (CHR '':'')" "\<not> is_hex (CHR ''.'')" "\<not> is_hex (CHR ''%'')"
  by (simp_all add: is_hex_def hex_val_def)

lemma hex_group:
  "takeWhile is_hex (hex_string g @ CHR '':'' # t) = hex_string g"
  "dropWhile is_hex (hex_string g @ CHR '':'' # t) = CHR '':'' # t"
  "takeWhile is_hex (hex_string g) = hex_string g" "dropWhile is_hex (hex_string g) = []"
  using hex_string_hex [of g] hex_chars
  by (simp_all add: list_all_iff takeWhile_append2 dropWhile_append2 takeWhile_eq_all_conv)

lemma hd_hex_string: "hd (hex_string g @ t) \<noteq> CHR '':''"
  using hex_string_hex [of g] hex_chars(1) by (cases "hex_string g") auto

section \<open>Groups and bytes\<close>

fun bytes_of :: "nat list \<Rightarrow> nat list" where
  "bytes_of [] = []"
| "bytes_of (g # gs) = (g div 256) # (g mod 256) # bytes_of gs"

lemma bytes_of_length [simp]: "length (bytes_of gs) = 2 * length gs"
  by (induction gs) simp_all

lemma bytes_of_append: "bytes_of (gs @ hs) = bytes_of gs @ bytes_of hs"
  by (induction gs) simp_all

lemma bytes_of_zeros: "bytes_of (replicate n 0) = replicate (2 * n) 0"
  by (induction n) simp_all

lemma bytes_of_groups:
  "list_all (\<lambda>b. b \<le> 255) ip \<Longrightarrow> even (length ip) \<Longrightarrow> bytes_of (groups ip) = ip"
  by (induction ip rule: groups.induct) auto

lemma groups_length: "even (length ip) \<Longrightarrow> length (groups ip) = length ip div 2"
  by (induction ip rule: groups.induct) auto

lemma groups_bound: "list_all (\<lambda>b. b \<le> 255) ip \<Longrightarrow> list_all (\<lambda>g. g < 65536) (groups ip)"
  by (induction ip rule: groups.induct) auto

section \<open>Reading groups\<close>

text \<open>Groups joined by colons: each group but the first with its colon.\<close>

definition colons :: "nat list \<Rightarrow> string" where
  "colons gs = concat (map (\<lambda>g. CHR '':'' # hex_string g) gs)"

fun joined :: "nat list \<Rightarrow> string" where
  "joined [] = ''''"
| "joined (g # gs) = hex_string g @ colons gs"

lemma colons_simps [simp]: "colons [] = ''''" "colons (g # gs) = CHR '':'' # hex_string g @ colons gs"
  "colons (gs @ hs) = colons gs @ colons hs"
  by (simp_all add: colons_def)

lemma v6_loop_last:
  "length bs < 16 \<Longrightarrow> g < 65536 \<Longrightarrow> v6_loop bs ell (hex_string g) = Some (bs @ bytes_of [g], ell, [])"
  using hex_string_length [of g] by (subst v6_loop.simps) (simp add: hex_group hex_num_string Let_def)

lemma v6_loop_next:
  "length bs < 16 \<Longrightarrow> g < 65536 \<Longrightarrow>
   v6_loop bs ell (hex_string g @ CHR '':'' # hex_string g' @ t) = v6_loop (bs @ bytes_of [g]) ell (hex_string g' @ t)"
  using hex_string_length [of g] hd_hex_string
  by (subst v6_loop.simps) (simp add: hex_group hex_num_string Let_def)

lemma v6_loop_joined:
  assumes "gs \<noteq> []" "length bs + 2 * length gs \<le> 16" "list_all (\<lambda>g. g < 65536) gs"
  shows "v6_loop bs ell (joined gs) = Some (bs @ bytes_of gs, ell, [])"
  using assms
proof (induction gs arbitrary: bs)
  case (Cons g gs)
  show ?case
  proof (cases gs)
    case Nil
    with Cons.prems show ?thesis by (simp add: v6_loop_last)
  next
    case (Cons g' gs')
    with Cons.prems Cons.IH [of "bs @ bytes_of [g]"] show ?thesis by (simp add: v6_loop_next)
  qed
qed simp

text \<open>Groups up to the ellipsis.\<close>

lemma v6_loop_ellipsis:
  assumes "gs \<noteq> []" "length bs + 2 * length gs \<le> 16" "list_all (\<lambda>g. g < 65536) gs"
  shows "v6_loop bs None (joined gs @ ''::'' @ t) =
    (let bs' = bs @ bytes_of gs in
     if t = [] then Some (bs', Some (length bs'), []) else v6_loop bs' (Some (length bs')) t)"
  using assms
proof (induction gs arbitrary: bs)
  case (Cons g gs)
  show ?case
  proof (cases gs)
    case Nil
    with Cons.prems hex_string_length [of g] show ?thesis
      by (simp, subst v6_loop.simps) (simp add: hex_group hex_num_string Let_def)
  next
    case (Cons g' gs')
    with Cons.prems Cons.IH [of "bs @ bytes_of [g]"] show ?thesis by (simp add: v6_loop_next)
  qed
qed simp

section \<open>Printing\<close>

text \<open>The run \<open>best_run\<close> chooses: none, or at least two zero groups inside the address.\<close>

definition run_ok :: "nat list \<Rightarrow> nat \<times> nat \<Rightarrow> bool" where
  "run_ok gs r \<longleftrightarrow> r = (255, 255) \<or>
     fst r + 2 \<le> snd r \<and> snd r \<le> length gs \<and> take (snd r - fst r) (drop (fst r) gs) = replicate (snd r - fst r) 0"

lemma zero_run_ok:
  assumes "2 \<le> zero_run gs i"
  shows "run_ok gs (i, i + zero_run gs i)"
proof -
  let ?zs = "takeWhile (\<lambda>g. g = 0) (drop i gs)"
  have "?zs = replicate (length ?zs) 0"
    by (rule replicate_length_same [symmetric]) (auto dest: set_takeWhileD)
  moreover have "take (length ?zs) (drop i gs) = ?zs" by (simp add: takeWhile_eq_take [symmetric])
  moreover have "length ?zs \<le> length gs - i" using length_takeWhile_le [of _ "drop i gs"] by simp
  moreover have "i \<le> length gs" using assms by (cases "i \<le> length gs") (simp_all add: zero_run_def)
  ultimately show ?thesis using assms by (auto simp: run_ok_def zero_run_def)
qed

lemma best_run_ok: "run_ok gs (best_run gs)"
proof -
  have "run_ok gs (foldl (\<lambda>(zs, ze) i. let l = zero_run gs i in
              if 2 \<le> l \<and> ze - zs < l then (i, i + l) else (zs, ze)) r is)" if "run_ok gs r" for r "is"
    using that by (induction "is" arbitrary: r) (auto simp: Let_def zero_run_ok split: prod.splits)
  from this [of "(255, 255)" "[0..<8]"] show ?thesis by (simp add: best_run_def run_ok_def)
qed

lemma print6_tail:
  assumes "length gs = 8" "0 < i" "8 - i \<le> n" "\<forall>j. i \<le> j \<and> j < 8 \<longrightarrow> j \<noteq> fst r"
  shows "print6 n gs r i = colons (drop i gs)"
  using assms
proof (induction n arbitrary: i)
  case 0
  then show ?case by simp
next
  case (Suc n)
  show ?case
  proof (cases "i < 8")
    case True
    with Suc.prems Suc.IH [of "Suc i"] show ?thesis
      by (simp add: Cons_nth_drop_Suc [symmetric])
  qed (use Suc.prems in simp)
qed

text \<open>What is printed for the run: the ellipsis and the groups behind it.\<close>

definition after_run :: "nat list \<Rightarrow> nat \<Rightarrow> string" where
  "after_run gs ze = ''::'' @ joined (drop ze gs)"

lemma print6_run:
  assumes "length gs = 8" "zs < ze" "ze \<le> 8" "8 - zs \<le> n"
  shows "print6 n gs (zs, ze) zs = after_run gs ze"
proof -
  obtain m where n: "n = Suc m" using assms by (cases n) auto
  have rest: "joined (drop ze gs) = hex_string (gs ! ze) @ colons (drop (Suc ze) gs)" if "ze < 8"
    using that assms(1) by (simp add: Cons_nth_drop_Suc [symmetric])
  have "print6 m gs (zs, ze) (Suc ze) = colons (drop (Suc ze) gs)" if "ze < 8"
    using that assms n by (intro print6_tail) auto
  then show ?thesis using assms rest by (auto simp: n after_run_def not_less)
qed

lemma print6_head:
  assumes "length gs = 8" "zs < ze" "ze \<le> 8" "0 < i" "i \<le> zs" "8 - i \<le> n"
  shows "print6 n gs (zs, ze) i = colons (take (zs - i) (drop i gs)) @ after_run gs ze"
  using assms
proof (induction n arbitrary: i)
  case 0
  then show ?case by simp
next
  case (Suc n)
  show ?case
  proof (cases "i = zs")
    case True
    with Suc.prems print6_run [of gs zs ze "Suc n"] show ?thesis by simp
  next
    case False
    with Suc.prems have "take (zs - i) (drop i gs) = gs ! i # take (zs - Suc i) (drop (Suc i) gs)"
      by (simp add: Cons_nth_drop_Suc [symmetric] take_Cons' )
    with False Suc.prems Suc.IH [of "Suc i"] show ?thesis by simp
  qed
qed

lemma print6_eq:
  assumes "length gs = 8" "run_ok gs (zs, ze)"
  shows "print6 8 gs (zs, ze) 0 =
    (if (zs, ze) = (255, 255) then joined gs else joined (take zs gs) @ after_run gs ze)"
proof -
  obtain g gs' where gs: "gs = g # gs'" "length gs' = 7" using assms(1) by (cases gs) auto
  have first: "print6 8 gs r 0 = hex_string g @ print6 7 gs r 1" if "fst r \<noteq> 0" for r
    using print6.simps(2) [of 7 gs r 0] that gs(1) by simp
  show ?thesis
  proof (cases "(zs, ze) = (255, 255)")
    case True
    then show ?thesis
      using print6_tail [of gs 1 7 "(255, 255)"] gs first [of "(255, 255)"] by simp
  next
    case run: False
    then have le: "zs + 2 \<le> ze" "ze \<le> 8" using assms by (auto simp: run_ok_def)
    show ?thesis
    proof (cases "zs = 0")
      case True
      then show ?thesis using print6_run [of gs 0 ze 8] le assms(1) by simp
    next
      case False
      then show ?thesis
        using print6_head [of gs zs ze 1 7] le gs run first [of "(zs, ze)"] by (cases zs) auto
    qed
  qed
qed

section \<open>Reading what was printed\<close>

lemma printed_chars:
  assumes "c \<in> set (joined gs) \<union> set (colons gs)"
  shows "c = CHR '':'' \<or> is_hex c"
proof -
  have cs: "c = CHR '':'' \<or> is_hex c" if "c \<in> set (colons gs)" for gs
    using that hex_string_hex by (induction gs) (auto simp: list_all_iff)
  show ?thesis using assms cs hex_string_hex by (cases gs) (auto simp: list_all_iff)
qed

lemma ParseIP_colon:
  assumes "\<forall>c \<in> set s. c = CHR '':'' \<or> is_hex c" "CHR '':'' \<in> set s"
  shows "ParseIP s = parseIPv6 s"
proof -
  let ?P = "\<lambda>c. c \<notin> {CHR ''.'', CHR '':'', CHR ''%''}"
  have "\<not> ?P (CHR '':'')" by simp
  then have "dropWhile ?P s \<noteq> []" using assms(2) unfolding dropWhile_eq_Nil_conv by blast
  then obtain c t where ct: "dropWhile ?P s = c # t" by (meson neq_Nil_conv)
  then have "\<not> ?P c" using hd_dropWhile [of ?P s] by simp
  then have c: "c = CHR ''.'' \<or> c = CHR '':'' \<or> c = CHR ''%''" by blast
  have "c \<in> set s" using ct by (metis list.set_intros(1) set_dropWhileD)
  with assms(1) have "c = CHR '':'' \<or> is_hex c" by (rule bspec)
  with c hex_chars have "c = CHR '':''" by (elim disjE) simp_all
  with ct show ?thesis unfolding ParseIP_def by (simp only: list.case) simp
qed

lemma joined_head:
  assumes "gs \<noteq> []"
  shows "\<not> hasPrefix (joined gs @ t) ''::''"
proof -
  obtain g gs' where gs: "gs = g # gs'" using assms by (cases gs) auto
  obtain x xs where x: "hex_string g = x # xs" by (cases "hex_string g") auto
  then have "x \<noteq> CHR '':''" using hd_hex_string [of g "[]"] by simp
  then show ?thesis using gs x by (simp add: hasPrefix_def)
qed

lemma no_zone: "\<forall>c \<in> set s. c = CHR '':'' \<or> is_hex c \<Longrightarrow> CHR ''%'' \<notin> set s"
  using hex_chars by auto

lemma v6_after_run:
  assumes "length bs + 2 * length gs < 16" "list_all (\<lambda>g. g < 65536) gs" "e = length bs"
  shows "Option.bind (if joined gs = [] then Some (bs, Some e, []) else v6_loop bs (Some e) (joined gs)) v6_finish =
    Some (bs @ replicate (16 - (length bs + 2 * length gs)) 0 @ bytes_of gs)"
proof (cases "gs = []")
  case True
  with assms show ?thesis by (simp add: v6_finish_def)
next
  case False
  then have "joined gs \<noteq> []" by (cases gs) auto
  with False assms v6_loop_joined [OF False, of bs "Some e"] show ?thesis by (simp add: v6_finish_def)
qed

lemma parse_joined:
  assumes "length gs = 8" "list_all (\<lambda>g. g < 65536) gs"
  shows "ParseIP (joined gs) = Some (bytes_of gs)"
proof -
  obtain g g' gs' where gs: "gs = g # g' # gs'" using assms(1) by (cases gs; cases "tl gs") auto
  have chars: "\<forall>c \<in> set (joined gs). c = CHR '':'' \<or> is_hex c" using printed_chars by blast
  have "CHR '':'' \<in> set (joined gs)" using gs by simp
  with chars have "ParseIP (joined gs) = parseIPv6 (joined gs)" by (rule ParseIP_colon)
  also have "\<dots> = Option.bind (v6_loop [] None (joined gs)) v6_finish"
    using no_zone [OF chars] joined_head [of gs "[]"] gs unfolding parseIPv6_def by simp
  finally show ?thesis
    using v6_loop_joined [of gs "[]" None] assms gs by (simp add: v6_finish_def)
qed

lemma parse_run:
  assumes "length pre + length post \<le> 6" "list_all (\<lambda>g. g < 65536) (pre @ post)"
  shows "ParseIP (joined pre @ ''::'' @ joined post) =
    Some (bytes_of pre @ replicate (16 - 2 * (length pre + length post)) 0 @ bytes_of post)"
proof -
  let ?s = "joined pre @ ''::'' @ joined post"
  have chars: "\<forall>c \<in> set ?s. c = CHR '':'' \<or> is_hex c" using printed_chars by auto
  have v6: "ParseIP ?s = parseIPv6 ?s" using chars by (intro ParseIP_colon) auto
  have empty: "joined post = [] \<longleftrightarrow> post = []" by (cases post) auto
  show ?thesis
  proof (cases "pre = []")
    case True
    then show ?thesis
      using v6_after_run [of "[]" post 0] assms no_zone [OF chars] empty unfolding v6
      by (auto simp: parseIPv6_def hasPrefix_def)
  next
    case False
    have "parseIPv6 ?s = Option.bind (v6_loop [] None ?s) v6_finish"
      using no_zone [OF chars] joined_head [OF False, of "''::'' @ joined post"] by (simp add: parseIPv6_def)
    also have "v6_loop [] None ?s = (if joined post = [] then Some (bytes_of pre, Some (length (bytes_of pre)), [])
        else v6_loop (bytes_of pre) (Some (length (bytes_of pre))) (joined post))"
      using v6_loop_ellipsis [OF False, of "[]" "joined post"] assms by (simp add: Let_def)
    finally show ?thesis
      using v6_after_run [of "bytes_of pre" post "length (bytes_of pre)"] assms unfolding v6 by simp
  qed
qed

text \<open>The bytes of an address.\<close>

definition is_ip :: "nat list \<Rightarrow> bool" where
  "is_ip ip \<longleftrightarrow> length ip = 16 \<and> list_all (\<lambda>b. b \<le> 255) ip"

lemma parse_print6:
  assumes "is_ip ip"
  shows "ParseIP (print6 8 (groups ip) (best_run (groups ip)) 0) = Some ip"
proof -
  let ?gs = "groups ip"
  have gs: "length ?gs = 8" "list_all (\<lambda>g. g < 65536) ?gs" "bytes_of ?gs = ip"
    using assms groups_length [of ip] groups_bound bytes_of_groups [of ip] by (simp_all add: is_ip_def)
  obtain zs ze where r: "best_run ?gs = (zs, ze)" "run_ok ?gs (zs, ze)"
    using best_run_ok [of ?gs] by (cases "best_run ?gs") auto
  show ?thesis
  proof (cases "(zs, ze) = (255, 255)")
    case True
    then show ?thesis using print6_eq [OF gs(1) r(2)] parse_joined [OF gs(1,2)] r(1) gs(3) by simp
  next
    case False
    with r(2) gs(1) have le: "zs + 2 \<le> ze" "ze \<le> 8"
      and zero: "take (ze - zs) (drop zs ?gs) = replicate (ze - zs) 0" by (auto simp: run_ok_def)
    have "?gs = take zs ?gs @ take (ze - zs) (drop zs ?gs) @ drop ze ?gs"
      using le by (metis add_diff_inverse_nat append_take_drop_id drop_drop le_add1 le_trans not_less add.commute)
    then have ip: "ip = bytes_of (take zs ?gs) @ replicate (2 * (ze - zs)) 0 @ bytes_of (drop ze ?gs)"
      using gs(3) zero by (metis bytes_of_append bytes_of_zeros)
    have "16 - 2 * (length (take zs ?gs) + length (drop ze ?gs)) = 2 * (ze - zs)" using le gs(1) by simp
    moreover have "list_all (\<lambda>g. g < 65536) (take zs ?gs @ drop ze ?gs)"
      using gs(2) by (auto simp: list_all_iff dest: in_set_takeD in_set_dropD)
    ultimately show ?thesis
      using parse_run [of "take zs ?gs" "drop ze ?gs"] print6_eq [OF gs(1) r(2)] False le gs(1) r(1) ip
      by (simp add: after_run_def)
  qed
qed

section \<open>What is parsed is an address\<close>

lemma hex_val_bound: "hex_val c = Some n \<Longrightarrow> n < 16"
  by (auto simp: hex_val_def Let_def split: if_splits)

lemma hex_num_bound: "list_all is_hex hs \<Longrightarrow> hex_num hs < 16 ^ length hs"
proof (induction hs rule: rev_induct)
  case Nil
  then show ?case by (simp add: hex_num_def)
next
  case (snoc c hs)
  then obtain n where "hex_val c = Some n" "n < 16" using hex_val_bound by (auto simp: is_hex_def)
  with snoc show ?case by (simp add: hex_num_snoc)
qed

lemma hex_group_byte: "length (takeWhile is_hex s) \<le> 4 \<Longrightarrow> hex_num (takeWhile is_hex s) div 256 \<le> 255"
proof -
  assume "length (takeWhile is_hex s) \<le> 4"
  then have "(16 :: nat) ^ length (takeWhile is_hex s) \<le> 16 ^ 4" by (rule power_increasing) simp
  moreover have "hex_num (takeWhile is_hex s) < 16 ^ length (takeWhile is_hex s)"
    by (rule hex_num_bound) (auto simp: list_all_iff dest: set_takeWhileD)
  ultimately have "hex_num (takeWhile is_hex s) < 65536" by simp
  then show ?thesis by simp
qed

definition partial_ip :: "nat list \<Rightarrow> nat option \<Rightarrow> bool" where
  "partial_ip bs ell \<longleftrightarrow>
     even (length bs) \<and> length bs \<le> 16 \<and> list_all (\<lambda>b. b \<le> 255) bs \<and> pred_option (\<lambda>e. e \<le> length bs) ell"

lemma partial_ip_group:
  assumes "partial_ip bs ell" "length bs < 16" "length (takeWhile is_hex s) \<le> 4"
  shows "partial_ip (bs @ [hex_num (takeWhile is_hex s) div 256, hex_num (takeWhile is_hex s) mod 256]) ell"
proof -
  have "length bs + 2 \<le> 16" using assms(1,2) by (auto simp: partial_ip_def elim!: evenE)
  with assms hex_group_byte [OF assms(3)] show ?thesis
    by (auto simp: partial_ip_def elim: option.pred_mono_strong)
qed

lemma partial_ip_v4:
  assumes "partial_ip bs ell" "length bs + 4 \<le> 16" "v4_fields 0 0 [] s = Some fs"
  shows "partial_ip (bs @ fs) ell"
  using assms v4_fields_length [OF assms(3)] v4_fields_bytes [OF assms(3)]
  by (auto simp: partial_ip_def elim: option.pred_mono_strong)

lemma partial_ip_ellipsis: "partial_ip (bs @ [x, y]) ell \<Longrightarrow> partial_ip (bs @ [x, y]) (Some (Suc (Suc (length bs))))"
  by (simp add: partial_ip_def)

lemma v6_loop_partial:
  "v6_loop bs ell s = Some (bs', ell', s') \<Longrightarrow> partial_ip bs ell \<Longrightarrow> partial_ip bs' ell'"
proof (induction bs ell s rule: v6_loop.induct)
  case (1 bs ell s)
  show ?case
  proof (cases "16 \<le> length bs \<or> takeWhile is_hex s = [] \<or> 4 < length (takeWhile is_hex s)")
    case True
    with 1(3,4) show ?thesis by (auto simp: v6_loop.simps [of bs ell s] Let_def split: if_splits)
  next
    case False
    note group = partial_ip_group [OF 1(4), of s]
    show ?thesis
    proof (cases "dropWhile is_hex s")
      case Nil
      with False 1(3) group show ?thesis by (auto simp: v6_loop.simps [of bs ell s] Let_def)
    next
      case (Cons c t)
      with False 1(3) group partial_ip_v4 [OF 1(4)] partial_ip_ellipsis 1(1,2)
      show ?thesis
        by (auto simp: v6_loop.simps [of bs ell s] Let_def split: if_splits option.splits)
    qed
  qed
qed

lemma v6_finish_ip: "partial_ip bs ell \<Longrightarrow> v6_finish (bs, ell, s) = Some ip \<Longrightarrow> is_ip ip"
  by (auto simp: v6_finish_def partial_ip_def is_ip_def list_all_iff split: if_splits option.splits)
    (blast dest: in_set_takeD in_set_dropD)+

lemma ParseIP_is_ip:
  assumes "ParseIP s = Some ip"
  shows "is_ip ip"
proof -
  have v4: "is_ip ip" if "parseIPv4 s = Some ip"
    using that by (rule parseIPv4_form) (simp add: is_ip_def v4_mapped_def list_all_iff)
  have "partial_ip [] None" "partial_ip [] (Some 0)" by (simp_all add: partial_ip_def)
  then have loop: "is_ip ip" if "Option.bind (v6_loop [] ell t) v6_finish = Some ip" "ell \<in> {None, Some 0}" for ell t
    using that by (auto simp: bind_eq_Some_conv intro: v6_finish_ip dest!: v6_loop_partial)
  have "is_ip (replicate 16 0)" by (simp add: is_ip_def list_all_iff)
  with loop have v6: "is_ip ip" if "parseIPv6 s = Some ip"
    using that by (auto simp: parseIPv6_def split: if_splits)
  show ?thesis using assms v4 v6 by (auto simp: ParseIP_def split: list.splits if_splits)
qed

lemma ParseIP_String:
  assumes "is_ip ip"
  shows "ParseIP (IP_String ip) = Some ip"
proof (cases "is_v4_mapped ip")
  case True
  obtain a b c d where abcd: "drop 12 ip = [a, b, c, d]"
    using assms by (auto simp: is_ip_def length_Suc_conv eval_nat_numeral)
  then have ip: "ip = v4_mapped [a, b, c, d]"
    using True append_take_drop_id [of 12 ip] by (simp add: is_v4_mapped_def v4_mapped_def)
  then have "a \<le> 255" "b \<le> 255" "c \<le> 255" "d \<le> 255" using assms by (simp_all add: is_ip_def v4_mapped_def)
  then show ?thesis using ParseIP_dotted True abcd ip by (simp add: IP_String_def)
next
  case False
  then show ?thesis using parse_print6 [OF assms] by (simp add: IP_String_def)
qed

lemma IP_String_nonempty: "is_ip ip \<Longrightarrow> IP_String ip \<noteq> ''''"
  using ParseIP_String [of ip] by (auto simp: ParseIP_def)

section \<open>Property\<close>

text \<open>Claim C18. One key per address: two literals have the same canonical form exactly when
  \<open>net.ParseIP\<close> reads the same address from them, or from neither; the canonical form of a literal
  is itself a literal of the same address, for IPv4, IPv6 and the IPv4-mapped spellings, and it is
  its own canonical form. So the two address indexes never confuse two addresses and never miss one
  because of its spelling.\<close>

theorem canonicalIP_identifies:
  "(canonicalIP x = canonicalIP y \<longleftrightarrow> ParseIP x = ParseIP y)
   \<and> canonicalIP (canonicalIP x) = canonicalIP x
   \<and> ParseIP (canonicalIP x) = ParseIP x
   \<and> (canonicalIP x = '''' \<longleftrightarrow> ParseIP x = None)"
proof -
  have empty: "ParseIP '''' = None" by (simp add: ParseIP_def)
  have read: "ParseIP (canonicalIP s) = ParseIP s" for s
    using ParseIP_String ParseIP_is_ip [of s] empty by (auto simp: canonicalIP_def split: option.split)
  have "canonicalIP x = canonicalIP y \<longleftrightarrow> ParseIP x = ParseIP y" using read by (metis canonicalIP_def)
  moreover have "canonicalIP (canonicalIP x) = canonicalIP x" using read by (metis canonicalIP_def)
  moreover have "canonicalIP x = '''' \<longleftrightarrow> ParseIP x = None"
    using IP_String_nonempty ParseIP_is_ip [of x] by (auto simp: canonicalIP_def split: option.split)
  ultimately show ?thesis using read by blast
qed

end
