(* ===== verification/Routes.thy ===== *)
theory Routes
  imports Attrs NetIP
begin

text \<open>
  \<open>routes.go\<close>: the attributes a route contributes (\<open>RouteAttributes\<close>), the read contract of
  the enrichment path (\<open>RouteLookup\<close>, with its optional companions \<open>ServiceIPLookup\<close> and
  \<open>WaypointLookup\<close>), the in-memory \<open>staticLookup\<close>, and the keys of the indexes. The locale
  \<open>route_lookup\<close> states the contract; \<open>staticLookup\<close> is its first interpretation, the
  informer-backed index the second (theory RouteIndex).
\<close>

section \<open>Route attributes\<close>

datatype RouteKind = RouteKindUnknown | RouteKindHTTPRoute | RouteKindGRPCRoute

fun RouteKind_String :: "RouteKind \<Rightarrow> string" where
  "RouteKind_String RouteKindHTTPRoute = ''HTTPRoute''"
| "RouteKind_String RouteKindGRPCRoute = ''GRPCRoute''"
| "RouteKind_String RouteKindUnknown = ''Unknown''"

text \<open>The constants are consecutive integers (\<open>iota\<close>); this is their order.\<close>

fun RouteKind_int :: "RouteKind \<Rightarrow> nat" where
  "RouteKind_int RouteKindUnknown = 0"
| "RouteKind_int RouteKindHTTPRoute = 1"
| "RouteKind_int RouteKindGRPCRoute = 2"

instantiation RouteKind :: linorder
begin

definition less_eq_RouteKind :: "RouteKind \<Rightarrow> RouteKind \<Rightarrow> bool" where
  "less_eq_RouteKind a b \<longleftrightarrow> RouteKind_int a \<le> RouteKind_int b"

definition less_RouteKind :: "RouteKind \<Rightarrow> RouteKind \<Rightarrow> bool" where
  "less_RouteKind a b \<longleftrightarrow> RouteKind_int a < RouteKind_int b"

instance
proof
  fix a b :: RouteKind
  show "a \<le> b \<Longrightarrow> b \<le> a \<Longrightarrow> a = b"
    by (cases a; cases b) (simp_all add: less_eq_RouteKind_def)
qed (auto simp: less_eq_RouteKind_def less_RouteKind_def)

end

record PolicyRef =
  pol_Name :: string
  pol_Namespace :: string
  pol_Kind :: string
  pol_Group :: string

record RouteAttributes =
  ra_Kind :: RouteKind
  ra_Name :: string
  ra_Namespace :: string
  ra_UID :: string
  ra_ParentRef :: string
  ra_Accepted :: "bool option"
  ra_ResolvedRefs :: "bool option"
  ra_GatewayName :: string
  ra_GatewayNamespace :: string
  ra_GatewayUID :: string
  ra_GatewayListenerName :: string
  ra_GatewayClassName :: string
  ra_GatewayClassControllerName :: string
  ra_ParentKind :: string
  ra_RouteMode :: string
  ra_ParentServiceName :: string
  ra_ParentServiceNamespace :: string
  ra_ParentServicePort :: int
  ra_RouteRole :: string
  ra_WaypointImplementation :: string
  ra_WaypointName :: string
  ra_WaypointNamespace :: string
  ra_RuleNames :: "string list"
  ra_Policies :: "PolicyRef list"

text \<open>The zero value \<open>RouteAttributes{}\<close>.\<close>

definition zero_route :: RouteAttributes where
  "zero_route = \<lparr>ra_Kind = RouteKindUnknown, ra_Name = '''', ra_Namespace = '''', ra_UID = '''',
     ra_ParentRef = '''', ra_Accepted = None, ra_ResolvedRefs = None, ra_GatewayName = '''',
     ra_GatewayNamespace = '''', ra_GatewayUID = '''', ra_GatewayListenerName = '''',
     ra_GatewayClassName = '''', ra_GatewayClassControllerName = '''', ra_ParentKind = '''',
     ra_RouteMode = '''', ra_ParentServiceName = '''', ra_ParentServiceNamespace = '''',
     ra_ParentServicePort = 0, ra_RouteRole = '''', ra_WaypointImplementation = '''',
     ra_WaypointName = '''', ra_WaypointNamespace = '''', ra_RuleNames = [], ra_Policies = []\<rparr>"

section \<open>Keys\<close>

definition routeKey :: "RouteKind \<Rightarrow> string \<Rightarrow> string \<Rightarrow> string" where
  "routeKey kind ns name =
     (if kind = RouteKindGRPCRoute then ''GRPCRoute'' else ''HTTPRoute'') @ ''|'' @ ns @ ''/'' @ name"

definition nsKey :: "string \<Rightarrow> string \<Rightarrow> string" where
  "nsKey ns name = ns @ ''/'' @ name"

text \<open>Namespaces of Kubernetes objects contain no slash, so the keys are unambiguous.\<close>

lemma split_slash:
  assumes "CHR ''/'' \<notin> set a" "CHR ''/'' \<notin> set c" "a @ ''/'' @ b = c @ ''/'' @ d"
  shows "a = c \<and> b = d"
proof -
  have "index_byte (CHR ''/'') (a @ ''/'' @ b) = Some (length a)"
    using assms(1) by (simp add: index_byte_append)
  moreover have "index_byte (CHR ''/'') (c @ ''/'' @ d) = Some (length c)"
    using assms(2) by (simp add: index_byte_append)
  ultimately show ?thesis using assms(3) by simp
qed

lemma nsKey_inj:
  "CHR ''/'' \<notin> set ns \<Longrightarrow> CHR ''/'' \<notin> set ns' \<Longrightarrow> nsKey ns name = nsKey ns' name' \<longleftrightarrow>
   ns = ns' \<and> name = name'"
  unfolding nsKey_def using split_slash by blast

definition route_kind :: "RouteKind \<Rightarrow> bool" where
  "route_kind k \<longleftrightarrow> k \<noteq> RouteKindUnknown"

lemma routeKey_inj:
  assumes "CHR ''/'' \<notin> set ns" "CHR ''/'' \<notin> set ns'" "route_kind k" "route_kind k'"
  shows "routeKey k ns name = routeKey k' ns' name' \<longleftrightarrow> k = k' \<and> ns = ns' \<and> name = name'"
  using assms nsKey_inj [of ns ns' name name']
  by (cases k; cases k') (auto simp: routeKey_def nsKey_def route_kind_def)

lemma routeKey_kind_neq: "routeKey RouteKindHTTPRoute ns name \<noteq> routeKey RouteKindGRPCRoute ns' name'"
  by (simp add: routeKey_def)

section \<open>The lookup interface\<close>

text \<open>An interface with one method is the type of that method. A value of interface type
  \<open>RouteLookup\<close> is the record of its methods; the two optional fields are the results of the type
  assertions the processor makes.\<close>

type_synonym serviceIPLookup = "string \<Rightarrow> (string \<times> string) option"
type_synonym podIPLookup = "string \<Rightarrow> (string \<times> string) option"
type_synonym waypointLookup = "string \<Rightarrow> string \<Rightarrow> (string \<times> string \<times> string) option"

record RouteLookup =
  LookupRoute :: "RouteKind \<Rightarrow> string \<Rightarrow> string \<Rightarrow> RouteAttributes option"
  LookupByBackendService :: "string \<Rightarrow> string \<Rightarrow> RouteAttributes option"
  LookupByBackendServiceWithParents :: "string \<Rightarrow> string \<Rightarrow> RouteAttributes list option"
  ServiceIPLookup :: "serviceIPLookup option"
  WaypointLookup :: "waypointLookup option"

text \<open>The contract of the read side, for states that satisfy the provider's invariant: the
  single candidate for a Service is one of its candidates, the list of candidates is never an
  empty hit, and a route is returned under its own kind.\<close>

locale route_lookup =
  fixes invar :: "'s \<Rightarrow> bool" and lookup :: "'s \<Rightarrow> RouteLookup"
  assumes single_is_candidate:
      "invar s \<Longrightarrow> LookupByBackendService (lookup s) ns svc = Some ra \<Longrightarrow>
       \<exists>ras. LookupByBackendServiceWithParents (lookup s) ns svc = Some ras \<and> ra \<in> set ras"
    and candidates_nonempty:
      "invar s \<Longrightarrow> LookupByBackendServiceWithParents (lookup s) ns svc = Some ras \<Longrightarrow> ras \<noteq> []"
begin

lemma no_candidates_no_single:
  "invar s \<Longrightarrow> LookupByBackendServiceWithParents (lookup s) ns svc = None \<Longrightarrow>
   LookupByBackendService (lookup s) ns svc = None"
  using single_is_candidate by (metis option.distinct(1) option.exhaust)

end

section \<open>The static lookup\<close>

record nsName =
  nn_Namespace :: string
  nn_Name :: string

record waypointInfo =
  wi_Implementation :: string
  wi_Name :: string
  wi_Namespace :: string

record staticLookup =
  sl_routes :: "string \<rightharpoonup> RouteAttributes"
  sl_backendIndex :: "string \<rightharpoonup> RouteAttributes"
  sl_backendIndexAll :: "string \<rightharpoonup> RouteAttributes list"
  sl_backendIndexDropped :: "string \<rightharpoonup> unit"
  sl_serviceIPs :: "string \<rightharpoonup> nsName"
  sl_podIPs :: "string \<rightharpoonup> nsName"
  sl_waypoints :: "string \<rightharpoonup> waypointInfo"

definition newStaticLookup :: staticLookup where
  "newStaticLookup = \<lparr>sl_routes = Map.empty, sl_backendIndex = Map.empty,
     sl_backendIndexAll = Map.empty, sl_backendIndexDropped = Map.empty,
     sl_serviceIPs = Map.empty, sl_podIPs = Map.empty, sl_waypoints = Map.empty\<rparr>"

definition putWaypoint ::
  "staticLookup \<Rightarrow> string \<Rightarrow> string \<Rightarrow> string \<Rightarrow> string \<Rightarrow> string \<Rightarrow> staticLookup"
where
  "putWaypoint s ns svc impl wpName wpNS =
     s\<lparr>sl_waypoints := (sl_waypoints s)(nsKey ns svc \<mapsto>
        \<lparr>wi_Implementation = impl, wi_Name = wpName, wi_Namespace = wpNS\<rparr>)\<rparr>"

definition static_LookupWaypointForService ::
  "staticLookup \<Rightarrow> string \<Rightarrow> string \<Rightarrow> (string \<times> string \<times> string) option"
where
  "static_LookupWaypointForService s ns name =
     (case sl_waypoints s (nsKey ns name) of
        None \<Rightarrow> None
      | Some wi \<Rightarrow> Some (wi_Implementation wi, wi_Name wi, wi_Namespace wi))"

definition static_put ::
  "staticLookup \<Rightarrow> RouteKind \<Rightarrow> string \<Rightarrow> string \<Rightarrow> RouteAttributes \<Rightarrow> staticLookup"
where
  "static_put s kind ns name attrs = s\<lparr>sl_routes := (sl_routes s)(routeKey kind ns name \<mapsto> attrs)\<rparr>"

definition putBackend :: "staticLookup \<Rightarrow> string \<Rightarrow> string \<Rightarrow> RouteAttributes \<Rightarrow> staticLookup" where
  "putBackend s ns svc attrs =
     (let bkey = nsKey ns svc;
          all = (case sl_backendIndexAll s bkey of Some l \<Rightarrow> l | None \<Rightarrow> []);
          s1 = s\<lparr>sl_backendIndexAll := (sl_backendIndexAll s)(bkey \<mapsto> all @ [attrs])\<rparr>
      in if sl_backendIndexDropped s1 bkey \<noteq> None then s1
         else if sl_backendIndex s1 bkey \<noteq> None then
           s1\<lparr>sl_backendIndex := (sl_backendIndex s1)(bkey := None),
              sl_backendIndexDropped := (sl_backendIndexDropped s1)(bkey \<mapsto> ())\<rparr>
         else s1\<lparr>sl_backendIndex := (sl_backendIndex s1)(bkey \<mapsto> attrs)\<rparr>)"

definition putServiceIP :: "staticLookup \<Rightarrow> string \<Rightarrow> string \<Rightarrow> string \<Rightarrow> staticLookup" where
  "putServiceIP s ip ns svc =
     (let canon = canonicalIP ip in
      if canon = '''' then s
      else s\<lparr>sl_serviceIPs := (sl_serviceIPs s)(canon \<mapsto> \<lparr>nn_Namespace = ns, nn_Name = svc\<rparr>)\<rparr>)"

definition putPodIP :: "staticLookup \<Rightarrow> string \<Rightarrow> string \<Rightarrow> string \<Rightarrow> staticLookup" where
  "putPodIP s ip ns svc =
     (let canon = canonicalIP ip in
      if canon = '''' then s
      else s\<lparr>sl_podIPs := (sl_podIPs s)(canon \<mapsto> \<lparr>nn_Namespace = ns, nn_Name = svc\<rparr>)\<rparr>)"

definition static_LookupRoute ::
  "staticLookup \<Rightarrow> RouteKind \<Rightarrow> string \<Rightarrow> string \<Rightarrow> RouteAttributes option"
where
  "static_LookupRoute s kind ns name = sl_routes s (routeKey kind ns name)"

definition static_LookupByBackendService ::
  "staticLookup \<Rightarrow> string \<Rightarrow> string \<Rightarrow> RouteAttributes option"
where
  "static_LookupByBackendService s ns svc = sl_backendIndex s (nsKey ns svc)"

definition static_LookupByBackendServiceWithParents ::
  "staticLookup \<Rightarrow> string \<Rightarrow> string \<Rightarrow> RouteAttributes list option"
where
  "static_LookupByBackendServiceWithParents s ns svc =
     (case sl_backendIndexAll s (nsKey ns svc) of
        None \<Rightarrow> None
      | Some rs \<Rightarrow> if length rs = 0 then None else Some rs)"

definition nsName_pair :: "nsName \<Rightarrow> string \<times> string" where
  "nsName_pair v = (nn_Namespace v, nn_Name v)"

definition static_LookupServiceByIP :: "staticLookup \<Rightarrow> string \<Rightarrow> (string \<times> string) option" where
  "static_LookupServiceByIP s ip =
     (let canon = canonicalIP ip in
      if canon = '''' then None
      else case sl_serviceIPs s canon of
        Some v \<Rightarrow> Some (nsName_pair v)
      | None \<Rightarrow> (case sl_podIPs s canon of Some v \<Rightarrow> Some (nsName_pair v) | None \<Rightarrow> None))"

text \<open>A \<open>*staticLookup\<close> as a value of the interface.\<close>

definition static_lookup :: "staticLookup \<Rightarrow> RouteLookup" where
  "static_lookup s =
     \<lparr>LookupRoute = static_LookupRoute s,
      LookupByBackendService = static_LookupByBackendService s,
      LookupByBackendServiceWithParents = static_LookupByBackendServiceWithParents s,
      ServiceIPLookup = Some (static_LookupServiceByIP s),
      WaypointLookup = Some (static_LookupWaypointForService s)\<rparr>"

text \<open>The states \<open>staticLookup\<close> reaches: the single-candidate index agrees with the list of all
  candidates, and an ambiguous Service stays dropped. \<open>static_key_ok\<close> says so of one key.\<close>

definition static_key_ok ::
  "RouteAttributes list option \<Rightarrow> RouteAttributes option \<Rightarrow> unit option \<Rightarrow> bool"
where
  "static_key_ok all single dropped \<longleftrightarrow>
     (case all of
        None \<Rightarrow> single = None \<and> dropped = None
      | Some ras \<Rightarrow>
          (length ras = 1 \<and> single = Some (hd ras) \<and> dropped = None)
          \<or> (2 \<le> length ras \<and> single = None \<and> dropped = Some ()))"

definition static_inv :: "staticLookup \<Rightarrow> bool" where
  "static_inv s \<longleftrightarrow>
     (\<forall>k. static_key_ok (sl_backendIndexAll s k) (sl_backendIndex s k) (sl_backendIndexDropped s k))"

lemma static_inv_new: "static_inv newStaticLookup"
  by (simp add: static_inv_def static_key_ok_def newStaticLookup_def)

lemma static_key_ok_cases:
  assumes "static_key_ok all single dropped"
  obtains "all = None" "single = None" "dropped = None"
  | ra where "all = Some [ra]" "single = Some ra" "dropped = None"
  | ras where "all = Some ras" "2 \<le> length ras" "single = None" "dropped = Some ()"
  using assms by (cases all) (auto simp: static_key_ok_def length_Suc_conv)

lemma static_inv_putBackend:
  assumes "static_inv s"
  shows "static_inv (putBackend s ns svc ra)"
proof -
  let ?k = "nsKey ns svc"
  have "static_key_ok (sl_backendIndexAll s ?k) (sl_backendIndex s ?k) (sl_backendIndexDropped s ?k)"
    using assms by (simp add: static_inv_def)
  then show ?thesis
    using assms
    by (cases rule: static_key_ok_cases)
      (simp_all add: static_inv_def putBackend_def Let_def static_key_ok_def [of "Some _"])
qed

lemma static_inv_other [simp]:
  "static_inv (static_put s kind ns name ra) = static_inv s"
  "static_inv (putServiceIP s ip ns svc) = static_inv s"
  "static_inv (putPodIP s ip ns svc) = static_inv s"
  "static_inv (putWaypoint s ns svc impl wn wns) = static_inv s"
  by (simp_all add: static_inv_def static_put_def putServiceIP_def putPodIP_def putWaypoint_def Let_def)

lemma static_single:
  assumes "static_inv s"
  shows "static_LookupByBackendService s ns svc =
    (case static_LookupByBackendServiceWithParents s ns svc of Some [ra] \<Rightarrow> Some ra | _ \<Rightarrow> None)"
proof -
  let ?k = "nsKey ns svc"
  have "static_key_ok (sl_backendIndexAll s ?k) (sl_backendIndex s ?k) (sl_backendIndexDropped s ?k)"
    using assms by (simp add: static_inv_def)
  then show ?thesis
    by (cases rule: static_key_ok_cases)
      (auto simp: static_LookupByBackendService_def static_LookupByBackendServiceWithParents_def
        split: list.splits)
qed

interpretation static: route_lookup static_inv static_lookup
proof
  fix s ns svc ra
  assume inv: "static_inv s" and hit: "LookupByBackendService (static_lookup s) ns svc = Some ra"
  then show "\<exists>ras. LookupByBackendServiceWithParents (static_lookup s) ns svc = Some ras \<and> ra \<in> set ras"
    using static_single [OF inv, of ns svc]
    by (auto simp: static_lookup_def split: option.splits list.splits)
next
  fix s ns svc ras
  assume "LookupByBackendServiceWithParents (static_lookup s) ns svc = Some ras"
  then show "ras \<noteq> []"
    by (auto simp: static_lookup_def static_LookupByBackendServiceWithParents_def
        split: option.splits if_splits)
qed

end
