(* ===== verification/Telemetry.thy ===== *)
theory Telemetry
  imports Routes
begin

text \<open>
  The self-telemetry of the nil-Kind inference (\<open>parent_inference.go\<close>): the counter
  \<open>gatewayapi_parent_inferred_total\<close> and the debug log, the two effects of the closure \<open>record\<close> of
  \<open>newParentInferrer\<close>. The meter provider belongs to the OpenTelemetry SDK: it is a parameter that
  takes the scope, the name, the description and the unit of a counter and answers with an error or
  with a handle of the counter.
\<close>

type_synonym meter_provider = "string \<Rightarrow> string \<Rightarrow> string \<Rightarrow> string \<Rightarrow> string + nat"

definition inferScopeName :: string where
  "inferScopeName = ''github.com/henrikrexed/gatewayapiprocessor/gatewayapiprocessor''"

definition metricParentInferred :: string where
  "metricParentInferred = ''gatewayapi_parent_inferred_total''"

text \<open>A nil provider and an error of the provider both disable the counter.\<close>

definition newParentInferredCounter :: "meter_provider option \<Rightarrow> nat option" where
  "newParentInferredCounter mpo =
     (case mpo of
        None \<Rightarrow> None
      | Some mp \<Rightarrow>
          (case mp inferScopeName metricParentInferred
              (''Number of nil-Kind route parentRefs reclassified as mesh Service parents by the '' @
               ''infer_service_parent fallback (ISI-6188 / GAMMA D4).'') ''{inference}'' of
             Inl err \<Rightarrow> None
           | Inr c \<Rightarrow> Some c))"

text \<open>The counters of the process and the debug lines.\<close>

record telemetry =
  t_counters :: "nat \<Rightarrow> nat"
  t_debug :: "(string \<times> string \<times> string) list"

definition record_inference :: "nat option \<Rightarrow> string \<times> string \<times> RouteKind \<Rightarrow> telemetry \<Rightarrow> telemetry" where
  "record_inference counter x t =
     (case x of (ns, name, kind) \<Rightarrow>
        (case counter of Some c \<Rightarrow> t\<lparr>t_counters := (t_counters t)(c := t_counters t c + 1)\<rparr> | None \<Rightarrow> t)
        \<lparr>t_debug := t_debug t @ [(ns, name, RouteKind_String kind)]\<rparr>)"

definition no_telemetry :: telemetry where
  "no_telemetry = \<lparr>t_counters = (\<lambda>_. 0), t_debug = []\<rparr>"

text \<open>What the counters and the log show after a list of inferences.\<close>

lemma telemetry_of_inferences:
  "fold (record_inference counter) xs t =
   \<lparr>t_counters = (case counter of Some c \<Rightarrow> (t_counters t)(c := t_counters t c + length xs) | None \<Rightarrow> t_counters t),
    t_debug = t_debug t @ map (\<lambda>(ns, name, kind). (ns, name, RouteKind_String kind)) xs\<rparr>"
  by (induction xs arbitrary: t) (auto simp: record_inference_def fun_eq_iff split: option.split)

lemma counter_disabled [simp]: "newParentInferredCounter None = None"
  by (simp add: newParentInferredCounter_def)

lemma counter_error:
  "mp inferScopeName metricParentInferred
     (''Number of nil-Kind route parentRefs reclassified as mesh Service parents by the '' @
      ''infer_service_parent fallback (ISI-6188 / GAMMA D4).'') ''{inference}'' = Inl err \<Longrightarrow>
   newParentInferredCounter (Some mp) = None"
  by (simp add: newParentInferredCounter_def)

end
