(* ===== verification/K8sTypes.thy ===== *)
theory K8sTypes
  imports Prelude
begin

text \<open>
  The Kubernetes objects the processor reads, each with the fields the source uses. They are
  API types of \<open>sigs.k8s.io/gateway-api\<close>, \<open>k8s.io/api\<close> and \<open>k8s.io/apimachinery\<close>; an optional
  (pointer) field is an option, a label map a map from strings to strings. \<open>HTTPRoute\<close> and
  \<open>GRPCRoute\<close> have the same fields as far as the source is concerned.
\<close>

record ParentReference =
  pr_Group :: "string option"
  pr_Kind :: "string option"
  pr_Namespace :: "string option"
  pr_Name :: string
  pr_SectionName :: "string option"
  pr_Port :: "int option"

record BackendObjectReference =
  br_Group :: "string option"
  br_Kind :: "string option"
  br_Namespace :: "string option"
  br_Name :: string

record RouteRule =
  rule_Name :: "string option"
  rule_BackendRefs :: "BackendObjectReference list"

record Condition =
  cond_Type :: string
  cond_Status :: string

record RouteParentStatus =
  rps_Conditions :: "Condition list"

record Route =
  rt_Name :: string
  rt_Namespace :: string
  rt_UID :: string
  rt_ParentRefs :: "ParentReference list"
  rt_Rules :: "RouteRule list"
  rt_Parents :: "RouteParentStatus list"

type_synonym HTTPRoute = Route
type_synonym GRPCRoute = Route

record Gateway =
  gw_Name :: string
  gw_Namespace :: string
  gw_UID :: string
  gw_GatewayClassName :: string

record GatewayClass =
  gc_Name :: string
  gc_ControllerName :: string

record Service =
  svc_Name :: string
  svc_Namespace :: string
  svc_Labels :: "string \<rightharpoonup> string"
  svc_ClusterIP :: string
  svc_ClusterIPs :: "string list"

record Endpoint =
  ep_Addresses :: "string list"
  ep_Ready :: "bool option"

record OwnerReference =
  or_Kind :: string
  or_Name :: string

record EndpointSlice =
  es_Name :: string
  es_Namespace :: string
  es_Labels :: "string \<rightharpoonup> string"
  es_OwnerReferences :: "OwnerReference list"
  es_AddressType :: string
  es_Endpoints :: "Endpoint list"

text \<open>An unstructured object is decoded JSON; numbers, booleans and null are only told apart
  from the kinds the source asserts.\<close>

datatype json =
    JStr string
  | JList "json list"
  | JMap "(string \<times> json) list"
  | JOther

text \<open>\<open>m[key]\<close> on a value, and the two accessors of \<open>unstructured\<close>: they find a value at a
  path when every step is a map that has the field and the value has the requested type.\<close>

fun json_field :: "json \<Rightarrow> string \<Rightarrow> json option" where
  "json_field (JMap kvs) key = map_of kvs key"
| "json_field _ key = None"

fun json_path :: "json \<Rightarrow> string list \<Rightarrow> json option" where
  "json_path j [] = Some j"
| "json_path j (k # ks) = Option.bind (json_field j k) (\<lambda>j'. json_path j' ks)"

definition NestedMap :: "json \<Rightarrow> string list \<Rightarrow> json option" where
  "NestedMap j path = (case json_path j path of Some (JMap kvs) \<Rightarrow> Some (JMap kvs) | _ \<Rightarrow> None)"

definition NestedSlice :: "json \<Rightarrow> string list \<Rightarrow> json list option" where
  "NestedSlice j path = (case json_path j path of Some (JList xs) \<Rightarrow> Some xs | _ \<Rightarrow> None)"

text \<open>\<open>v, _ := m[key].(string)\<close>\<close>

definition str_field :: "json \<Rightarrow> string \<Rightarrow> string" where
  "str_field j key = (case json_field j key of Some (JStr s) \<Rightarrow> s | _ \<Rightarrow> '''')"

definition str_path :: "json \<Rightarrow> string list \<Rightarrow> string" where
  "str_path j path = (case json_path j path of Some (JStr s) \<Rightarrow> s | _ \<Rightarrow> '''')"

text \<open>What an informer hands to a delete handler: the object, the tombstone of a missed delete
  (with the last known object, or with something else in it), or an object of another type.\<close>

datatype 'o deleted =
    Deleted 'o
  | Tombstone 'o
  | OddTombstone
  | Foreign

text \<open>What an informer hands to an add or update handler.\<close>

datatype 'o received =
    Received 'o
  | ReceivedForeign

end
