(* ===== verification/RouteIndex.thy ===== *)
theory RouteIndex
  imports Routes
begin

text \<open>
  \<open>index.go\<close>: the in-memory projection of the informer caches. The mutex serialises the
  operations, so a concurrent history is a sequence of them. \<open>backendOwners\<close> maps a Service to
  the set of its owners; a set is a list without duplicates, in the order in which one
  iteration of the Go map visits it (the results do not depend on it, see theory Processor).

  \<open>idx_inv\<close> is the invariant that ties the five maps; \<open>spec_step\<close> is the abstract index
  (each route with the Services it declares) that the concrete one refines.
\<close>

section \<open>State and lookups\<close>

record routeIndex =
  routes :: "string \<rightharpoonup> RouteAttributes"
  backendIndex :: "string \<rightharpoonup> RouteAttributes"
  claimedBackends :: "string \<rightharpoonup> string"
  backendOwners :: "string \<rightharpoonup> string list"
  policies :: "string \<rightharpoonup> PolicyRef list"

definition newRouteIndex :: routeIndex where
  "newRouteIndex = \<lparr>routes = Map.empty, backendIndex = Map.empty, claimedBackends = Map.empty,
     backendOwners = Map.empty, policies = Map.empty\<rparr>"

text \<open>Reading a missing key of a Go map of slices gives the empty slice.\<close>

definition get_list :: "('k \<rightharpoonup> 'a list) \<Rightarrow> 'k \<Rightarrow> 'a list" where
  "get_list m k = (case m k of None \<Rightarrow> [] | Some xs \<Rightarrow> xs)"

definition overlayPolicies :: "routeIndex \<Rightarrow> string \<Rightarrow> RouteAttributes \<Rightarrow> RouteAttributes" where
  "overlayPolicies r key ra =
     (let pols = get_list (policies r) key in
      if length pols = 0 then ra else ra\<lparr>ra_Policies := pols\<rparr>)"

definition idx_LookupRoute ::
  "routeIndex \<Rightarrow> RouteKind \<Rightarrow> string \<Rightarrow> string \<Rightarrow> RouteAttributes option"
where
  "idx_LookupRoute r kind ns name =
     (let key = routeKey kind ns name in
      case routes r key of None \<Rightarrow> None | Some ra \<Rightarrow> Some (overlayPolicies r key ra))"

definition idx_LookupByBackendService ::
  "routeIndex \<Rightarrow> string \<Rightarrow> string \<Rightarrow> RouteAttributes option"
where
  "idx_LookupByBackendService r ns svc =
     (case backendIndex r (nsKey ns svc) of
        None \<Rightarrow> None
      | Some ra \<Rightarrow>
          Some (overlayPolicies r (routeKey (ra_Kind ra) (ra_Namespace ra) (ra_Name ra)) ra))"

text \<open>\<open>r.routes[ownerKey]\<close> without the comma-ok form: a missing key gives the zero value.\<close>

definition route_or_zero :: "routeIndex \<Rightarrow> string \<Rightarrow> RouteAttributes" where
  "route_or_zero r key = (case routes r key of Some ra \<Rightarrow> ra | None \<Rightarrow> zero_route)"

definition idx_LookupByBackendServiceWithParents ::
  "routeIndex \<Rightarrow> string \<Rightarrow> string \<Rightarrow> RouteAttributes list option"
where
  "idx_LookupByBackendServiceWithParents r ns svc =
     (let owners = get_list (backendOwners r) (nsKey ns svc) in
      if length owners = 0 then None
      else Some (map (\<lambda>ownerKey. overlayPolicies r ownerKey (route_or_zero r ownerKey)) owners))"

section \<open>Policies\<close>

definition policyRefsEqual :: "PolicyRef \<Rightarrow> PolicyRef \<Rightarrow> bool" where
  "policyRefsEqual a b \<longleftrightarrow>
     pol_Name a = pol_Name b \<and> pol_Namespace a = pol_Namespace b \<and>
     pol_Kind a = pol_Kind b \<and> pol_Group a = pol_Group b"

lemma policyRefsEqual_eq [simp]: "policyRefsEqual a b \<longleftrightarrow> a = b"
  by (cases a; cases b) (simp add: policyRefsEqual_def)

definition applyPolicy ::
  "routeIndex \<Rightarrow> RouteKind \<Rightarrow> string \<Rightarrow> string \<Rightarrow> PolicyRef \<Rightarrow> routeIndex"
where
  "applyPolicy r kind ns name p =
     (let key = routeKey kind ns name; pols = get_list (policies r) key in
      if list_ex (\<lambda>existing. policyRefsEqual existing p) pols then r
      else r\<lparr>policies := (policies r)(key \<mapsto> pols @ [p])\<rparr>)"

text \<open>The loop that removes the first equal entry: \<open>None\<close> when there is none.\<close>

fun remove_policy_at :: "PolicyRef \<Rightarrow> PolicyRef list \<Rightarrow> PolicyRef list option" where
  "remove_policy_at p [] = None"
| "remove_policy_at p (existing # pols) =
     (if policyRefsEqual existing p then Some pols
      else map_option (\<lambda>rest. existing # rest) (remove_policy_at p pols))"

definition removePolicy ::
  "routeIndex \<Rightarrow> RouteKind \<Rightarrow> string \<Rightarrow> string \<Rightarrow> PolicyRef \<Rightarrow> routeIndex"
where
  "removePolicy r kind ns name p =
     (let key = routeKey kind ns name in
      case remove_policy_at p (get_list (policies r) key) of
        None \<Rightarrow> r
      | Some pols \<Rightarrow>
          if length pols = 0 then r\<lparr>policies := (policies r)(key := None)\<rparr>
          else r\<lparr>policies := (policies r)(key \<mapsto> pols)\<rparr>)"

section \<open>Routes and backends\<close>

record backendRef =
  bref_Namespace :: string
  bref_Name :: string

definition bref_key :: "backendRef \<Rightarrow> string" where
  "bref_key b = nsKey (bref_Namespace b) (bref_Name b)"

text \<open>The first loop of \<open>reindexBackends\<close>: single-candidate claims of \<open>owner\<close> on Services
  that are no longer wanted.\<close>

definition drop_claims :: "string \<Rightarrow> string set \<Rightarrow> routeIndex \<Rightarrow> routeIndex" where
  "drop_claims owner wanted r =
     r\<lparr>claimedBackends := map_drop (\<lambda>bkey claim. claim = owner \<and> bkey \<notin> wanted) (claimedBackends r),
       backendIndex := map_drop (\<lambda>bkey _. claimedBackends r bkey = Some owner \<and> bkey \<notin> wanted)
                         (backendIndex r)\<rparr>"

text \<open>The second loop: ownership of Services that are no longer wanted.\<close>

definition drop_owner :: "string \<Rightarrow> string set \<Rightarrow> routeIndex \<Rightarrow> routeIndex" where
  "drop_owner owner wanted r =
     r\<lparr>backendOwners := (\<lambda>bkey.
         case backendOwners r bkey of
           None \<Rightarrow> None
         | Some owners \<Rightarrow>
             if owner \<notin> set owners then Some owners
             else if bkey \<in> wanted then Some owners
             else let rest = removeAll owner owners in
               if length rest = 0 then None else Some rest)\<rparr>"

text \<open>The body of the third loop: (re)claim one backend.\<close>

definition claim_backend ::
  "string \<Rightarrow> RouteAttributes \<Rightarrow> string \<Rightarrow> routeIndex \<Rightarrow> routeIndex"
where
  "claim_backend owner ra bkey r =
     (let owners = get_list (backendOwners r) bkey;
          r1 = r\<lparr>backendOwners := (backendOwners r)
                   (bkey \<mapsto> (if owner \<in> set owners then owners else owners @ [owner]))\<rparr>
      in if (case claimedBackends r1 bkey of Some existing \<Rightarrow> existing \<noteq> owner | None \<Rightarrow> False)
         then r1\<lparr>backendIndex := (backendIndex r1)(bkey := None)\<rparr>
         else r1\<lparr>claimedBackends := (claimedBackends r1)(bkey \<mapsto> owner),
                 backendIndex := (backendIndex r1)(bkey \<mapsto> ra)\<rparr>)"

definition reindexBackends ::
  "string \<Rightarrow> RouteAttributes \<Rightarrow> backendRef list \<Rightarrow> routeIndex \<Rightarrow> routeIndex"
where
  "reindexBackends owner ra refs r =
     (let wanted = bref_key ` set refs in
      fold (\<lambda>b. claim_backend owner ra (bref_key b)) refs
        (drop_owner owner wanted (drop_claims owner wanted r)))"

definition upsertHTTPRoute :: "routeIndex \<Rightarrow> RouteAttributes \<Rightarrow> backendRef list \<Rightarrow> routeIndex" where
  "upsertHTTPRoute r ra refs =
     (let key = routeKey RouteKindHTTPRoute (ra_Namespace ra) (ra_Name ra) in
      reindexBackends key ra refs (r\<lparr>routes := (routes r)(key \<mapsto> ra)\<rparr>))"

definition upsertGRPCRoute :: "routeIndex \<Rightarrow> RouteAttributes \<Rightarrow> backendRef list \<Rightarrow> routeIndex" where
  "upsertGRPCRoute r ra refs =
     (let key = routeKey RouteKindGRPCRoute (ra_Namespace ra) (ra_Name ra) in
      reindexBackends key ra refs (r\<lparr>routes := (routes r)(key \<mapsto> ra)\<rparr>))"

definition dropBackendOwnershipLocked :: "string \<Rightarrow> routeIndex \<Rightarrow> routeIndex" where
  "dropBackendOwnershipLocked key r =
     (let r1 = r\<lparr>claimedBackends := map_drop (\<lambda>bkey owner. owner = key) (claimedBackends r),
                 backendIndex := map_drop (\<lambda>bkey _. claimedBackends r bkey = Some key) (backendIndex r)\<rparr>
      in r1\<lparr>backendOwners := (\<lambda>bkey.
              case backendOwners r1 bkey of
                None \<Rightarrow> None
              | Some owners \<Rightarrow>
                  if key \<notin> set owners then Some owners
                  else let rest = removeAll key owners in
                    if length rest = 0 then None else Some rest)\<rparr>)"

definition deleteHTTPRoute :: "routeIndex \<Rightarrow> string \<Rightarrow> string \<Rightarrow> routeIndex" where
  "deleteHTTPRoute r ns name =
     (let key = routeKey RouteKindHTTPRoute ns name in
      dropBackendOwnershipLocked key (r\<lparr>routes := (routes r)(key := None)\<rparr>))"

definition deleteGRPCRoute :: "routeIndex \<Rightarrow> string \<Rightarrow> string \<Rightarrow> routeIndex" where
  "deleteGRPCRoute r ns name =
     (let key = routeKey RouteKindGRPCRoute ns name in
      dropBackendOwnershipLocked key (r\<lparr>routes := (routes r)(key := None)\<rparr>))"

text \<open>Deleting is reindexing with no backends.\<close>

lemma dropBackendOwnershipLocked_eq:
  "dropBackendOwnershipLocked key r = drop_owner key {} (drop_claims key {} r)"
  by (simp add: dropBackendOwnershipLocked_def drop_owner_def drop_claims_def Let_def
      cong: option.case_cong if_cong)

section \<open>What the loops compute\<close>

text \<open>The owner set of a Service.\<close>

definition owners_of :: "routeIndex \<Rightarrow> string \<Rightarrow> string set" where
  "owners_of r k = set (get_list (backendOwners r) k)"

lemma drop_claims_sel [simp]:
  "routes (drop_claims owner W r) = routes r" "policies (drop_claims owner W r) = policies r"
  "backendOwners (drop_claims owner W r) = backendOwners r"
  by (simp_all add: drop_claims_def)

lemma drop_owner_sel [simp]:
  "routes (drop_owner owner W r) = routes r" "policies (drop_owner owner W r) = policies r"
  "claimedBackends (drop_owner owner W r) = claimedBackends r"
  "backendIndex (drop_owner owner W r) = backendIndex r"
  by (simp_all add: drop_owner_def)

lemma claim_backend_sel [simp]:
  "routes (claim_backend owner ra b r) = routes r"
  "policies (claim_backend owner ra b r) = policies r"
  by (simp_all add: claim_backend_def Let_def)

lemma owners_of_drop_claims [simp]: "owners_of (drop_claims owner W r) = owners_of r"
  by (rule ext) (simp add: owners_of_def)

lemma owners_of_drop_owner:
  "owners_of (drop_owner owner W r) k =
   (if k \<in> W then owners_of r k else owners_of r k - {owner})"
proof (cases "backendOwners r k")
  case None
  then show ?thesis by (simp add: owners_of_def drop_owner_def get_list_def)
next
  case (Some os)
  have "set os - {owner} = set (removeAll owner os)" by simp
  with Some show ?thesis
    by (simp add: owners_of_def drop_owner_def get_list_def Let_def del: set_removeAll)
qed

lemma owners_of_claim:
  "owners_of (claim_backend owner ra b r) k = (if k = b then insert owner (owners_of r k) else owners_of r k)"
  by (auto simp: owners_of_def claim_backend_def get_list_def Let_def split: option.splits)

lemma claimed_drop_claims:
  "claimedBackends (drop_claims owner W r) k =
   (if claimedBackends r k = Some owner \<and> k \<notin> W then None else claimedBackends r k)"
  by (auto simp: drop_claims_def map_drop_def split: option.splits)

lemma index_drop_claims:
  "backendIndex (drop_claims owner W r) k =
   (if claimedBackends r k = Some owner \<and> k \<notin> W then None else backendIndex r k)"
  by (auto simp: drop_claims_def map_drop_def split: option.splits)

lemma claimed_claim:
  "claimedBackends (claim_backend owner ra b r) k =
   (if k = b \<and> claimedBackends r k = None then Some owner else claimedBackends r k)"
  by (auto simp: claim_backend_def Let_def split: option.splits)

lemma index_claim:
  "backendIndex (claim_backend owner ra b r) k =
   (if k \<noteq> b then backendIndex r k
    else if claimedBackends r k = None \<or> claimedBackends r k = Some owner then Some ra else None)"
  by (auto simp: claim_backend_def Let_def split: option.splits)

lemma owners_of_claims:
  "owners_of (fold (\<lambda>b. claim_backend owner ra (bref_key b)) refs r) k =
   (if k \<in> bref_key ` set refs then insert owner (owners_of r k) else owners_of r k)"
  by (induction refs arbitrary: r) (auto simp: owners_of_claim)

lemma claimed_claims:
  "claimedBackends (fold (\<lambda>b. claim_backend owner ra (bref_key b)) refs r) k =
   (if k \<in> bref_key ` set refs \<and> claimedBackends r k = None then Some owner else claimedBackends r k)"
  by (induction refs arbitrary: r) (auto simp: claimed_claim)

lemma index_claims:
  "backendIndex (fold (\<lambda>b. claim_backend owner ra (bref_key b)) refs r) k =
   (if k \<notin> bref_key ` set refs then backendIndex r k
    else if claimedBackends r k = None \<or> claimedBackends r k = Some owner then Some ra else None)"
  by (induction refs arbitrary: r) (auto simp: index_claim claimed_claim)

lemma claims_sel [simp]:
  "routes (fold (\<lambda>b. claim_backend owner ra (bref_key b)) refs r) = routes r"
  "policies (fold (\<lambda>b. claim_backend owner ra (bref_key b)) refs r) = policies r"
  by (induction refs arbitrary: r) simp_all

lemma reindex_sel [simp]:
  "routes (reindexBackends owner ra refs r) = routes r"
  "policies (reindexBackends owner ra refs r) = policies r"
  by (simp_all add: reindexBackends_def Let_def)

text \<open>The three loops together, Service by Service.\<close>

lemma owners_of_reindex:
  "owners_of (reindexBackends owner ra refs r) k =
   (owners_of r k - {owner}) \<union> (if k \<in> bref_key ` set refs then {owner} else {})"
  by (auto simp: reindexBackends_def Let_def owners_of_claims owners_of_drop_owner)

lemma claimed_reindex:
  "claimedBackends (reindexBackends owner ra refs r) k =
   (if k \<in> bref_key ` set refs
    then (if claimedBackends r k = None then Some owner else claimedBackends r k)
    else (if claimedBackends r k = Some owner then None else claimedBackends r k))"
  by (auto simp: reindexBackends_def Let_def claimed_claims claimed_drop_claims)

lemma index_reindex:
  "backendIndex (reindexBackends owner ra refs r) k =
   (if k \<in> bref_key ` set refs
    then (if claimedBackends r k = None \<or> claimedBackends r k = Some owner then Some ra else None)
    else (if claimedBackends r k = Some owner then None else backendIndex r k))"
  by (auto simp: reindexBackends_def Let_def index_claims claimed_drop_claims index_drop_claims)

lemma dropBackend_sel [simp]:
  "routes (dropBackendOwnershipLocked key r) = routes r"
  "policies (dropBackendOwnershipLocked key r) = policies r"
  by (simp_all add: dropBackendOwnershipLocked_eq)

lemma owners_of_dropBackend: "owners_of (dropBackendOwnershipLocked key r) k = owners_of r k - {key}"
  by (simp add: dropBackendOwnershipLocked_eq owners_of_drop_owner)

lemma claimed_dropBackend:
  "claimedBackends (dropBackendOwnershipLocked key r) k =
   (if claimedBackends r k = Some key then None else claimedBackends r k)"
  by (simp add: dropBackendOwnershipLocked_eq claimed_drop_claims)

lemma index_dropBackend:
  "backendIndex (dropBackendOwnershipLocked key r) k =
   (if claimedBackends r k = Some key then None else backendIndex r k)"
  by (simp add: dropBackendOwnershipLocked_eq index_drop_claims)

lemmas reindex_simps = owners_of_reindex claimed_reindex index_reindex
lemmas drop_simps = owners_of_dropBackend claimed_dropBackend index_dropBackend

text \<open>Owner lists carry no duplicates and no empty list is stored.\<close>

definition owners_ok :: "routeIndex \<Rightarrow> bool" where
  "owners_ok r \<longleftrightarrow> (\<forall>k os. backendOwners r k = Some os \<longrightarrow> os \<noteq> [] \<and> distinct os)"

lemma owners_ok_drop_owner: "owners_ok r \<Longrightarrow> owners_ok (drop_owner owner W r)"
  by (auto simp: owners_ok_def drop_owner_def Let_def distinct_removeAll
      split: option.splits if_splits)

lemma owners_ok_claim: "owners_ok r \<Longrightarrow> owners_ok (claim_backend owner ra b r)"
  by (auto simp: owners_ok_def claim_backend_def get_list_def Let_def split: option.splits if_splits)

lemma owners_ok_claims:
  "owners_ok r \<Longrightarrow> owners_ok (fold (\<lambda>b. claim_backend owner ra (bref_key b)) refs r)"
  by (induction refs arbitrary: r) (simp_all add: owners_ok_claim)

lemma owners_ok_drop_claims [simp]: "owners_ok (drop_claims owner W r) = owners_ok r"
  by (simp add: owners_ok_def)

lemma owners_ok_routes [simp]: "owners_ok (r\<lparr>routes := x\<rparr>) = owners_ok r"
  by (simp add: owners_ok_def)

lemma owners_ok_policies [simp]: "owners_ok (r\<lparr>policies := x\<rparr>) = owners_ok r"
  by (simp add: owners_ok_def)

lemma owners_of_upd [simp]:
  "owners_of (r\<lparr>routes := x\<rparr>) = owners_of r" "owners_of (r\<lparr>policies := y\<rparr>) = owners_of r"
  by (simp_all add: owners_of_def fun_eq_iff)

lemma owners_ok_reindex: "owners_ok r \<Longrightarrow> owners_ok (reindexBackends owner ra refs r)"
  by (simp add: reindexBackends_def Let_def owners_ok_claims owners_ok_drop_owner)

lemma owners_ok_dropBackend: "owners_ok r \<Longrightarrow> owners_ok (dropBackendOwnershipLocked key r)"
  by (simp add: dropBackendOwnershipLocked_eq owners_ok_drop_owner)

section \<open>The invariant\<close>

definition idx_inv :: "routeIndex \<Rightarrow> bool" where
  "idx_inv r \<longleftrightarrow>
     owners_ok r \<and>
     (\<forall>k. owners_of r k \<subseteq> dom (routes r)) \<and>
     (\<forall>k owner. claimedBackends r k = Some owner \<longrightarrow> owner \<in> owners_of r k) \<and>
     (\<forall>k ra. backendIndex r k = Some ra \<longrightarrow>
        (\<exists>owner. claimedBackends r k = Some owner \<and> routes r owner = Some ra)) \<and>
     (\<forall>k ra. routes r k = Some ra \<longrightarrow>
        route_kind (ra_Kind ra) \<and> k = routeKey (ra_Kind ra) (ra_Namespace ra) (ra_Name ra)) \<and>
     (\<forall>k ps. policies r k = Some ps \<longrightarrow> ps \<noteq> [] \<and> distinct ps)"

lemma idx_invD:
  assumes "idx_inv r"
  shows "owners_ok r" "owners_of r k \<subseteq> dom (routes r)"
    "claimedBackends r k = Some owner \<Longrightarrow> owner \<in> owners_of r k"
    "backendIndex r k = Some ra \<Longrightarrow> \<exists>owner. claimedBackends r k = Some owner \<and> routes r owner = Some ra"
    "routes r k = Some ra \<Longrightarrow> route_kind (ra_Kind ra)"
    "routes r k = Some ra \<Longrightarrow> k = routeKey (ra_Kind ra) (ra_Namespace ra) (ra_Name ra)"
    "policies r k = Some ps \<Longrightarrow> ps \<noteq> [] \<and> distinct ps"
  using assms unfolding idx_inv_def by blast+

lemma idx_inv_new: "idx_inv newRouteIndex"
  by (simp add: idx_inv_def newRouteIndex_def owners_ok_def owners_of_def get_list_def)

lemma idx_inv_upsert:
  assumes inv: "idx_inv r" and "route_kind (ra_Kind ra)"
    and key: "key = routeKey (ra_Kind ra) (ra_Namespace ra) (ra_Name ra)"
  shows "idx_inv (reindexBackends key ra refs (r\<lparr>routes := (routes r)(key \<mapsto> ra)\<rparr>))" (is "idx_inv ?r")
  unfolding idx_inv_def
proof (intro conjI allI impI)
  show "owners_ok ?r" using idx_invD(1) [OF inv] by (simp add: owners_ok_reindex)
  show "owners_of ?r k \<subseteq> dom (routes ?r)" for k
    using idx_invD(2) [OF inv, of k] by (auto simp: reindex_simps)
  show "owner \<in> owners_of ?r k" if "claimedBackends ?r k = Some owner" for k owner
    using that idx_invD(3) [OF inv, of k] by (auto simp: reindex_simps split: if_splits)
  show "\<exists>owner. claimedBackends ?r k = Some owner \<and> routes ?r owner = Some ra'"
    if "backendIndex ?r k = Some ra'" for k ra'
    using that idx_invD(4) [OF inv, of k ra']
    by (cases "claimedBackends r k") (auto simp: reindex_simps split: if_splits)
  fix k ra' assume "routes ?r k = Some ra'"
  then show "route_kind (ra_Kind ra')" "k = routeKey (ra_Kind ra') (ra_Namespace ra') (ra_Name ra')"
    using assms idx_invD(5,6) [OF inv, of k ra'] by (auto split: if_splits)
next
  fix k ps assume "policies ?r k = Some ps"
  then show "ps \<noteq> []" "distinct ps" using idx_invD(7) [OF inv, of k ps] by auto
qed

lemma idx_inv_delete:
  assumes inv: "idx_inv r"
  shows "idx_inv (dropBackendOwnershipLocked key (r\<lparr>routes := (routes r)(key := None)\<rparr>))" (is "idx_inv ?r")
  unfolding idx_inv_def
proof (intro conjI allI impI)
  show "owners_ok ?r" using idx_invD(1) [OF inv] by (simp add: owners_ok_dropBackend)
  show "owners_of ?r k \<subseteq> dom (routes ?r)" for k
    using idx_invD(2) [OF inv, of k] by (auto simp: drop_simps)
  show "owner \<in> owners_of ?r k" if "claimedBackends ?r k = Some owner" for k owner
    using that idx_invD(3) [OF inv, of k] by (auto simp: drop_simps split: if_splits)
  show "\<exists>owner. claimedBackends ?r k = Some owner \<and> routes ?r owner = Some ra'"
    if "backendIndex ?r k = Some ra'" for k ra'
    using that idx_invD(4) [OF inv, of k ra'] by (auto simp: drop_simps split: if_splits)
  fix k ra' assume "routes ?r k = Some ra'"
  then show "route_kind (ra_Kind ra')" "k = routeKey (ra_Kind ra') (ra_Namespace ra') (ra_Name ra')"
    using idx_invD(5,6) [OF inv, of k ra'] by (auto split: if_splits)
next
  fix k ps assume "policies ?r k = Some ps"
  then show "ps \<noteq> []" "distinct ps" using idx_invD(7) [OF inv, of k ps] by auto
qed

lemma idx_inv_policies:
  assumes "idx_inv r" and "\<And>k ps. pm k = Some ps \<Longrightarrow> ps \<noteq> [] \<and> distinct ps"
  shows "idx_inv (r\<lparr>policies := pm\<rparr>)"
  using assms by (simp add: idx_inv_def)

lemma get_list_policies_distinct: "idx_inv r \<Longrightarrow> distinct (get_list (policies r) k)"
  using idx_invD(7) by (auto simp: get_list_def split: option.splits)

lemma idx_inv_applyPolicy:
  assumes inv: "idx_inv r"
  shows "idx_inv (applyPolicy r kind ns name p)"
proof -
  have "idx_inv (r\<lparr>policies := (policies r)(key \<mapsto> get_list (policies r) key @ [p])\<rparr>)"
    if "\<not> list_ex (\<lambda>e. policyRefsEqual e p) (get_list (policies r) key)" for key
    using that idx_invD(7) [OF inv] get_list_policies_distinct [OF inv, of key]
    by (intro idx_inv_policies [OF inv]) (auto simp: list_ex_iff split: if_splits)
  with inv show ?thesis by (simp add: applyPolicy_def Let_def)
qed

lemma remove_policy_at_None: "remove_policy_at p ps = None \<longleftrightarrow> p \<notin> set ps"
  by (induction ps) auto

lemma remove_policy_at_Some: "remove_policy_at p ps = Some qs \<Longrightarrow> qs = remove1 p ps \<and> p \<in> set ps"
  by (induction ps arbitrary: qs) (auto split: if_splits)

lemma idx_inv_removePolicy:
  assumes inv: "idx_inv r"
  shows "idx_inv (removePolicy r kind ns name p)"
proof -
  let ?key = "routeKey kind ns name"
  have "idx_inv (r\<lparr>policies := (policies r)(?key := None)\<rparr>)"
    using idx_invD(7) [OF inv] by (intro idx_inv_policies [OF inv]) (auto split: if_splits)
  moreover have "idx_inv (r\<lparr>policies := (policies r)(?key \<mapsto> qs)\<rparr>)"
    if "remove_policy_at p (get_list (policies r) ?key) = Some qs" "qs \<noteq> []" for qs
    using that remove_policy_at_Some [OF that(1)] idx_invD(7) [OF inv]
      get_list_policies_distinct [OF inv, of ?key]
    by (intro idx_inv_policies [OF inv]) (auto split: if_splits simp: distinct_remove1)
  ultimately show ?thesis
    using inv by (auto simp: removePolicy_def Let_def split: option.splits)
qed

section \<open>Histories\<close>

datatype index_op =
    UpsertHTTP RouteAttributes "backendRef list"
  | UpsertGRPC RouteAttributes "backendRef list"
  | DeleteHTTP string string
  | DeleteGRPC string string
  | ApplyPolicy RouteKind string string PolicyRef
  | RemovePolicy RouteKind string string PolicyRef

fun index_step :: "index_op \<Rightarrow> routeIndex \<Rightarrow> routeIndex" where
  "index_step (UpsertHTTP ra refs) r = upsertHTTPRoute r ra refs"
| "index_step (UpsertGRPC ra refs) r = upsertGRPCRoute r ra refs"
| "index_step (DeleteHTTP ns name) r = deleteHTTPRoute r ns name"
| "index_step (DeleteGRPC ns name) r = deleteGRPCRoute r ns name"
| "index_step (ApplyPolicy kind ns name p) r = applyPolicy r kind ns name p"
| "index_step (RemovePolicy kind ns name p) r = removePolicy r kind ns name p"

definition index_run :: "index_op list \<Rightarrow> routeIndex" where
  "index_run ops = fold index_step ops newRouteIndex"

text \<open>The informer handlers pass attributes of the kind they handle.\<close>

fun op_ok :: "index_op \<Rightarrow> bool" where
  "op_ok (UpsertHTTP ra refs) = (ra_Kind ra = RouteKindHTTPRoute)"
| "op_ok (UpsertGRPC ra refs) = (ra_Kind ra = RouteKindGRPCRoute)"
| "op_ok _ = True"

lemma idx_inv_step: "idx_inv r \<Longrightarrow> op_ok op \<Longrightarrow> idx_inv (index_step op r)"
  by (cases op)
    (auto simp: upsertHTTPRoute_def upsertGRPCRoute_def deleteHTTPRoute_def deleteGRPCRoute_def
      route_kind_def Let_def
      intro!: idx_inv_upsert idx_inv_delete idx_inv_applyPolicy idx_inv_removePolicy)

lemma idx_inv_fold: "idx_inv r \<Longrightarrow> list_all op_ok ops \<Longrightarrow> idx_inv (fold index_step ops r)"
  by (induction ops arbitrary: r) (simp_all add: idx_inv_step)

lemma idx_inv_run: "list_all op_ok ops \<Longrightarrow> idx_inv (index_run ops)"
  by (simp add: index_run_def idx_inv_fold idx_inv_new)

section \<open>The abstract index\<close>

text \<open>Each route with the attributes and the Services it declares; nothing else.\<close>

type_synonym spec_index = "string \<rightharpoonup> RouteAttributes \<times> string set"

fun spec_step :: "index_op \<Rightarrow> spec_index \<Rightarrow> spec_index" where
  "spec_step (UpsertHTTP ra refs) a =
     a(routeKey RouteKindHTTPRoute (ra_Namespace ra) (ra_Name ra) \<mapsto> (ra, bref_key ` set refs))"
| "spec_step (UpsertGRPC ra refs) a =
     a(routeKey RouteKindGRPCRoute (ra_Namespace ra) (ra_Name ra) \<mapsto> (ra, bref_key ` set refs))"
| "spec_step (DeleteHTTP ns name) a = a(routeKey RouteKindHTTPRoute ns name := None)"
| "spec_step (DeleteGRPC ns name) a = a(routeKey RouteKindGRPCRoute ns name := None)"
| "spec_step _ a = a"

definition spec_run :: "index_op list \<Rightarrow> spec_index" where
  "spec_run ops = fold spec_step ops Map.empty"

definition refines :: "routeIndex \<Rightarrow> spec_index \<Rightarrow> bool" where
  "refines r a \<longleftrightarrow>
     (\<forall>key. routes r key = map_option fst (a key)) \<and>
     (\<forall>k key. key \<in> owners_of r k \<longleftrightarrow> (\<exists>ra W. a key = Some (ra, W) \<and> k \<in> W))"

lemma refines_new: "refines newRouteIndex Map.empty"
  by (simp add: refines_def newRouteIndex_def owners_of_def get_list_def)

lemma refines_upsert:
  "refines r a \<Longrightarrow>
   refines (reindexBackends key ra refs (r\<lparr>routes := (routes r)(key \<mapsto> ra)\<rparr>))
     (a(key \<mapsto> (ra, bref_key ` set refs)))"
  by (auto simp: refines_def owners_of_reindex)

lemma refines_delete:
  "refines r a \<Longrightarrow>
   refines (dropBackendOwnershipLocked key (r\<lparr>routes := (routes r)(key := None)\<rparr>)) (a(key := None))"
  by (auto simp: refines_def owners_of_dropBackend)

lemma refines_policies: "refines (r\<lparr>policies := pm\<rparr>) a = refines r a"
  by (simp add: refines_def)

lemma refines_step: "refines r a \<Longrightarrow> refines (index_step op r) (spec_step op a)"
  by (cases op)
    (auto simp: upsertHTTPRoute_def upsertGRPCRoute_def deleteHTTPRoute_def deleteGRPCRoute_def
      applyPolicy_def removePolicy_def refines_policies Let_def refines_upsert refines_delete
      split: option.splits)

lemma refines_fold: "refines r a \<Longrightarrow> refines (fold index_step ops r) (fold spec_step ops a)"
  by (induction ops arbitrary: r a) (simp_all add: refines_step)

lemma refines_run: "refines (index_run ops) (spec_run ops)"
  by (simp add: index_run_def spec_run_def refines_fold refines_new)

section \<open>The index as a lookup\<close>

text \<open>The read methods of the index as a value of the interface, without the two optional ones;
  \<open>combinedLookup\<close> adds them.\<close>

definition index_lookup :: "routeIndex \<Rightarrow> RouteLookup" where
  "index_lookup r =
     \<lparr>LookupRoute = idx_LookupRoute r,
      LookupByBackendService = idx_LookupByBackendService r,
      LookupByBackendServiceWithParents = idx_LookupByBackendServiceWithParents r,
      ServiceIPLookup = None, WaypointLookup = None\<rparr>"

lemma overlay_sel [simp]:
  "ra_Kind (overlayPolicies r key ra) = ra_Kind ra"
  "ra_Name (overlayPolicies r key ra) = ra_Name ra"
  "ra_Namespace (overlayPolicies r key ra) = ra_Namespace ra"
  "ra_RouteMode (overlayPolicies r key ra) = ra_RouteMode ra"
  "ra_ParentServiceNamespace (overlayPolicies r key ra) = ra_ParentServiceNamespace ra"
  by (simp_all add: overlayPolicies_def Let_def)

lemma index_single_is_candidate:
  assumes inv: "idx_inv r" and hit: "idx_LookupByBackendService r ns svc = Some ra"
  shows "\<exists>ras. idx_LookupByBackendServiceWithParents r ns svc = Some ras \<and> ra \<in> set ras"
proof -
  let ?k = "nsKey ns svc"
  obtain ra0 where ra0: "backendIndex r ?k = Some ra0"
    and ra: "ra = overlayPolicies r (routeKey (ra_Kind ra0) (ra_Namespace ra0) (ra_Name ra0)) ra0"
    using hit by (auto simp: idx_LookupByBackendService_def split: option.splits)
  then obtain owner where o: "claimedBackends r ?k = Some owner" "routes r owner = Some ra0"
    using idx_invD(4) [OF inv] by blast
  then have "owner \<in> owners_of r ?k" and key: "owner = routeKey (ra_Kind ra0) (ra_Namespace ra0) (ra_Name ra0)"
    using idx_invD(3,6) [OF inv] by blast+
  then have "owner \<in> set (get_list (backendOwners r) ?k)" by (simp add: owners_of_def)
  moreover from this have "get_list (backendOwners r) ?k \<noteq> []" by auto
  moreover have "ra = overlayPolicies r owner (route_or_zero r owner)"
    using o(2) key ra by (simp add: route_or_zero_def)
  ultimately show ?thesis
    by (auto simp: idx_LookupByBackendServiceWithParents_def Let_def)
qed

interpretation index: route_lookup idx_inv index_lookup
proof
  fix r ns svc ra
  assume "idx_inv r" "LookupByBackendService (index_lookup r) ns svc = Some ra"
  then show "\<exists>ras. LookupByBackendServiceWithParents (index_lookup r) ns svc = Some ras \<and> ra \<in> set ras"
    by (simp add: index_lookup_def index_single_is_candidate)
next
  fix r ns svc ras
  assume "LookupByBackendServiceWithParents (index_lookup r) ns svc = Some ras"
  then show "ras \<noteq> []"
    by (auto simp: index_lookup_def idx_LookupByBackendServiceWithParents_def Let_def split: if_splits)
qed

section \<open>What the index promises\<close>

lemma refines_sel:
  assumes "refines r a"
  shows "routes r key = map_option fst (a key)"
    and "key \<in> owners_of r k \<longleftrightarrow> (\<exists>ra W. a key = Some (ra, W) \<and> k \<in> W)"
  using assms by (simp_all add: refines_def)

lemma owner_route: "refines r a \<Longrightarrow> a key = Some (ra, W) \<Longrightarrow> route_or_zero r key = ra"
  by (simp add: route_or_zero_def refines_sel)

lemma owners_empty: "owners_ok r \<Longrightarrow> get_list (backendOwners r) k = [] \<longleftrightarrow> owners_of r k = {}"
  by (simp add: owners_of_def)

lemma withParents_eq:
  assumes "refines r a"
  shows "(case idx_LookupByBackendServiceWithParents r ns svc of None \<Rightarrow> {} | Some ras \<Rightarrow> set ras) =
    {overlayPolicies r key ra | key ra W. a key = Some (ra, W) \<and> nsKey ns svc \<in> W}"
proof -
  let ?owners = "get_list (backendOwners r) (nsKey ns svc)"
  have mem: "key \<in> set ?owners \<longleftrightarrow> (\<exists>ra W. a key = Some (ra, W) \<and> nsKey ns svc \<in> W)" for key
    using refines_sel(2) [OF assms, of key "nsKey ns svc"] by (simp add: owners_of_def)
  have "(case idx_LookupByBackendServiceWithParents r ns svc of None \<Rightarrow> {} | Some ras \<Rightarrow> set ras) =
      (\<lambda>key. overlayPolicies r key (route_or_zero r key)) ` set ?owners"
    by (simp add: idx_LookupByBackendServiceWithParents_def Let_def)
  also have "\<dots> = {overlayPolicies r key ra | key ra W. a key = Some (ra, W) \<and> nsKey ns svc \<in> W}"
    using owner_route [OF assms] by (force simp: image_def Bex_def mem)
  finally show ?thesis .
qed

text \<open>Owner lists stay without duplicates through any history.\<close>

lemma owners_ok_step: "owners_ok r \<Longrightarrow> owners_ok (index_step op r)"
  by (cases op)
    (auto simp: upsertHTTPRoute_def upsertGRPCRoute_def deleteHTTPRoute_def deleteGRPCRoute_def applyPolicy_def
      removePolicy_def Let_def owners_ok_reindex owners_ok_dropBackend split: option.split)

lemma owners_ok_run: "owners_ok (index_run ops)"
proof -
  have "owners_ok r \<Longrightarrow> owners_ok (fold index_step ops r)" for r
    by (induction ops arbitrary: r) (simp_all add: owners_ok_step)
  moreover have "owners_ok newRouteIndex" by (simp add: owners_ok_def newRouteIndex_def)
  ultimately show ?thesis by (simp add: index_run_def)
qed

lemma withParents_list:
  assumes "refines r a" and "owners_ok r"
  shows "\<exists>keys. distinct keys \<and> set keys = {key. \<exists>ra W. a key = Some (ra, W) \<and> nsKey ns svc \<in> W} \<and>
    idx_LookupByBackendServiceWithParents r ns svc =
      (if keys = [] then None else Some (map (\<lambda>key. overlayPolicies r key (fst (the (a key)))) keys))"
proof -
  let ?owners = "get_list (backendOwners r) (nsKey ns svc)"
  have mem: "set ?owners = {key. \<exists>ra W. a key = Some (ra, W) \<and> nsKey ns svc \<in> W}"
    using refines_sel(2) [OF assms(1), of _ "nsKey ns svc"] by (auto simp: owners_of_def)
  moreover have "route_or_zero r key = fst (the (a key))" if "key \<in> set ?owners" for key
    using that owner_route [OF assms(1)] by (auto simp: mem)
  moreover have "distinct ?owners"
    using assms(2) by (auto simp: owners_ok_def get_list_def split: option.split)
  ultimately show ?thesis
    by (intro exI [of _ ?owners]) (simp add: idx_LookupByBackendServiceWithParents_def Let_def)
qed

text \<open>Claim C1. The index is the declared routes: after any history of route and policy events, a
  route is found by kind, namespace and name exactly when its last event declared it, with the
  attributes of that event; the candidates of a Service are exactly the routes whose current
  declaration names it, each of them once and with its current attributes and policies; and there is
  no answer, rather than an empty one, where no route names the Service.\<close>

theorem index_is_declared_routes:
  "idx_LookupRoute (index_run ops) kind ns name =
     map_option (\<lambda>(ra, W). overlayPolicies (index_run ops) (routeKey kind ns name) ra)
       (spec_run ops (routeKey kind ns name))
   \<and> (\<exists>keys. distinct keys \<and> set keys = {key. \<exists>ra W. spec_run ops key = Some (ra, W) \<and> nsKey ns svc \<in> W} \<and>
        idx_LookupByBackendServiceWithParents (index_run ops) ns svc =
          (if keys = [] then None
           else Some (map (\<lambda>key. overlayPolicies (index_run ops) key (fst (the (spec_run ops key)))) keys)))"
proof
  show "idx_LookupRoute (index_run ops) kind ns name =
     map_option (\<lambda>(ra, W). overlayPolicies (index_run ops) (routeKey kind ns name) ra)
       (spec_run ops (routeKey kind ns name))"
    by (auto simp: idx_LookupRoute_def Let_def refines_sel(1) [OF refines_run] split: option.splits)
qed (rule withParents_list [OF refines_run owners_ok_run])

text \<open>Claim C2. No stale single-candidate answer: after any history, when
  \<open>LookupByBackendService\<close> answers, its answer is a route that currently exists, with its current
  attributes and policies, and whose current declaration names that Service; the five maps of the
  index agree with one another.\<close>

theorem single_lookup_never_stale:
  assumes "list_all op_ok ops" and "idx_LookupByBackendService (index_run ops) ns svc = Some ra"
  shows "idx_inv (index_run ops) \<and>
    (\<exists>key ra0 W. spec_run ops key = Some (ra0, W) \<and> nsKey ns svc \<in> W \<and>
       ra = overlayPolicies (index_run ops) key ra0)"
proof
  show inv: "idx_inv (index_run ops)" using assms(1) by (rule idx_inv_run)
  obtain ras where ras: "idx_LookupByBackendServiceWithParents (index_run ops) ns svc = Some ras" "ra \<in> set ras"
    using index_single_is_candidate [OF inv assms(2)] by blast
  with withParents_eq [OF refines_run, of ops ns svc]
  have "ra \<in> {overlayPolicies (index_run ops) key ra | key ra W. spec_run ops key = Some (ra, W) \<and> nsKey ns svc \<in> W}"
    by simp
  then show "\<exists>key ra0 W. spec_run ops key = Some (ra0, W) \<and> nsKey ns svc \<in> W \<and>
       ra = overlayPolicies (index_run ops) key ra0" by blast
qed

text \<open>The Services an event declares for its route, and the route it is about.\<close>

fun op_route :: "index_op \<Rightarrow> string option" where
  "op_route (UpsertHTTP ra refs) = Some (routeKey RouteKindHTTPRoute (ra_Namespace ra) (ra_Name ra))"
| "op_route (UpsertGRPC ra refs) = Some (routeKey RouteKindGRPCRoute (ra_Namespace ra) (ra_Name ra))"
| "op_route (DeleteHTTP ns name) = Some (routeKey RouteKindHTTPRoute ns name)"
| "op_route (DeleteGRPC ns name) = Some (routeKey RouteKindGRPCRoute ns name)"
| "op_route _ = None"

fun op_backends :: "index_op \<Rightarrow> string set" where
  "op_backends (UpsertHTTP ra refs) = bref_key ` set refs"
| "op_backends (UpsertGRPC ra refs) = bref_key ` set refs"
| "op_backends _ = {}"

text \<open>The claim on a Service that only one route ever names.\<close>

definition sole_claim :: "string \<Rightarrow> string \<Rightarrow> routeIndex \<Rightarrow> spec_index \<Rightarrow> bool" where
  "sole_claim K k r a \<longleftrightarrow>
     (case a K of
        Some (ra, W) \<Rightarrow> if k \<in> W then claimedBackends r k = Some K \<and> backendIndex r k = Some ra
                        else claimedBackends r k = None \<and> backendIndex r k = None
      | None \<Rightarrow> claimedBackends r k = None \<and> backendIndex r k = None)"

lemma sole_claim_step:
  assumes "sole_claim K k r a" and "op_route op \<noteq> Some K \<Longrightarrow> k \<notin> op_backends op"
  shows "sole_claim K k (index_step op r) (spec_step op a)"
  using assms
  by (cases op)
    (auto simp: sole_claim_def upsertHTTPRoute_def upsertGRPCRoute_def deleteHTTPRoute_def
      deleteGRPCRoute_def applyPolicy_def removePolicy_def Let_def reindex_simps drop_simps
      split: option.splits if_splits)

lemma sole_claim_run:
  assumes "\<And>op. op \<in> set ops \<Longrightarrow> op_route op \<noteq> Some K \<Longrightarrow> k \<notin> op_backends op"
  shows "sole_claim K k (index_run ops) (spec_run ops)"
  using assms
proof (induction ops rule: rev_induct)
  case Nil
  then show ?case by (simp add: sole_claim_def index_run_def spec_run_def newRouteIndex_def)
next
  case (snoc op ops)
  then have "sole_claim K k (index_step op (index_run ops)) (spec_step op (spec_run ops))"
    by (intro sole_claim_step) simp_all
  then show ?case by (simp add: index_run_def spec_run_def)
qed

text \<open>Claim C3. No lost single-candidate answer: where only one route ever names a Service,
  \<open>LookupByBackendService\<close> gives exactly that route, with its current attributes and policies, for
  as long as its current declaration names the Service, through any number of resyncs, edits,
  deletions and re-creations, and nothing otherwise.\<close>

theorem sole_route_resolves:
  assumes "list_all op_ok ops"
    and "\<forall>op \<in> set ops. op_route op = Some K \<or> nsKey ns svc \<notin> op_backends op"
  shows "idx_LookupByBackendService (index_run ops) ns svc =
    (case spec_run ops K of
       Some (ra, W) \<Rightarrow> if nsKey ns svc \<in> W then Some (overlayPolicies (index_run ops) K ra) else None
     | None \<Rightarrow> None)"
proof -
  have sole: "sole_claim K (nsKey ns svc) (index_run ops) (spec_run ops)"
    using assms(2) by (intro sole_claim_run) blast
  have key: "K = routeKey (ra_Kind ra) (ra_Namespace ra) (ra_Name ra)"
    if "spec_run ops K = Some (ra, W)" for ra W
    using idx_invD(6) [OF idx_inv_run [OF assms(1)], of K ra] refines_sel(1) [OF refines_run, of ops K] that
    by simp
  show ?thesis
    using sole key
    by (auto simp: sole_claim_def idx_LookupByBackendService_def split: option.splits if_splits)
qed

text \<open>The route events neither read nor write the policies.\<close>

lemma policies_frame:
  "drop_claims owner W (r\<lparr>policies := x\<rparr>) = (drop_claims owner W r)\<lparr>policies := x\<rparr>"
  "drop_owner owner W (r\<lparr>policies := x\<rparr>) = (drop_owner owner W r)\<lparr>policies := x\<rparr>"
  "claim_backend owner ra b (r\<lparr>policies := x\<rparr>) = (claim_backend owner ra b r)\<lparr>policies := x\<rparr>"
  by (simp_all add: drop_claims_def drop_owner_def claim_backend_def Let_def)

lemma policies_claims_frame:
  "fold (\<lambda>b. claim_backend owner ra (bref_key b)) refs (r\<lparr>policies := x\<rparr>) =
   (fold (\<lambda>b. claim_backend owner ra (bref_key b)) refs r)\<lparr>policies := x\<rparr>"
  by (induction refs arbitrary: r) (simp_all add: policies_frame)

lemma policies_routes_swap: "r\<lparr>policies := x, routes := y\<rparr> = r\<lparr>routes := y, policies := x\<rparr>"
  by simp

lemma route_op_frame:
  "op_route op \<noteq> None \<Longrightarrow> index_step op (r\<lparr>policies := x\<rparr>) = (index_step op r)\<lparr>policies := x\<rparr>"
  by (cases op)
    (simp_all add: upsertHTTPRoute_def upsertGRPCRoute_def deleteHTTPRoute_def deleteGRPCRoute_def
      reindexBackends_def dropBackendOwnershipLocked_eq policies_claims_frame Let_def
      policies_routes_swap policies_frame)

lemma route_op_policies: "op_route op \<noteq> None \<Longrightarrow> policies (index_step op r) = policies r"
  by (cases op)
    (simp_all add: upsertHTTPRoute_def upsertGRPCRoute_def deleteHTTPRoute_def deleteGRPCRoute_def Let_def)

text \<open>Claim C35. The order of route and policy events does not matter: a policy event and a route
  event commute, so a policy overlays the same route whether it arrives before the route or after it,
  and survives the deletion and re-creation of the route.\<close>

theorem policy_and_route_events_commute:
  assumes "op_route route_op \<noteq> None" and "op_route policy_op = None"
  shows "index_step policy_op (index_step route_op r) = index_step route_op (index_step policy_op r)"
  using assms(2)
  by (cases policy_op)
    (simp_all add: applyPolicy_def removePolicy_def Let_def route_op_policies [OF assms(1)]
      route_op_frame [OF assms(1)] split: option.split)

definition sample_policy :: PolicyRef where
  "sample_policy = \<lparr>pol_Name = ''retry'', pol_Namespace = ''shop'', pol_Kind = ''BackendTrafficPolicy'',
     pol_Group = ''gateway.envoyproxy.io''\<rparr>"

definition sample_route :: "string \<Rightarrow> RouteAttributes" where
  "sample_route name = zero_route\<lparr>ra_Kind := RouteKindHTTPRoute, ra_Namespace := ''shop'', ra_Name := name\<rparr>"

definition cart_backend :: backendRef where
  "cart_backend = \<lparr>bref_Namespace = ''shop'', bref_Name = ''cart''\<rparr>"

lemma sample_route_ok [simp]:
  "op_ok (UpsertHTTP (sample_route name) refs)" "ra_Kind (sample_route name) = RouteKindHTTPRoute"
  "ra_Namespace (sample_route name) = ''shop''" "ra_Name (sample_route name) = name"
  by (simp_all add: sample_route_def)

lemma policy_and_route_events_commute_witness:
  "applyPolicy (upsertHTTPRoute newRouteIndex (sample_route ''a'') []) RouteKindHTTPRoute ''shop'' ''a'' sample_policy =
   upsertHTTPRoute (applyPolicy newRouteIndex RouteKindHTTPRoute ''shop'' ''a'' sample_policy) (sample_route ''a'') []"
  using policy_and_route_events_commute [of "UpsertHTTP (sample_route ''a'') []"
      "ApplyPolicy RouteKindHTTPRoute ''shop'' ''a'' sample_policy" newRouteIndex]
  by simp

lemmas upsert_delete_defs = index_run_def upsertHTTPRoute_def deleteHTTPRoute_def Let_def

lemma sole_route_resolves_witness:
  "idx_LookupByBackendService
     (index_run [UpsertHTTP (sample_route ''a'') [cart_backend], UpsertHTTP (sample_route ''a'') [cart_backend]])
     ''shop'' ''cart'' = Some (sample_route ''a'')"
  using sole_route_resolves [of "[UpsertHTTP (sample_route ''a'') [cart_backend], UpsertHTTP (sample_route ''a'') [cart_backend]]"
      "routeKey RouteKindHTTPRoute ''shop'' ''a''" "''shop''" "''cart''"]
  by (simp add: spec_run_def bref_key_def cart_backend_def overlayPolicies_def get_list_def
      upsert_delete_defs newRouteIndex_def)

lemma single_lookup_never_stale_witness:
  "\<exists>key ra0 W. spec_run [UpsertHTTP (sample_route ''a'') [cart_backend]] key = Some (ra0, W) \<and> nsKey ''shop'' ''cart'' \<in> W"
proof -
  let ?ops = "[UpsertHTTP (sample_route ''a'') [cart_backend]]"
  have "idx_LookupByBackendService (index_run ?ops) ''shop'' ''cart'' = Some (sample_route ''a'')"
    by (simp add: idx_LookupByBackendService_def overlayPolicies_def get_list_def index_reindex bref_key_def
        cart_backend_def upsert_delete_defs newRouteIndex_def)
  from single_lookup_never_stale [OF _ this] show ?thesis by auto
qed

lemma new_index_sel:
  "owners_of newRouteIndex k = {}" "claimedBackends newRouteIndex = Map.empty"
  "backendIndex newRouteIndex = Map.empty" "routes newRouteIndex = Map.empty" "policies newRouteIndex = Map.empty"
  by (simp_all add: newRouteIndex_def owners_of_def get_list_def)

subsection \<open>Histories in which the single-candidate lookup and the owner sets part\<close>

text \<open>Two routes name a Service and the second is deleted: the first is its only owner left, and
  the single-candidate lookup stays empty until the first is resynced.\<close>

definition shared_then_deleted :: "index_op list" where
  "shared_then_deleted = [UpsertHTTP (sample_route ''a'') [cart_backend],
     UpsertHTTP (sample_route ''b'') [cart_backend], DeleteHTTP ''shop'' ''b'']"

lemma survivor_not_resolved_alone:
  "idx_LookupByBackendService (index_run shared_then_deleted) ''shop'' ''cart'' = None \<and>
   owners_of (index_run shared_then_deleted) (nsKey ''shop'' ''cart'') = {routeKey RouteKindHTTPRoute ''shop'' ''a''}"
  by (simp add: shared_then_deleted_def idx_LookupByBackendService_def owners_of_dropBackend
      owners_of_reindex index_dropBackend index_reindex claimed_reindex bref_key_def cart_backend_def
      upsert_delete_defs new_index_sel routeKey_def nsKey_def)

text \<open>Two routes name a Service and the first is resynced: it is answered alone although the other
  still owns the Service too.\<close>

definition shared_then_resynced :: "index_op list" where
  "shared_then_resynced = [UpsertHTTP (sample_route ''a'') [cart_backend],
     UpsertHTTP (sample_route ''b'') [cart_backend], UpsertHTTP (sample_route ''a'') [cart_backend]]"

lemma resync_resolves_shared_service:
  "idx_LookupByBackendService (index_run shared_then_resynced) ''shop'' ''cart'' = Some (sample_route ''a'') \<and>
   owners_of (index_run shared_then_resynced) (nsKey ''shop'' ''cart'') =
     {routeKey RouteKindHTTPRoute ''shop'' ''a'', routeKey RouteKindHTTPRoute ''shop'' ''b''}"
  by (auto simp: shared_then_resynced_def idx_LookupByBackendService_def overlayPolicies_def
      owners_of_reindex index_reindex claimed_reindex bref_key_def cart_backend_def
      upsert_delete_defs new_index_sel get_list_def routeKey_def nsKey_def)

text \<open>The claims remember in which order two routes first named a Service: the same two re-deliveries
  leave no single-candidate answer in one case and the second route in the other, although the index
  holds the same routes with the same owners.\<close>

definition named_in_order :: "string \<Rightarrow> string \<Rightarrow> index_op list" where
  "named_in_order x y =
     [UpsertHTTP (sample_route x) [cart_backend], UpsertHTTP (sample_route y) [cart_backend],
      UpsertHTTP (sample_route ''a'') [cart_backend], UpsertHTTP (sample_route ''b'') [cart_backend]]"

lemma resync_remembers_claim_order:
  "idx_LookupByBackendService (index_run (named_in_order ''a'' ''b'')) ''shop'' ''cart'' = None \<and>
   idx_LookupByBackendService (index_run (named_in_order ''b'' ''a'')) ''shop'' ''cart'' = Some (sample_route ''b'') \<and>
   spec_run (named_in_order ''a'' ''b'') = spec_run (named_in_order ''b'' ''a'')"
proof -
  have "spec_run (named_in_order ''a'' ''b'') = spec_run (named_in_order ''b'' ''a'')"
    by (rule ext) (simp add: spec_run_def named_in_order_def)
  then show ?thesis
    by (simp add: named_in_order_def idx_LookupByBackendService_def overlayPolicies_def get_list_def
        index_reindex claimed_reindex bref_key_def cart_backend_def upsert_delete_defs new_index_sel
        routeKey_def nsKey_def)
qed

end
