(* ===== verification/IPIndexes.thy ===== *)
theory IPIndexes
  imports RouteIndex K8sTypes
begin

text \<open>
  The indexes maintained from Service and EndpointSlice events (\<open>service_informer.go\<close>,
  \<open>endpointslice_informer.go\<close>), the Gateway and GatewayClass stores (\<open>informer.go\<close>), and
  \<open>combinedLookup\<close> (\<open>routes.go\<close>), which glues the indexes into one lookup.

  Two locales carry the shared reasoning: \<open>keyed_store\<close> for the four maps keyed by the name of
  an object, and \<open>ip_claims\<close> for the two indexes in which objects claim IP addresses.
\<close>

section \<open>Stores keyed by name\<close>

datatype ('o, 'i) store_event = SUpsert 'o | SDelete 'i

locale keyed_store =
  fixes key_of :: "'o \<Rightarrow> string" and id_key :: "'i \<Rightarrow> string"
    and entry :: "'o \<Rightarrow> 'v option"
    and upsert :: "'o \<Rightarrow> 's \<Rightarrow> 's" and delete :: "'i \<Rightarrow> 's \<Rightarrow> 's"
    and look :: "'s \<Rightarrow> string \<Rightarrow> 'v option"
  assumes look_upsert: "look (upsert x s) k = (if k = key_of x then entry x else look s k)"
    and look_delete: "look (delete i s) k = (if k = id_key i then None else look s k)"
begin

fun apply_event :: "('o, 'i) store_event \<Rightarrow> 's \<Rightarrow> 's" where
  "apply_event (SUpsert x) s = upsert x s"
| "apply_event (SDelete i) s = delete i s"

fun event_key :: "('o, 'i) store_event \<Rightarrow> string" where
  "event_key (SUpsert x) = key_of x"
| "event_key (SDelete i) = id_key i"

fun event_entry :: "('o, 'i) store_event \<Rightarrow> 'v option" where
  "event_entry (SUpsert x) = entry x"
| "event_entry (SDelete i) = None"

lemma look_event:
  "look (apply_event e s) k = (if k = event_key e then event_entry e else look s k)"
  by (cases e) (simp_all add: look_upsert look_delete)

text \<open>The entry of a key is what the last event about that key left.\<close>

lemma look_run:
  "look (fold apply_event es s) k =
   (case find (\<lambda>e. event_key e = k) (rev es) of Some e \<Rightarrow> event_entry e | None \<Rightarrow> look s k)"
proof (induction es arbitrary: s)
  case Nil
  then show ?case by simp
next
  case (Cons e es)
  show ?case
    by (simp add: Cons look_event find_append split: option.splits)
qed

text \<open>Events about different keys commute.\<close>

lemma look_swap:
  "event_key e \<noteq> event_key e' \<Longrightarrow>
   look (apply_event e (apply_event e' s)) k = look (apply_event e' (apply_event e s)) k"
  by (simp add: look_event)

end

subsection \<open>Gateways and GatewayClasses\<close>

type_synonym gatewayStore = "string \<rightharpoonup> Gateway"
type_synonym gatewayClassStore = "string \<rightharpoonup> GatewayClass"

definition newGatewayStore :: gatewayStore where
  "newGatewayStore = Map.empty"

definition gatewayStore_upsert :: "Gateway \<Rightarrow> gatewayStore \<Rightarrow> gatewayStore" where
  "gatewayStore_upsert gw s = s(nsKey (gw_Namespace gw) (gw_Name gw) \<mapsto> gw)"

definition gatewayStore_get :: "gatewayStore \<Rightarrow> string \<Rightarrow> string \<Rightarrow> Gateway option" where
  "gatewayStore_get s ns name = s (nsKey ns name)"

definition gatewayStore_delete :: "string \<Rightarrow> string \<Rightarrow> gatewayStore \<Rightarrow> gatewayStore" where
  "gatewayStore_delete ns name s = s(nsKey ns name := None)"

definition newGatewayClassStore :: gatewayClassStore where
  "newGatewayClassStore = Map.empty"

definition gatewayClassStore_upsert :: "GatewayClass \<Rightarrow> gatewayClassStore \<Rightarrow> gatewayClassStore" where
  "gatewayClassStore_upsert gc s = s(gc_Name gc \<mapsto> gc)"

definition gatewayClassStore_get :: "gatewayClassStore \<Rightarrow> string \<Rightarrow> GatewayClass option" where
  "gatewayClassStore_get s name = s name"

definition gatewayClassStore_delete :: "string \<Rightarrow> gatewayClassStore \<Rightarrow> gatewayClassStore" where
  "gatewayClassStore_delete name s = s(name := None)"

interpretation gws: keyed_store "\<lambda>gw. nsKey (gw_Namespace gw) (gw_Name gw)" "\<lambda>(ns, name). nsKey ns name"
  Some gatewayStore_upsert "\<lambda>(ns, name). gatewayStore_delete ns name" "\<lambda>s k. s k"
  by unfold_locales (auto simp: gatewayStore_upsert_def gatewayStore_delete_def)

interpretation gcs: keyed_store gc_Name "\<lambda>name. name" Some gatewayClassStore_upsert
  gatewayClassStore_delete "\<lambda>s k. s k"
  by unfold_locales (auto simp: gatewayClassStore_upsert_def gatewayClassStore_delete_def)

subsection \<open>Waypoint labels and Service names\<close>

definition labelUseWaypoint :: string where "labelUseWaypoint = ''istio.io/use-waypoint''"
definition labelUseWaypointNS :: string where
  "labelUseWaypointNS = ''istio.io/use-waypoint-namespace''"
definition useWaypointDisabled :: string where "useWaypointDisabled = ''none''"

text \<open>Reading a missing label gives the empty string.\<close>

definition label :: "(string \<rightharpoonup> string) \<Rightarrow> string \<Rightarrow> string" where
  "label m k = (case m k of Some v \<Rightarrow> v | None \<Rightarrow> '''')"

definition svc_key :: "Service \<Rightarrow> string" where
  "svc_key svc = nsKey (svc_Namespace svc) (svc_Name svc)"

type_synonym waypointIndex = "string \<rightharpoonup> waypointInfo"

definition newWaypointIndex :: waypointIndex where
  "newWaypointIndex = Map.empty"

definition waypointIndex_LookupWaypointForService ::
  "waypointIndex \<Rightarrow> string \<Rightarrow> string \<Rightarrow> (string \<times> string \<times> string) option"
where
  "waypointIndex_LookupWaypointForService w ns name =
     (case w (nsKey ns name) of
        None \<Rightarrow> None
      | Some wi \<Rightarrow> Some (wi_Implementation wi, wi_Name wi, wi_Namespace wi))"

text \<open>A nil Service is \<open>None\<close>.\<close>

definition waypointIndex_upsertService :: "Service option \<Rightarrow> waypointIndex \<Rightarrow> waypointIndex" where
  "waypointIndex_upsertService so w =
     (case so of
        None \<Rightarrow> w
      | Some svc \<Rightarrow>
          let key = nsKey (svc_Namespace svc) (svc_Name svc);
              wp = label (svc_Labels svc) labelUseWaypoint in
          if wp = '''' \<or> wp = useWaypointDisabled then w(key := None)
          else let wpNS = label (svc_Labels svc) labelUseWaypointNS;
                   wpNS' = (if wpNS = '''' then svc_Namespace svc else wpNS) in
            w(key \<mapsto> \<lparr>wi_Implementation = WaypointImplIstioAmbient, wi_Name = wp, wi_Namespace = wpNS'\<rparr>))"

definition waypointIndex_deleteService :: "string \<Rightarrow> string \<Rightarrow> waypointIndex \<Rightarrow> waypointIndex" where
  "waypointIndex_deleteService ns name w = w(nsKey ns name := None)"

text \<open>The waypoint a Service selects, read off its labels.\<close>

definition waypoint_of :: "Service \<Rightarrow> waypointInfo option" where
  "waypoint_of svc =
     (let wp = label (svc_Labels svc) labelUseWaypoint in
      if wp \<in> {'''', useWaypointDisabled} then None
      else Some \<lparr>wi_Implementation = WaypointImplIstioAmbient, wi_Name = wp,
        wi_Namespace = (if label (svc_Labels svc) labelUseWaypointNS = '''' then svc_Namespace svc
          else label (svc_Labels svc) labelUseWaypointNS)\<rparr>)"

interpretation wps: keyed_store svc_key "\<lambda>(ns, name). nsKey ns name" waypoint_of
  "\<lambda>svc. waypointIndex_upsertService (Some svc)" "\<lambda>(ns, name). waypointIndex_deleteService ns name"
  "\<lambda>s k. s k"
  by unfold_locales
    (auto simp: waypointIndex_upsertService_def waypointIndex_deleteService_def waypoint_of_def
      svc_key_def Let_def)

type_synonym serviceNameIndex = "string \<rightharpoonup> unit"

definition newServiceNameIndex :: serviceNameIndex where
  "newServiceNameIndex = Map.empty"

text \<open>The receiver may be nil.\<close>

definition serviceNameIndex_Exists :: "serviceNameIndex option \<Rightarrow> string \<Rightarrow> string \<Rightarrow> bool" where
  "serviceNameIndex_Exists so ns name =
     (case so of None \<Rightarrow> False | Some s \<Rightarrow> s (nsKey ns name) \<noteq> None)"

definition serviceNameIndex_upsertService :: "Service option \<Rightarrow> serviceNameIndex \<Rightarrow> serviceNameIndex" where
  "serviceNameIndex_upsertService so s =
     (case so of None \<Rightarrow> s | Some svc \<Rightarrow> s(nsKey (svc_Namespace svc) (svc_Name svc) \<mapsto> ()))"

definition serviceNameIndex_deleteService :: "string \<Rightarrow> string \<Rightarrow> serviceNameIndex \<Rightarrow> serviceNameIndex" where
  "serviceNameIndex_deleteService ns name s = s(nsKey ns name := None)"

interpretation names: keyed_store svc_key "\<lambda>(ns, name). nsKey ns name" "\<lambda>svc. Some ()"
  "\<lambda>svc. serviceNameIndex_upsertService (Some svc)" "\<lambda>(ns, name). serviceNameIndex_deleteService ns name"
  "\<lambda>s k. s k"
  by unfold_locales
    (auto simp: serviceNameIndex_upsertService_def serviceNameIndex_deleteService_def svc_key_def)

section \<open>Indexes of claimed IP addresses\<close>

record claimIndex =
  ci_m :: "string \<rightharpoonup> nsName"
  ci_owner :: "string \<rightharpoonup> string"

type_synonym serviceIPIndex = claimIndex
type_synonym podIPIndex = claimIndex

definition newServiceIPIndex :: serviceIPIndex where
  "newServiceIPIndex = \<lparr>ci_m = Map.empty, ci_owner = Map.empty\<rparr>"

definition newPodIPIndex :: podIPIndex where
  "newPodIPIndex = \<lparr>ci_m = Map.empty, ci_owner = Map.empty\<rparr>"

definition serviceIPIndex_LookupServiceByIP :: "serviceIPIndex \<Rightarrow> string \<Rightarrow> (string \<times> string) option" where
  "serviceIPIndex_LookupServiceByIP s ip =
     (if ip = '''' then None
      else let canon = canonicalIP ip in
        if canon = '''' then None
        else map_option nsName_pair (ci_m s canon))"

definition LookupPodIP :: "podIPIndex \<Rightarrow> podIPLookup" where
  "LookupPodIP p ip =
     (if ip = '''' then None
      else let canon = canonicalIP ip in
        if canon = '''' then None
        else map_option nsName_pair (ci_m p canon))"

text \<open>The loop that withdraws the claims of an owner outside of \<open>want\<close>.\<close>

definition withdraw :: "string \<Rightarrow> string set \<Rightarrow> claimIndex \<Rightarrow> claimIndex" where
  "withdraw owner want s =
     \<lparr>ci_m = map_drop (\<lambda>ip _. ci_owner s ip = Some owner \<and> ip \<notin> want) (ci_m s),
      ci_owner = map_drop (\<lambda>ip claim. claim = owner \<and> ip \<notin> want) (ci_owner s)\<rparr>"

text \<open>Taking a claim, and dropping an entry altogether.\<close>

definition take_claim :: "string \<Rightarrow> nsName \<Rightarrow> string \<Rightarrow> claimIndex \<Rightarrow> claimIndex" where
  "take_claim owner v ip s = s\<lparr>ci_owner := (ci_owner s)(ip \<mapsto> owner), ci_m := (ci_m s)(ip \<mapsto> v)\<rparr>"

definition drop_entry :: "string \<Rightarrow> claimIndex \<Rightarrow> claimIndex" where
  "drop_entry ip s = s\<lparr>ci_owner := (ci_owner s)(ip := None), ci_m := (ci_m s)(ip := None)\<rparr>"

definition ClusterIPNone :: string where "ClusterIPNone = ''None''"

text \<open>A set built by insertion: a list without duplicates.\<close>

definition add_ip :: "string list \<Rightarrow> string \<Rightarrow> string list" where
  "add_ip out raw =
     (if raw = '''' \<or> raw = ClusterIPNone then out
      else let canon = canonicalIP raw in
        if canon = '''' then out else List.insert canon out)"

definition serviceIPSet :: "Service \<Rightarrow> string list" where
  "serviceIPSet svc = foldl add_ip (add_ip [] (svc_ClusterIP svc)) (svc_ClusterIPs svc)"

text \<open>One iteration of the claiming loop of \<open>upsertService\<close>: a conflict drops the entry.\<close>

definition claim_service_ip :: "string \<Rightarrow> nsName \<Rightarrow> string \<Rightarrow> serviceIPIndex \<Rightarrow> serviceIPIndex" where
  "claim_service_ip owner v ip s =
     (if (case ci_owner s ip of Some existing \<Rightarrow> existing \<noteq> owner | None \<Rightarrow> False)
      then drop_entry ip s else take_claim owner v ip s)"

definition serviceIPIndex_upsertService :: "Service option \<Rightarrow> serviceIPIndex \<Rightarrow> serviceIPIndex" where
  "serviceIPIndex_upsertService so s =
     (case so of
        None \<Rightarrow> s
      | Some svc \<Rightarrow>
          let want = serviceIPSet svc; owner = nsKey (svc_Namespace svc) (svc_Name svc) in
          fold (claim_service_ip owner \<lparr>nn_Namespace = svc_Namespace svc, nn_Name = svc_Name svc\<rparr>) want
            (withdraw owner (set want) s))"

definition serviceIPIndex_deleteService :: "string \<Rightarrow> string \<Rightarrow> serviceIPIndex \<Rightarrow> serviceIPIndex" where
  "serviceIPIndex_deleteService ns name s = withdraw (nsKey ns name) {} s"

definition AddressTypeIPv4 :: string where "AddressTypeIPv4 = ''IPv4''"
definition AddressTypeIPv6 :: string where "AddressTypeIPv6 = ''IPv6''"
definition LabelServiceName :: string where "LabelServiceName = ''kubernetes.io/service-name''"

definition add_address :: "string list \<Rightarrow> string \<Rightarrow> string list" where
  "add_address out raw =
     (let canon = canonicalIP raw in if canon = '''' then out else List.insert canon out)"

definition add_endpoint :: "string list \<Rightarrow> Endpoint \<Rightarrow> string list" where
  "add_endpoint out ep = (if ep_Ready ep = Some False then out else foldl add_address out (ep_Addresses ep))"

definition endpointSliceIPSet :: "EndpointSlice \<Rightarrow> string list" where
  "endpointSliceIPSet es =
     (if es_AddressType es \<noteq> AddressTypeIPv4 \<and> es_AddressType es \<noteq> AddressTypeIPv6 then []
      else foldl add_endpoint [] (es_Endpoints es))"

definition serviceOwnerOf :: "EndpointSlice \<Rightarrow> string" where
  "serviceOwnerOf es =
     (case es_Labels es LabelServiceName of
        Some v \<Rightarrow> if v \<noteq> '''' then v else
          (case find (\<lambda>ref. or_Kind ref = ''Service'' \<and> or_Name ref \<noteq> '''') (es_OwnerReferences es) of
             Some ref \<Rightarrow> or_Name ref | None \<Rightarrow> '''')
      | None \<Rightarrow>
          (case find (\<lambda>ref. or_Kind ref = ''Service'' \<and> or_Name ref \<noteq> '''') (es_OwnerReferences es) of
             Some ref \<Rightarrow> or_Name ref | None \<Rightarrow> ''''))"

definition upsertEndpointSlice :: "EndpointSlice option \<Rightarrow> podIPIndex \<Rightarrow> podIPIndex" where
  "upsertEndpointSlice eso p =
     (case eso of
        None \<Rightarrow> p
      | Some es \<Rightarrow>
          let owner = nsKey (es_Namespace es) (es_Name es);
              svc = serviceOwnerOf es;
              want = (if svc \<noteq> '''' then endpointSliceIPSet es else []);
              p1 = withdraw owner (set want) p
          in if svc = '''' \<or> length want = 0 then p1
             else fold (take_claim owner \<lparr>nn_Namespace = es_Namespace es, nn_Name = svc\<rparr>) want p1)"

definition deleteEndpointSlice :: "string \<Rightarrow> string \<Rightarrow> podIPIndex \<Rightarrow> podIPIndex" where
  "deleteEndpointSlice ns name p = withdraw (nsKey ns name) {} p"

subsection \<open>What the loops compute\<close>

text \<open>The claim on an address: the claiming object and the Service it stands for.\<close>

definition claim_at :: "claimIndex \<Rightarrow> string \<Rightarrow> (string \<times> nsName) option" where
  "claim_at s ip =
     (case ci_owner s ip of
        None \<Rightarrow> None
      | Some owner \<Rightarrow> map_option (\<lambda>v. (owner, v)) (ci_m s ip))"

text \<open>Both maps have an entry for the same addresses.\<close>

definition claim_inv :: "claimIndex \<Rightarrow> bool" where
  "claim_inv s \<longleftrightarrow> (\<forall>ip. ci_owner s ip = None \<longleftrightarrow> ci_m s ip = None)"

lemma claim_invD: "claim_inv s \<Longrightarrow> ci_owner s ip = None \<longleftrightarrow> ci_m s ip = None"
  by (simp add: claim_inv_def)

lemma claim_at_lookup: "claim_inv s \<Longrightarrow> ci_m s ip = map_option snd (claim_at s ip)"
  using claim_invD [of s ip]
  by (cases "ci_owner s ip"; cases "ci_m s ip") (simp_all add: claim_at_def)

lemma withdraw_sel:
  "ci_owner (withdraw owner W s) ip =
   (if ci_owner s ip = Some owner \<and> ip \<notin> W then None else ci_owner s ip)"
  "ci_m (withdraw owner W s) ip =
   (if ci_owner s ip = Some owner \<and> ip \<notin> W then None else ci_m s ip)"
  by (auto simp: withdraw_def map_drop_def split: option.splits)

lemma claim_inv_withdraw: "claim_inv s \<Longrightarrow> claim_inv (withdraw owner W s)"
  by (simp add: claim_inv_def withdraw_sel)

lemma claim_inv_claim: "claim_inv s \<Longrightarrow> claim_inv (claim_service_ip owner v ip s)"
  by (simp add: claim_inv_def claim_service_ip_def drop_entry_def take_claim_def)

lemma claim_inv_take: "claim_inv s \<Longrightarrow> claim_inv (take_claim owner v ip s)"
  by (simp add: claim_inv_def take_claim_def)

lemma claim_inv_claims: "claim_inv s \<Longrightarrow> claim_inv (fold (claim_service_ip owner v) ips s)"
  by (induction ips arbitrary: s) (simp_all add: claim_inv_claim)

lemma claim_inv_takes: "claim_inv s \<Longrightarrow> claim_inv (fold (take_claim owner v) ips s)"
  by (induction ips arbitrary: s) (simp_all add: claim_inv_take)

lemma claim_inv_new: "claim_inv \<lparr>ci_m = Map.empty, ci_owner = Map.empty\<rparr>"
  by (simp add: claim_inv_def)

lemma claim_at_withdraw:
  "claim_at (withdraw owner W s) ip =
   (if ci_owner s ip = Some owner \<and> ip \<notin> W then None else claim_at s ip)"
  by (auto simp: claim_at_def withdraw_sel split: option.splits)

lemma claim_at_delete:
  "claim_at (withdraw owner {} s) ip =
   (case claim_at s ip of None \<Rightarrow> None | Some (k, v) \<Rightarrow> if k = owner then None else Some (k, v))"
  by (cases "ci_owner s ip"; cases "ci_m s ip") (simp_all add: claim_at_def withdraw_sel)

text \<open>A Service takes the addresses nobody else holds, and voids the others.\<close>

lemma claim_at_claim:
  "claim_at (claim_service_ip owner v ip' s) ip =
   (if ip \<noteq> ip' then claim_at s ip
    else if ci_owner s ip \<in> {None, Some owner} then Some (owner, v) else None)"
  by (auto simp: claim_at_def claim_service_ip_def drop_entry_def take_claim_def split: option.splits)

lemma owner_claim:
  "ci_owner (claim_service_ip owner v ip' s) ip =
   (if ip \<noteq> ip' then ci_owner s ip
    else if ci_owner s ip \<in> {None, Some owner} then Some owner else None)"
  by (auto simp: claim_service_ip_def drop_entry_def take_claim_def split: option.splits)

lemma claim_at_claims:
  "distinct ips \<Longrightarrow>
   claim_at (fold (claim_service_ip owner v) ips s) ip =
   (if ip \<notin> set ips then claim_at s ip
    else if ci_owner s ip \<in> {None, Some owner} then Some (owner, v) else None)"
proof (induction ips arbitrary: s)
  case Nil
  then show ?case by simp
next
  case (Cons ip' ips)
  then show ?case by (auto simp: claim_at_claim owner_claim)
qed

text \<open>An EndpointSlice takes every address it lists.\<close>

lemma claim_at_take:
  "claim_at (take_claim owner v ip' s) ip = (if ip = ip' then Some (owner, v) else claim_at s ip)"
  by (auto simp: claim_at_def take_claim_def split: option.splits)

lemma claim_at_takes:
  "claim_at (fold (take_claim owner v) ips s) ip =
   (if ip \<in> set ips then Some (owner, v) else claim_at s ip)"
  by (induction ips arbitrary: s) (simp_all add: claim_at_take)

lemma distinct_serviceIPSet: "distinct (serviceIPSet svc)"
proof -
  have "distinct out \<Longrightarrow> distinct (foldl add_ip out raws)" for out raws
    by (induction raws arbitrary: out) (simp_all add: add_ip_def Let_def)
  then show ?thesis by (simp add: serviceIPSet_def add_ip_def Let_def)
qed

text \<open>Every address in the two sets is in canonical form and comes from the object.\<close>

definition service_raw_ips :: "Service \<Rightarrow> string set" where
  "service_raw_ips svc = insert (svc_ClusterIP svc) (set (svc_ClusterIPs svc))"

lemma add_ip_set:
  "set (add_ip out raw) = set out \<union> (if raw \<in> {'''', ClusterIPNone} then {} else {canonicalIP raw} - {''''})"
  by (auto simp: add_ip_def Let_def)

lemma set_foldl_add_ip:
  "set (foldl add_ip out raws) = set out \<union> (canonicalIP ` (set raws - {'''', ClusterIPNone}) - {''''})"
  by (induction raws arbitrary: out) (auto simp: add_ip_set)

lemma set_serviceIPSet:
  "set (serviceIPSet svc) = canonicalIP ` (service_raw_ips svc - {'''', ClusterIPNone}) - {''''}"
  by (auto simp: serviceIPSet_def set_foldl_add_ip add_ip_set service_raw_ips_def)

definition slice_raw_ips :: "EndpointSlice \<Rightarrow> string set" where
  "slice_raw_ips es =
     (if es_AddressType es \<in> {AddressTypeIPv4, AddressTypeIPv6}
      then \<Union> ((\<lambda>ep. set (ep_Addresses ep)) ` {ep \<in> set (es_Endpoints es). ep_Ready ep \<noteq> Some False})
      else {})"

lemma set_foldl_add_address:
  "set (foldl add_address out raws) = set out \<union> (canonicalIP ` set raws - {''''})"
  by (induction raws arbitrary: out) (auto simp: add_address_def Let_def)

lemma set_foldl_add_endpoint:
  "set (foldl add_endpoint out eps) =
   set out \<union> (canonicalIP ` (\<Union> ((\<lambda>ep. set (ep_Addresses ep)) ` {ep \<in> set eps. ep_Ready ep \<noteq> Some False})) - {''''})"
  by (induction eps arbitrary: out) (auto simp: add_endpoint_def set_foldl_add_address)

lemma set_endpointSliceIPSet: "set (endpointSliceIPSet es) = canonicalIP ` slice_raw_ips es - {''''}"
  by (auto simp: endpointSliceIPSet_def slice_raw_ips_def set_foldl_add_endpoint)

subsection \<open>Claims over a history of events\<close>

text \<open>Both indexes: a claim comes from the last revision of its owner, and an address nobody
  else holds goes to the object that asks for it.\<close>

locale ip_claims = 
  fixes invar :: "'s \<Rightarrow> bool" and new :: 's
    and upsert :: "'o \<Rightarrow> 's \<Rightarrow> 's" and delete :: "'i \<Rightarrow> 's \<Rightarrow> 's"
    and claim :: "'s \<Rightarrow> string \<Rightarrow> (string \<times> nsName) option"
    and key_of :: "'o \<Rightarrow> string" and id_key :: "'i \<Rightarrow> string"
    and want :: "'o \<Rightarrow> string set" and val :: "'o \<Rightarrow> nsName"
  assumes invar_new: "invar new"
    and invar_upsert: "invar s \<Longrightarrow> invar (upsert x s)"
    and invar_delete: "invar s \<Longrightarrow> invar (delete i s)"
    and claim_new: "claim new ip = None"
    and claim_delete: "claim (delete i s) ip =
          (case claim s ip of None \<Rightarrow> None | Some (k, v) \<Rightarrow> if k = id_key i then None else Some (k, v))"
    and claim_upsert: "claim (upsert x s) ip = Some (k, v) \<Longrightarrow>
          k = key_of x \<and> v = val x \<and> ip \<in> want x \<or> k \<noteq> key_of x \<and> claim s ip = Some (k, v)"
    and claim_free: "invar s \<Longrightarrow> ip \<in> want x \<Longrightarrow>
          claim s ip = None \<or> (\<exists>v. claim s ip = Some (key_of x, v)) \<Longrightarrow>
          claim (upsert x s) ip = Some (key_of x, val x)"
    and claim_keep: "ip \<notin> want x \<Longrightarrow> claim s ip = Some (k, v) \<Longrightarrow> k \<noteq> key_of x \<Longrightarrow>
          claim (upsert x s) ip = Some (k, v)"
begin

fun on_event :: "('o, 'i) store_event \<Rightarrow> 's \<Rightarrow> 's" where
  "on_event (SUpsert x) s = upsert x s"
| "on_event (SDelete i) s = delete i s"

fun owner_of_event :: "('o, 'i) store_event \<Rightarrow> string" where
  "owner_of_event (SUpsert x) = key_of x"
| "owner_of_event (SDelete i) = id_key i"

fun wanted_by :: "('o, 'i) store_event \<Rightarrow> string set" where
  "wanted_by (SUpsert x) = want x"
| "wanted_by (SDelete i) = {}"

fun value_of_event :: "('o, 'i) store_event \<Rightarrow> nsName option" where
  "value_of_event (SUpsert x) = Some (val x)"
| "value_of_event (SDelete i) = None"

definition run :: "('o, 'i) store_event list \<Rightarrow> 's" where
  "run es = fold on_event es new"

lemma run_snoc: "run (es @ [e]) = on_event e (run es)"
  by (simp add: run_def)

lemma invar_run: "invar (run es)"
proof (induction es rule: rev_induct)
  case Nil
  then show ?case by (simp add: run_def invar_new)
next
  case (snoc e es)
  then show ?case by (cases e) (simp_all add: run_snoc invar_upsert invar_delete)
qed

text \<open>No stale claim: the last event about the claiming object is a revision that has the
  address, and the claim carries that revision's value.\<close>

lemma claim_run:
  "claim (run es) ip = Some (k, v) \<Longrightarrow>
   \<exists>e. find (\<lambda>e. owner_of_event e = k) (rev es) = Some e \<and> ip \<in> wanted_by e \<and> value_of_event e = Some v"
proof (induction es rule: rev_induct)
  case Nil
  then show ?case by (simp add: run_def claim_new)
next
  case (snoc e es)
  show ?case
  proof (cases e)
    case (SUpsert x)
    with snoc.prems have "claim (upsert x (run es)) ip = Some (k, v)" by (simp add: run_snoc)
    from claim_upsert [OF this] show ?thesis using snoc.IH SUpsert by auto
  next
    case (SDelete i)
    with snoc.prems have "claim (run es) ip = Some (k, v)" "k \<noteq> id_key i"
      by (auto simp: run_snoc claim_delete split: option.splits if_splits)
    then show ?thesis using snoc.IH SDelete by auto
  qed
qed

text \<open>No lost claim: where no other object ever asks for the address, the index gives exactly
  what the last revision of the owner says.\<close>

lemma claim_undisputed:
  assumes "\<And>e. e \<in> set es \<Longrightarrow> owner_of_event e \<noteq> k \<Longrightarrow> ip \<notin> wanted_by e"
  shows "claim (run es) ip =
    (case find (\<lambda>e. owner_of_event e = k) (rev es) of
       None \<Rightarrow> None
     | Some e \<Rightarrow> if ip \<in> wanted_by e then map_option (Pair k) (value_of_event e) else None)"
  using assms
proof (induction es rule: rev_induct)
  case Nil
  then show ?case by (simp add: run_def claim_new)
next
  case (snoc e es)
  then have IH: "claim (run es) ip = (case find (\<lambda>e. owner_of_event e = k) (rev es) of
       None \<Rightarrow> None
     | Some e \<Rightarrow> if ip \<in> wanted_by e then map_option (Pair k) (value_of_event e) else None)"
    by simp
  have own: "fst (the (claim (run es) ip)) = k" if "claim (run es) ip \<noteq> None"
    using that unfolding IH by (auto split: option.splits if_splits)
  show ?case
  proof (cases e)
    case (SUpsert x)
    show ?thesis
    proof (cases "key_of x = k")
      case True
      have "claim (upsert x (run es)) ip = (if ip \<in> want x then Some (k, val x) else None)"
      proof (cases "ip \<in> want x")
        case w: True
        have "claim (run es) ip = None \<or> (\<exists>v. claim (run es) ip = Some (key_of x, v))"
          using own True by (cases "claim (run es) ip") auto
        from claim_free [OF invar_run w this] show ?thesis using w True by simp
      next
        case w: False
        have False if "claim (upsert x (run es)) ip = Some kv" for kv
          using claim_upsert [of x "run es" ip "fst kv" "snd kv"] that own w True by auto
        then show ?thesis using w by (cases "claim (upsert x (run es)) ip") auto
      qed
      then show ?thesis using SUpsert True by (simp add: run_snoc)
    next
      case False
      then have nw: "ip \<notin> want x" using snoc.prems [of e] SUpsert by simp
      have "claim (upsert x (run es)) ip = claim (run es) ip"
      proof (cases "claim (run es) ip")
        case None
        then show ?thesis
          using claim_upsert [of x "run es" ip] nw by (cases "claim (upsert x (run es)) ip") auto
      next
        case (Some kv)
        then show ?thesis using claim_keep [OF nw, of "run es" "fst kv" "snd kv"] own False by auto
      qed
      then show ?thesis using SUpsert False IH by (simp add: run_snoc)
    qed
  next
    case (SDelete i)
    have "claim (delete i (run es)) ip = (if id_key i = k then None else claim (run es) ip)"
      using own by (auto simp: claim_delete split: option.splits)
    then show ?thesis using SDelete IH by (simp add: run_snoc)
  qed
qed

end

definition service_want :: "Service \<Rightarrow> string set" where
  "service_want svc = set (serviceIPSet svc)"

definition slice_key :: "EndpointSlice \<Rightarrow> string" where
  "slice_key es = nsKey (es_Namespace es) (es_Name es)"

definition slice_want :: "EndpointSlice \<Rightarrow> string set" where
  "slice_want es = (if serviceOwnerOf es = '''' then {} else set (endpointSliceIPSet es))"

lemma claim_at_None: "claim_inv s \<Longrightarrow> claim_at s ip = None \<Longrightarrow> ci_owner s ip = None"
  using claim_invD [of s ip] by (auto simp: claim_at_def split: option.splits)

lemma claim_at_owner: "claim_at s ip = Some (k, v) \<Longrightarrow> ci_owner s ip = Some k"
  by (auto simp: claim_at_def split: option.splits)

lemma claim_at_upsertService:
  "claim_at (serviceIPIndex_upsertService (Some svc) s) ip =
   (if ip \<in> set (serviceIPSet svc)
    then (if ci_owner s ip \<in> {None, Some (svc_key svc)}
          then Some (svc_key svc, \<lparr>nn_Namespace = svc_Namespace svc, nn_Name = svc_Name svc\<rparr>) else None)
    else if ci_owner s ip = Some (svc_key svc) then None else claim_at s ip)"
proof (cases "ip \<in> set (serviceIPSet svc)")
  case True
  then show ?thesis
    by (simp add: serviceIPIndex_upsertService_def Let_def claim_at_claims distinct_serviceIPSet
        withdraw_sel svc_key_def)
next
  case False
  then show ?thesis
    by (auto simp: serviceIPIndex_upsertService_def Let_def claim_at_claims distinct_serviceIPSet
        claim_at_withdraw svc_key_def)
qed

lemma claim_at_upsertEndpointSlice:
  "claim_at (upsertEndpointSlice (Some es) p) ip =
   (if ip \<in> slice_want es
    then Some (slice_key es, \<lparr>nn_Namespace = es_Namespace es, nn_Name = serviceOwnerOf es\<rparr>)
    else if ci_owner p ip = Some (slice_key es) then None else claim_at p ip)"
  by (auto simp: upsertEndpointSlice_def Let_def claim_at_takes claim_at_withdraw slice_want_def
      slice_key_def)

lemma claim_inv_ops:
  assumes "claim_inv s"
  shows "claim_inv (serviceIPIndex_upsertService so s)" "claim_inv (serviceIPIndex_deleteService ns name s)"
    "claim_inv (upsertEndpointSlice eso s)" "claim_inv (deleteEndpointSlice ns name s)"
  using assms
  by (simp_all add: serviceIPIndex_upsertService_def serviceIPIndex_deleteService_def
      upsertEndpointSlice_def deleteEndpointSlice_def claim_inv_claims claim_inv_takes claim_inv_withdraw
      Let_def split: option.split)

interpretation sip: ip_claims claim_inv newServiceIPIndex
  "\<lambda>svc. serviceIPIndex_upsertService (Some svc)" "\<lambda>(ns, name). serviceIPIndex_deleteService ns name"
  claim_at svc_key "\<lambda>(ns, name). nsKey ns name" service_want
  "\<lambda>svc. \<lparr>nn_Namespace = svc_Namespace svc, nn_Name = svc_Name svc\<rparr>"
proof
  show "claim_inv newServiceIPIndex" by (simp add: newServiceIPIndex_def claim_inv_new)
  show "claim_at newServiceIPIndex ip = None" for ip by (simp add: claim_at_def newServiceIPIndex_def)
  show "claim_at ((case i of (ns, name) \<Rightarrow> serviceIPIndex_deleteService ns name) s) ip =
      (case claim_at s ip of None \<Rightarrow> None
       | Some (k, v) \<Rightarrow> if k = (case i of (ns, name) \<Rightarrow> nsKey ns name) then None else Some (k, v))" for i s ip
    by (cases i) (simp add: serviceIPIndex_deleteService_def claim_at_delete split: option.split)
qed (auto simp: claim_inv_ops claim_at_upsertService service_want_def dest: claim_at_owner claim_at_None split: if_splits)

interpretation pip: ip_claims claim_inv newPodIPIndex
  "\<lambda>es. upsertEndpointSlice (Some es)" "\<lambda>(ns, name). deleteEndpointSlice ns name"
  claim_at slice_key "\<lambda>(ns, name). nsKey ns name" slice_want
  "\<lambda>es. \<lparr>nn_Namespace = es_Namespace es, nn_Name = serviceOwnerOf es\<rparr>"
proof
  show "claim_inv newPodIPIndex" by (simp add: newPodIPIndex_def claim_inv_new)
  show "claim_at newPodIPIndex ip = None" for ip by (simp add: claim_at_def newPodIPIndex_def)
  show "claim_at ((case i of (ns, name) \<Rightarrow> deleteEndpointSlice ns name) s) ip =
      (case claim_at s ip of None \<Rightarrow> None
       | Some (k, v) \<Rightarrow> if k = (case i of (ns, name) \<Rightarrow> nsKey ns name) then None else Some (k, v))" for i s ip
    by (cases i) (simp add: deleteEndpointSlice_def claim_at_delete split: option.split)
qed (auto simp: claim_inv_ops claim_at_upsertEndpointSlice dest: claim_at_owner claim_at_None split: if_splits)

section \<open>The combined lookup\<close>

record combinedLookup =
  cl_routes :: routeIndex
  cl_ips :: "serviceIPIndex option"
  cl_pods :: "podIPIndex option"
  cl_waypoints :: "waypointIndex option"

definition combined_LookupServiceByIP :: "combinedLookup \<Rightarrow> serviceIPLookup" where
  "combined_LookupServiceByIP c ip =
     (case (case cl_ips c of None \<Rightarrow> None | Some ips \<Rightarrow> serviceIPIndex_LookupServiceByIP ips ip) of
        Some r \<Rightarrow> Some r
      | None \<Rightarrow> (case cl_pods c of Some pods \<Rightarrow> LookupPodIP pods ip | None \<Rightarrow> None))"

definition combined_LookupWaypointForService ::
  "combinedLookup \<Rightarrow> waypointLookup"
where
  "combined_LookupWaypointForService c ns name =
     (case cl_waypoints c of None \<Rightarrow> None | Some w \<Rightarrow> waypointIndex_LookupWaypointForService w ns name)"

text \<open>A \<open>*combinedLookup\<close> as a value of the interface.\<close>

definition combined_lookup :: "combinedLookup \<Rightarrow> RouteLookup" where
  "combined_lookup c =
     \<lparr>LookupRoute = idx_LookupRoute (cl_routes c),
      LookupByBackendService = idx_LookupByBackendService (cl_routes c),
      LookupByBackendServiceWithParents = idx_LookupByBackendServiceWithParents (cl_routes c),
      ServiceIPLookup = Some (combined_LookupServiceByIP c),
      WaypointLookup = Some (combined_LookupWaypointForService c)\<rparr>"

definition combined_inv :: "combinedLookup \<Rightarrow> bool" where
  "combined_inv c \<longleftrightarrow> idx_inv (cl_routes c) \<and> pred_option claim_inv (cl_ips c) \<and> pred_option claim_inv (cl_pods c)"

interpretation combined: route_lookup combined_inv combined_lookup
proof
  fix c ns svc ra
  assume "combined_inv c" "LookupByBackendService (combined_lookup c) ns svc = Some ra"
  then show "\<exists>ras. LookupByBackendServiceWithParents (combined_lookup c) ns svc = Some ras \<and> ra \<in> set ras"
    using index.single_is_candidate [of "cl_routes c" ns svc ra]
    by (simp add: combined_lookup_def index_lookup_def combined_inv_def)
next
  fix c ns svc ras
  assume "combined_inv c" "LookupByBackendServiceWithParents (combined_lookup c) ns svc = Some ras"
  then show "ras \<noteq> []"
    using index.candidates_nonempty [of "cl_routes c" ns svc ras]
    by (simp add: combined_lookup_def index_lookup_def combined_inv_def)
qed

section \<open>What the address indexes promise\<close>

type_synonym service_event = "(Service, string \<times> string) store_event"
type_synonym slice_event = "(EndpointSlice, string \<times> string) store_event"

fun service_ip_step :: "service_event \<Rightarrow> serviceIPIndex \<Rightarrow> serviceIPIndex" where
  "service_ip_step (SUpsert svc) s = serviceIPIndex_upsertService (Some svc) s"
| "service_ip_step (SDelete i) s = serviceIPIndex_deleteService (fst i) (snd i) s"

fun slice_step :: "slice_event \<Rightarrow> podIPIndex \<Rightarrow> podIPIndex" where
  "slice_step (SUpsert es) p = upsertEndpointSlice (Some es) p"
| "slice_step (SDelete i) p = deleteEndpointSlice (fst i) (snd i) p"

definition service_ip_run :: "service_event list \<Rightarrow> serviceIPIndex" where
  "service_ip_run evs = fold service_ip_step evs newServiceIPIndex"

definition slice_run :: "slice_event list \<Rightarrow> podIPIndex" where
  "slice_run evs = fold slice_step evs newPodIPIndex"

text \<open>The histories of the four stores keyed by name.\<close>

type_synonym gateway_event = "(Gateway, string \<times> string) store_event"
type_synonym class_event = "(GatewayClass, string) store_event"

fun waypoint_step :: "service_event \<Rightarrow> waypointIndex \<Rightarrow> waypointIndex" where
  "waypoint_step (SUpsert svc) w = waypointIndex_upsertService (Some svc) w"
| "waypoint_step (SDelete i) w = waypointIndex_deleteService (fst i) (snd i) w"

fun service_name_step :: "service_event \<Rightarrow> serviceNameIndex \<Rightarrow> serviceNameIndex" where
  "service_name_step (SUpsert svc) s = serviceNameIndex_upsertService (Some svc) s"
| "service_name_step (SDelete i) s = serviceNameIndex_deleteService (fst i) (snd i) s"

fun gateway_step :: "gateway_event \<Rightarrow> gatewayStore \<Rightarrow> gatewayStore" where
  "gateway_step (SUpsert gw) s = gatewayStore_upsert gw s"
| "gateway_step (SDelete i) s = gatewayStore_delete (fst i) (snd i) s"

fun class_step :: "class_event \<Rightarrow> gatewayClassStore \<Rightarrow> gatewayClassStore" where
  "class_step (SUpsert gc) s = gatewayClassStore_upsert gc s"
| "class_step (SDelete name) s = gatewayClassStore_delete name s"

definition waypoint_run :: "service_event list \<Rightarrow> waypointIndex" where
  "waypoint_run evs = fold waypoint_step evs newWaypointIndex"

definition service_name_run :: "service_event list \<Rightarrow> serviceNameIndex" where
  "service_name_run evs = fold service_name_step evs newServiceNameIndex"

definition gateway_run :: "gateway_event list \<Rightarrow> gatewayStore" where
  "gateway_run evs = fold gateway_step evs newGatewayStore"

definition class_run :: "class_event list \<Rightarrow> gatewayClassStore" where
  "class_run evs = fold class_step evs newGatewayClassStore"

text \<open>The object the last event about a key left.\<close>

definition last_object ::
  "('o \<Rightarrow> string) \<Rightarrow> ('i \<Rightarrow> string) \<Rightarrow> ('o, 'i) store_event list \<Rightarrow> string \<Rightarrow> 'o option"
where
  "last_object key_of id_key evs k =
     (case find (\<lambda>e. case e of SUpsert x \<Rightarrow> key_of x = k | SDelete i \<Rightarrow> id_key i = k) (rev evs) of
        Some (SUpsert x) \<Rightarrow> Some x
      | _ \<Rightarrow> None)"

context keyed_store
begin

lemma look_last_object:
  assumes "\<And>k. look s k = None"
  shows "look (fold apply_event es s) k = Option.bind (last_object key_of id_key es k) entry"
proof -
  have "(\<lambda>e. event_key e = k) = (\<lambda>e. case e of SUpsert x \<Rightarrow> key_of x = k | SDelete i \<Rightarrow> id_key i = k)"
    by (rule ext) (simp split: store_event.split)
  then show ?thesis
    by (simp add: look_run last_object_def assms split: option.split store_event.split)
qed

end

lemma store_runs_eq:
  "waypoint_run evs = fold wps.apply_event evs newWaypointIndex"
  "service_name_run evs = fold names.apply_event evs newServiceNameIndex"
  "gateway_run gevs = fold gws.apply_event gevs newGatewayStore"
  "class_run cevs = fold gcs.apply_event cevs newGatewayClassStore"
proof -
  have "waypoint_step e w = wps.apply_event e w" "service_name_step e n = names.apply_event e n" for e w n
    by (cases e; simp add: case_prod_beta)+
  moreover have "gateway_step e g = gws.apply_event e g" for e g
    by (cases e) (simp_all add: case_prod_beta)
  moreover have "class_step e c = gcs.apply_event e c" for e c
    by (cases e) simp_all
  ultimately have "waypoint_step = wps.apply_event" "service_name_step = names.apply_event"
    "gateway_step = gws.apply_event" "class_step = gcs.apply_event"
    by (intro ext, simp)+
  then show "waypoint_run evs = fold wps.apply_event evs newWaypointIndex"
    "service_name_run evs = fold names.apply_event evs newServiceNameIndex"
    "gateway_run gevs = fold gws.apply_event gevs newGatewayStore"
    "class_run cevs = fold gcs.apply_event cevs newGatewayClassStore"
    by (simp_all add: waypoint_run_def service_name_run_def gateway_run_def class_run_def)
qed


lemma service_ip_run_eq: "service_ip_run evs = sip.run evs"
proof -
  have "service_ip_step = sip.on_event"
    by (intro ext) (metis (no_types, lifting) case_prod_beta' service_ip_step.simps sip.on_event.simps store_event.exhaust)
  then show ?thesis by (simp add: service_ip_run_def sip.run_def)
qed

lemma slice_run_eq: "slice_run evs = pip.run evs"
proof -
  have "slice_step = pip.on_event"
    by (intro ext) (metis (no_types, lifting) case_prod_beta' slice_step.simps pip.on_event.simps store_event.exhaust)
  then show ?thesis by (simp add: slice_run_def pip.run_def)
qed

text \<open>The last event about the object with a key, when it is a revision of the object.\<close>

definition current :: "('o \<Rightarrow> string) \<Rightarrow> ('o, string \<times> string) store_event list \<Rightarrow> string \<Rightarrow> 'o option" where
  "current key_of evs k =
     (case find (\<lambda>e. case e of SUpsert x \<Rightarrow> key_of x = k | SDelete i \<Rightarrow> nsKey (fst i) (snd i) = k) (rev evs) of
        Some (SUpsert x) \<Rightarrow> Some x
      | _ \<Rightarrow> None)"

lemma sip_find:
  "(\<lambda>e. sip.owner_of_event e = k) =
   (\<lambda>e. case e of SUpsert x \<Rightarrow> svc_key x = k | SDelete i \<Rightarrow> nsKey (fst i) (snd i) = k)"
  by (rule ext) (auto split: store_event.split)

lemma pip_find:
  "(\<lambda>e. pip.owner_of_event e = k) =
   (\<lambda>e. case e of SUpsert x \<Rightarrow> slice_key x = k | SDelete i \<Rightarrow> nsKey (fst i) (snd i) = k)"
  by (rule ext) (auto split: store_event.split)

text \<open>Both lookups read the claim on the canonical form.\<close>

lemma service_lookup_claim:
  "claim_inv s \<Longrightarrow> serviceIPIndex_LookupServiceByIP s ip =
   (if canonicalIP ip = '''' then None else map_option (nsName_pair \<circ> snd) (claim_at s (canonicalIP ip)))"
  by (simp add: serviceIPIndex_LookupServiceByIP_def Let_def claim_at_lookup option.map_comp)

lemma pod_lookup_claim:
  "claim_inv s \<Longrightarrow> LookupPodIP s ip =
   (if canonicalIP ip = '''' then None else map_option (nsName_pair \<circ> snd) (claim_at s (canonicalIP ip)))"
  by (simp add: LookupPodIP_def Let_def claim_at_lookup option.map_comp)

text \<open>Claim C27. Every address answer is backed by the current state of the cluster: after any
  histories of Service and EndpointSlice events, a Service returned for an IP literal is either the
  answer of the Service index, a Service whose last revision has that IP among its cluster IPs, or,
  only where the Service index has no answer, the Service that owns an EndpointSlice whose last
  revision lists the IP at an endpoint that is not unready; the namespace and the name are those of
  that revision.\<close>

theorem ip_resolution_backed:
  assumes "combined_LookupServiceByIP
      \<lparr>cl_routes = r, cl_ips = Some (service_ip_run sevs), cl_pods = Some (slice_run pevs), cl_waypoints = w\<rparr> ip
    = Some (ns, name)"
  shows "(serviceIPIndex_LookupServiceByIP (service_ip_run sevs) ip = Some (ns, name) \<and>
          (\<exists>svc. current svc_key sevs (nsKey ns name) = Some svc \<and> svc_Namespace svc = ns \<and> svc_Name svc = name \<and>
            canonicalIP ip \<in> canonicalIP ` (service_raw_ips svc - {'''', ''None''}) - {''''}))
    \<or> (serviceIPIndex_LookupServiceByIP (service_ip_run sevs) ip = None \<and>
         (\<exists>k es. current slice_key pevs k = Some es \<and> es_Namespace es = ns \<and> serviceOwnerOf es = name \<and>
            name \<noteq> '''' \<and> canonicalIP ip \<in> canonicalIP ` slice_raw_ips es - {''''}))"
proof (cases "serviceIPIndex_LookupServiceByIP (service_ip_run sevs) ip = Some (ns, name)")
  case True
  then obtain k where "canonicalIP ip \<noteq> ''''"
    "claim_at (service_ip_run sevs) (canonicalIP ip) = Some (k, \<lparr>nn_Namespace = ns, nn_Name = name\<rparr>)"
    by (auto simp: service_ip_run_eq service_lookup_claim sip.invar_run nsName_pair_def split: if_splits)
  from sip.claim_run [OF this(2) [unfolded service_ip_run_eq]] obtain e
    where e: "find (\<lambda>e. sip.owner_of_event e = k) (rev sevs) = Some e" "canonicalIP ip \<in> sip.wanted_by e"
      "sip.value_of_event e = Some \<lparr>nn_Namespace = ns, nn_Name = name\<rparr>" by blast
  moreover from e(1) have "sip.owner_of_event e = k" by (auto simp: find_Some_iff)
  ultimately show ?thesis
    using True
    by (cases e)
      (auto simp: current_def sip_find service_want_def set_serviceIPSet ClusterIPNone_def svc_key_def)
next
  case False
  with assms have none: "serviceIPIndex_LookupServiceByIP (service_ip_run sevs) ip = None"
    and "LookupPodIP (slice_run pevs) ip = Some (ns, name)"
    by (auto simp: combined_LookupServiceByIP_def split: option.splits)
  then obtain k where "canonicalIP ip \<noteq> ''''"
    "claim_at (slice_run pevs) (canonicalIP ip) = Some (k, \<lparr>nn_Namespace = ns, nn_Name = name\<rparr>)"
    by (auto simp: slice_run_eq pod_lookup_claim pip.invar_run nsName_pair_def split: if_splits)
  from pip.claim_run [OF this(2) [unfolded slice_run_eq]] obtain e
    where e: "find (\<lambda>e. pip.owner_of_event e = k) (rev pevs) = Some e" "canonicalIP ip \<in> pip.wanted_by e"
      "pip.value_of_event e = Some \<lparr>nn_Namespace = ns, nn_Name = name\<rparr>" by blast
  then show ?thesis
    using none
    by (cases e)
      (auto simp: current_def pip_find slice_want_def set_endpointSliceIPSet split: if_splits
        intro!: exI [of _ k])
qed

text \<open>Claim C28. A cluster IP is resolved exactly: where no other Service has ever had the address,
  the index answers the Service as long as its last revision has the address, and nothing after the
  address is withdrawn or the Service deleted, however often it is resynced in between.\<close>

theorem service_ip_exact:
  assumes "\<forall>svc. SUpsert svc \<in> set evs \<longrightarrow> svc_key svc = nsKey ns name \<or> canonicalIP ip \<notin> service_want svc"
  shows "serviceIPIndex_LookupServiceByIP (service_ip_run evs) ip =
    (case current svc_key evs (nsKey ns name) of
       Some svc \<Rightarrow> if canonicalIP ip \<in> canonicalIP ` (service_raw_ips svc - {'''', ''None''}) - {''''}
                   then Some (svc_Namespace svc, svc_Name svc) else None
     | None \<Rightarrow> None)"
proof -
  have "canonicalIP ip \<notin> sip.wanted_by e" if "e \<in> set evs" "sip.owner_of_event e \<noteq> nsKey ns name" for e
    using assms that by (cases e) auto
  then have "claim_at (sip.run evs) (canonicalIP ip) =
      (case find (\<lambda>e. sip.owner_of_event e = nsKey ns name) (rev evs) of None \<Rightarrow> None
       | Some e \<Rightarrow> if canonicalIP ip \<in> sip.wanted_by e then map_option (Pair (nsKey ns name)) (sip.value_of_event e) else None)"
    by (rule sip.claim_undisputed)
  then show ?thesis
    by (auto simp: service_ip_run_eq service_lookup_claim sip.invar_run current_def sip_find service_want_def set_serviceIPSet
        ClusterIPNone_def nsName_pair_def split: option.split store_event.split)
qed

text \<open>Claim C29. A Pod IP is resolved exactly: where no other EndpointSlice has ever listed the
  address, the index answers the Service that owns the slice as long as the last revision of the
  slice lists the address at an endpoint that is not unready, and nothing otherwise.\<close>

theorem pod_ip_exact:
  assumes "\<forall>es. SUpsert es \<in> set evs \<longrightarrow> slice_key es = nsKey ns name \<or> canonicalIP ip \<notin> slice_want es"
  shows "LookupPodIP (slice_run evs) ip =
    (case current slice_key evs (nsKey ns name) of
       Some es \<Rightarrow> if serviceOwnerOf es \<noteq> '''' \<and> canonicalIP ip \<in> canonicalIP ` slice_raw_ips es - {''''}
                  then Some (es_Namespace es, serviceOwnerOf es) else None
     | None \<Rightarrow> None)"
proof -
  have "canonicalIP ip \<notin> pip.wanted_by e" if "e \<in> set evs" "pip.owner_of_event e \<noteq> nsKey ns name" for e
    using assms that by (cases e) auto
  then have "claim_at (pip.run evs) (canonicalIP ip) =
      (case find (\<lambda>e. pip.owner_of_event e = nsKey ns name) (rev evs) of None \<Rightarrow> None
       | Some e \<Rightarrow> if canonicalIP ip \<in> pip.wanted_by e then map_option (Pair (nsKey ns name)) (pip.value_of_event e) else None)"
    by (rule pip.claim_undisputed)
  then show ?thesis
    by (auto simp: slice_run_eq pod_lookup_claim pip.invar_run current_def pip_find slice_want_def
        set_endpointSliceIPSet nsName_pair_def split: option.split store_event.split)
qed

subsection \<open>Examples\<close>

definition cart_service :: Service where
  "cart_service = \<lparr>svc_Name = ''cart'', svc_Namespace = ''shop'', svc_Labels = Map.empty,
     svc_ClusterIP = ''10.0.0.1'', svc_ClusterIPs = [''10.0.0.1'']\<rparr>"

definition cart_slice :: EndpointSlice where
  "cart_slice = \<lparr>es_Name = ''cart-x7'', es_Namespace = ''shop'', es_Labels = [LabelServiceName \<mapsto> ''cart''],
     es_OwnerReferences = [], es_AddressType = ''IPv4'',
     es_Endpoints = [\<lparr>ep_Addresses = [''10.1.0.7''], ep_Ready = Some True\<rparr>]\<rparr>"

lemma cart_key: "svc_key cart_service = nsKey ''shop'' ''cart''" "svc_Namespace cart_service = ''shop''"
  "svc_Name cart_service = ''cart''"
  by (simp_all add: svc_key_def cart_service_def)

lemma cart_ips: "canonicalIP ''10.0.0.1'' = ''10.0.0.1''" "canonicalIP ''10.1.0.7'' = ''10.1.0.7''"
  by code_simp+

lemma cart_raw: "''10.0.0.1'' \<in> service_raw_ips cart_service" "''10.1.0.7'' \<in> slice_raw_ips cart_slice"
  by (simp_all add: service_raw_ips_def cart_service_def slice_raw_ips_def cart_slice_def AddressTypeIPv4_def)

lemma cart_ip_mem: "''10.0.0.1'' \<in> canonicalIP ` (service_raw_ips cart_service - {'''', ''None''})"
  using cart_ips(1) cart_raw(1) by (intro image_eqI [of _ _ "''10.0.0.1''"]) simp_all

lemma cart_pod_mem: "''10.1.0.7'' \<in> canonicalIP ` slice_raw_ips cart_slice"
  using cart_ips(2) cart_raw(2) by (intro image_eqI [of _ _ "''10.1.0.7''"]) simp_all

lemma service_ip_exact_witness:
  "serviceIPIndex_LookupServiceByIP (service_ip_run [SUpsert cart_service, SUpsert cart_service]) ''10.0.0.1'' = Some (''shop'', ''cart'') \<and>
   serviceIPIndex_LookupServiceByIP (service_ip_run [SUpsert cart_service, SDelete (''shop'', ''cart'')]) ''10.0.0.1'' = None"
  using service_ip_exact [of "[SUpsert cart_service, SUpsert cart_service]" "''shop''" "''cart''" "''10.0.0.1''"]
    service_ip_exact [of "[SUpsert cart_service, SDelete (''shop'', ''cart'')]" "''shop''" "''cart''" "''10.0.0.1''"]
    cart_ip_mem
  by (simp add: current_def cart_key cart_ips)

lemma pod_ip_exact_witness:
  "LookupPodIP (slice_run [SUpsert cart_slice]) ''10.1.0.7'' = Some (''shop'', ''cart'')"
proof -
  have owner: "serviceOwnerOf cart_slice = ''cart''" "es_Namespace cart_slice = ''shop''" "es_Name cart_slice = ''cart-x7''"
    by (simp_all add: serviceOwnerOf_def cart_slice_def)
  then show ?thesis
    using pod_ip_exact [of "[SUpsert cart_slice]" "''shop''" "''cart-x7''" "''10.1.0.7''"] cart_pod_mem
    by (simp add: current_def slice_key_def cart_ips)
qed

lemma cart_service_ips: "serviceIPSet cart_service = [''10.0.0.1'']"
  by code_simp

lemma ip_resolution_backed_witness:
  "(\<exists>svc. current svc_key [SUpsert cart_service] (nsKey ''shop'' ''cart'') = Some svc \<and> svc_Namespace svc = ''shop'') \<and>
   (\<exists>k es. current slice_key [SUpsert cart_slice] k = Some es \<and> serviceOwnerOf es = ''cart'')"
proof -
  have "combined_LookupServiceByIP \<lparr>cl_routes = newRouteIndex, cl_ips = Some (service_ip_run [SUpsert cart_service]),
      cl_pods = Some (slice_run []), cl_waypoints = None\<rparr> ''10.0.0.1'' = Some (''shop'', ''cart'')"
    by code_simp
  from ip_resolution_backed [OF this] have service: "\<exists>svc. current svc_key [SUpsert cart_service] (nsKey ''shop'' ''cart'') = Some svc
      \<and> svc_Namespace svc = ''shop''"
    by (auto simp: current_def cart_key)
  have "combined_LookupServiceByIP \<lparr>cl_routes = newRouteIndex, cl_ips = Some (service_ip_run []),
      cl_pods = Some (slice_run [SUpsert cart_slice]), cl_waypoints = None\<rparr> ''10.1.0.7'' = Some (''shop'', ''cart'')"
    by code_simp
  moreover have "current svc_key [] k = None" for k by (simp add: current_def)
  ultimately have "\<exists>k es. current slice_key [SUpsert cart_slice] k = Some es \<and> serviceOwnerOf es = ''cart''"
    using ip_resolution_backed [of newRouteIndex "[]" "[SUpsert cart_slice]" None "''10.1.0.7''"] by auto
  with service show ?thesis by blast
qed

text \<open>Two Services with the same address void each other's entry; the claim is forgotten with the
  entry, so the next resync of either of them takes the address although the conflict is still there.\<close>

lemma resync_revives_conflicting_ip:
  "serviceIPIndex_LookupServiceByIP
     (service_ip_run [SUpsert cart_service, SUpsert (cart_service\<lparr>svc_Name := ''copy''\<rparr>)]) ''10.0.0.1'' = None \<and>
   serviceIPIndex_LookupServiceByIP
     (service_ip_run [SUpsert cart_service, SUpsert (cart_service\<lparr>svc_Name := ''copy''\<rparr>),
        SUpsert (cart_service\<lparr>svc_Name := ''copy''\<rparr>)]) ''10.0.0.1'' = Some (''shop'', ''copy'')"
  by code_simp

end
