(* ===== verification/Projection.thy ===== *)
theory Projection
  imports Config IPIndexes
begin

text \<open>
  From Gateway API objects to index entries: the projections of \<open>informer.go\<close>
  (\<open>httpRouteToAttrs\<close>, \<open>grpcRouteToAttrs\<close> and what they call), the nil-Kind parent-Service
  inference of \<open>parent_inference.go\<close>, and the backend references of \<open>index.go\<close>. The counter
  and the debug log of an inference are effects, so \<open>applyParentRef\<close> and the projections
  return, with the attributes, the list of inferences they record.
\<close>

section \<open>Parent references\<close>

definition isServiceParent :: "ParentReference \<Rightarrow> bool" where
  "isServiceParent pr =
     (if pr_Group pr \<noteq> None \<and> pr_Group pr \<noteq> Some '''' then False
      else case pr_Kind pr of None \<Rightarrow> False | Some kind \<Rightarrow> kind = ''Service'')"

definition parentKindOf :: "ParentReference \<Rightarrow> string" where
  "parentKindOf pr =
     (case pr_Kind pr of Some kind \<Rightarrow> if kind \<noteq> '''' then kind else ''Gateway'' | None \<Rightarrow> ''Gateway'')"

text \<open>The namespace of the parent: the route's own when the reference gives none.\<close>

definition parent_ns :: "ParentReference \<Rightarrow> string \<Rightarrow> string" where
  "parent_ns pr ownerNS =
     (case pr_Namespace pr of Some ns \<Rightarrow> if ns \<noteq> '''' then ns else ownerNS | None \<Rightarrow> ownerNS)"

definition formatParentRef :: "ParentReference \<Rightarrow> string \<Rightarrow> string" where
  "formatParentRef pr ownerNS =
     (let kind = (case pr_Kind pr of Some k \<Rightarrow> if k \<noteq> '''' then k else ''Gateway'' | None \<Rightarrow> ''Gateway'');
          group = (if kind = ''Service'' then ''''
                   else case pr_Group pr of Some g \<Rightarrow> g | None \<Rightarrow> ''gateway.networking.k8s.io'');
          ns = (case pr_Namespace pr of Some n \<Rightarrow> if n \<noteq> '''' then n else ownerNS | None \<Rightarrow> ownerNS)
      in group @ ''/'' @ kind @ ''/'' @ ns @ ''/'' @ pr_Name pr)"

section \<open>The nil-Kind inference\<close>

text \<open>What \<open>record\<close> is called with.\<close>

type_synonym inference = "string \<times> string \<times> RouteKind"

text \<open>\<open>gatewaySynced\<close> and \<open>serviceExists\<close> are closures over the informer caches; the record
  holds what they return at the time of the projection. A nil inferrer is \<open>None\<close>.\<close>

record parentInferrer =
  gatewaySynced :: bool
  serviceExists :: "string \<Rightarrow> string \<Rightarrow> bool"

definition isNilKindCoreParent :: "ParentReference \<Rightarrow> bool" where
  "isNilKindCoreParent pr =
     (if pr_Group pr \<noteq> None \<and> pr_Group pr \<noteq> Some '''' then False
      else pr_Kind pr = None \<or> pr_Kind pr = Some '''')"

definition maybeInferServiceParent ::
  "parentInferrer option \<Rightarrow> ParentReference \<Rightarrow> string \<Rightarrow> RouteKind \<Rightarrow> bool \<times> inference list"
where
  "maybeInferServiceParent info pr parentNS kind =
     (case info of
        None \<Rightarrow> (False, [])
      | Some pinf \<Rightarrow>
          if \<not> isNilKindCoreParent pr then (False, [])
          else if \<not> gatewaySynced pinf then (False, [])
          else if \<not> serviceExists pinf parentNS (pr_Name pr) then (False, [])
          else (True, [(parentNS, pr_Name pr, kind)]))"

definition newParentInferrer ::
  "Config \<Rightarrow> bool \<Rightarrow> (string \<Rightarrow> string \<Rightarrow> bool) \<Rightarrow> parentInferrer option"
where
  "newParentInferrer cfg synced exists =
     (if \<not> InferServiceParentEnabled (Mesh cfg) then None
      else Some \<lparr>gatewaySynced = synced, serviceExists = exists\<rparr>)"

section \<open>Projecting a route\<close>

definition classifyRouteRole :: "RouteAttributes \<Rightarrow> string \<Rightarrow> Config \<Rightarrow> RouteAttributes" where
  "classifyRouteRole ra routeNS cfg =
     (if \<not> ClassifyRouteRoleEnabled (Mesh cfg) \<or> ra_ParentServiceNamespace ra = '''' then ra
      else if routeNS = ra_ParentServiceNamespace ra then ra\<lparr>ra_RouteRole := RouteRoleProducer\<rparr>
      else ra\<lparr>ra_RouteRole := RouteRoleConsumer\<rparr>)"

definition applyServiceParent ::
  "RouteAttributes \<Rightarrow> ParentReference \<Rightarrow> string \<Rightarrow> string \<Rightarrow> Config \<Rightarrow> RouteAttributes"
where
  "applyServiceParent ra pr parentNS routeNS cfg =
     (let ra1 = ra\<lparr>ra_RouteMode := RouteModeMesh, ra_ParentServiceName := pr_Name pr,
                   ra_ParentServiceNamespace := parentNS\<rparr>;
          ra2 = (case pr_Port pr of Some p \<Rightarrow> ra1\<lparr>ra_ParentServicePort := p\<rparr> | None \<Rightarrow> ra1)
      in classifyRouteRole ra2 routeNS cfg)"

text \<open>The attributes a Gateway parent contributes: the last part of \<open>applyParentRef\<close>.\<close>

definition applyGatewayParent ::
  "RouteAttributes \<Rightarrow> ParentReference \<Rightarrow> Gateway \<Rightarrow> gatewayClassStore \<Rightarrow> Config \<Rightarrow> RouteAttributes"
where
  "applyGatewayParent ra pr gw gcStore cfg =
     (let ra1 = ra\<lparr>ra_GatewayName := gw_Name gw, ra_GatewayNamespace := gw_Namespace gw,
                   ra_GatewayUID := gw_UID gw\<rparr>;
          ra2 = (case pr_SectionName pr of Some sn \<Rightarrow> ra1\<lparr>ra_GatewayListenerName := sn\<rparr> | None \<Rightarrow> ra1);
          ra3 = ra2\<lparr>ra_GatewayClassName := gw_GatewayClassName gw\<rparr>;
          ra4 = (case gatewayClassStore_get gcStore (ra_GatewayClassName ra3) of
                   Some gc \<Rightarrow> ra3\<lparr>ra_GatewayClassControllerName := gc_ControllerName gc\<rparr> | None \<Rightarrow> ra3);
          impl = waypointImplForClass (Mesh cfg) (ra_GatewayClassName ra4)
      in if impl \<noteq> ''''
         then ra4\<lparr>ra_RouteMode := RouteModeMesh, ra_WaypointImplementation := impl,
                  ra_WaypointName := gw_Name gw, ra_WaypointNamespace := gw_Namespace gw\<rparr>
         else ra4)"

definition applyParentRef ::
  "RouteAttributes \<Rightarrow> ParentReference \<Rightarrow> string \<Rightarrow> gatewayStore \<Rightarrow> gatewayClassStore \<Rightarrow> Config \<Rightarrow>
   parentInferrer option \<Rightarrow> RouteAttributes \<times> inference list"
where
  "applyParentRef ra pr routeNS gwStore gcStore cfg inferrer =
     (let ra1 = ra\<lparr>ra_ParentRef := formatParentRef pr routeNS, ra_ParentKind := parentKindOf pr\<rparr>;
          ns = parent_ns pr routeNS in
      if isServiceParent pr then (applyServiceParent ra1 pr ns routeNS cfg, [])
      else case gatewayStore_get gwStore ns (pr_Name pr) of
        None \<Rightarrow>
          (case maybeInferServiceParent inferrer pr ns (ra_Kind ra1) of
             (True, log) \<Rightarrow>
               (applyServiceParent (ra1\<lparr>ra_ParentKind := ''Service''\<rparr>) pr ns routeNS cfg, log)
           | (False, log) \<Rightarrow> (ra1, log))
      | Some gw \<Rightarrow> (applyGatewayParent ra1 pr gw gcStore cfg, []))"

definition httpRuleNames :: "HTTPRoute \<Rightarrow> string list" where
  "httpRuleNames hr =
     (if length (rt_Rules hr) = 0 then []
      else let names = map (\<lambda>rule. case rule_Name rule of
                              Some n \<Rightarrow> if n \<noteq> '''' then n else '''' | None \<Rightarrow> '''') (rt_Rules hr)
        in if \<not> list_ex (\<lambda>rule. rule_Name rule \<noteq> None \<and> rule_Name rule \<noteq> Some '''') (rt_Rules hr)
           then [] else names)"

definition grpcRuleNames :: "GRPCRoute \<Rightarrow> string list" where
  "grpcRuleNames gr =
     (if length (rt_Rules gr) = 0 then []
      else let names = map (\<lambda>rule. case rule_Name rule of
                              Some n \<Rightarrow> if n \<noteq> '''' then n else '''' | None \<Rightarrow> '''') (rt_Rules gr)
        in if \<not> list_ex (\<lambda>rule. rule_Name rule \<noteq> None \<and> rule_Name rule \<noteq> Some '''') (rt_Rules gr)
           then [] else names)"

definition ConditionTrue :: string where "ConditionTrue = ''True''"

text \<open>The body of the inner loop of \<open>statusFlags\<close>.\<close>

definition status_step :: "bool option \<times> bool option \<Rightarrow> Condition \<Rightarrow> bool option \<times> bool option" where
  "status_step ar c =
     (if cond_Type c = ''Accepted'' then (Some (cond_Status c = ConditionTrue), snd ar)
      else if cond_Type c = ''ResolvedRefs'' then (fst ar, Some (cond_Status c = ConditionTrue))
      else ar)"

definition statusFlags :: "RouteParentStatus list \<Rightarrow> bool option \<times> bool option" where
  "statusFlags parents = foldl (\<lambda>ar ps. foldl status_step ar (rps_Conditions ps)) (None, None) parents"

definition httpRouteToAttrs ::
  "HTTPRoute \<Rightarrow> gatewayStore \<Rightarrow> gatewayClassStore \<Rightarrow> Config \<Rightarrow> parentInferrer option \<Rightarrow>
   RouteAttributes \<times> inference list"
where
  "httpRouteToAttrs hr gwStore gcStore cfg inferrer =
     (let ra = zero_route\<lparr>ra_Kind := RouteKindHTTPRoute, ra_Name := rt_Name hr,
                ra_Namespace := rt_Namespace hr, ra_UID := rt_UID hr, ra_RouteMode := RouteModeIngress\<rparr>;
          (ra1, log) = (case rt_ParentRefs hr of
                          pr # _ \<Rightarrow> applyParentRef ra pr (rt_Namespace hr) gwStore gcStore cfg inferrer
                        | [] \<Rightarrow> (ra, []));
          ra2 = ra1\<lparr>ra_RuleNames := httpRuleNames hr\<rparr>
      in (if EmitStatusConds cfg
          then ra2\<lparr>ra_Accepted := fst (statusFlags (rt_Parents hr)),
                   ra_ResolvedRefs := snd (statusFlags (rt_Parents hr))\<rparr>
          else ra2, log))"

definition grpcRouteToAttrs ::
  "GRPCRoute \<Rightarrow> gatewayStore \<Rightarrow> gatewayClassStore \<Rightarrow> Config \<Rightarrow> parentInferrer option \<Rightarrow>
   RouteAttributes \<times> inference list"
where
  "grpcRouteToAttrs gr gwStore gcStore cfg inferrer =
     (let ra = zero_route\<lparr>ra_Kind := RouteKindGRPCRoute, ra_Name := rt_Name gr,
                ra_Namespace := rt_Namespace gr, ra_UID := rt_UID gr, ra_RouteMode := RouteModeIngress\<rparr>;
          (ra1, log) = (case rt_ParentRefs gr of
                          pr # _ \<Rightarrow> applyParentRef ra pr (rt_Namespace gr) gwStore gcStore cfg inferrer
                        | [] \<Rightarrow> (ra, []));
          ra2 = ra1\<lparr>ra_RuleNames := grpcRuleNames gr\<rparr>
      in (if EmitStatusConds cfg
          then ra2\<lparr>ra_Accepted := fst (statusFlags (rt_Parents gr)),
                   ra_ResolvedRefs := snd (statusFlags (rt_Parents gr))\<rparr>
          else ra2, log))"

section \<open>Backend references\<close>

text \<open>The body of the loop over a rule's backends, and of the loop over the parents.\<close>

definition backend_of_ref :: "string \<Rightarrow> BackendObjectReference \<Rightarrow> backendRef list" where
  "backend_of_ref routeNS ref =
     (if br_Group ref \<noteq> None \<and> br_Group ref \<noteq> Some '''' then []
      else if br_Kind ref \<noteq> None \<and> br_Kind ref \<noteq> Some ''Service'' then []
      else let ns = (case br_Namespace ref of Some n \<Rightarrow> if n \<noteq> '''' then n else routeNS | None \<Rightarrow> routeNS)
        in [\<lparr>bref_Namespace = ns, bref_Name = br_Name ref\<rparr>])"

definition backend_of_parent :: "string \<Rightarrow> ParentReference \<Rightarrow> backendRef list" where
  "backend_of_parent routeNS pr =
     (if \<not> isServiceParent pr then []
      else let ns = (case pr_Namespace pr of Some n \<Rightarrow> if n \<noteq> '''' then n else routeNS | None \<Rightarrow> routeNS)
        in [\<lparr>bref_Namespace = ns, bref_Name = pr_Name pr\<rparr>])"

definition backendRefsFromHTTPRoute :: "HTTPRoute \<Rightarrow> backendRef list" where
  "backendRefsFromHTTPRoute route =
     concat (map (\<lambda>rule. concat (map (backend_of_ref (rt_Namespace route)) (rule_BackendRefs rule)))
              (rt_Rules route))
     @ concat (map (backend_of_parent (rt_Namespace route)) (rt_ParentRefs route))"

definition backendRefsFromGRPCRoute :: "GRPCRoute \<Rightarrow> backendRef list" where
  "backendRefsFromGRPCRoute route =
     concat (map (\<lambda>rule. concat (map (backend_of_ref (rt_Namespace route)) (rule_BackendRefs rule)))
              (rt_Rules route))
     @ concat (map (backend_of_parent (rt_Namespace route)) (rt_ParentRefs route))"

section \<open>Facts about the projections\<close>

lemma parentKindOf_nonempty [simp]: "parentKindOf pr \<noteq> ''''"
  by (simp add: parentKindOf_def split: option.splits)

lemma formatParentRef_eq:
  "formatParentRef pr ns =
   (if parentKindOf pr = ''Service'' then ''''
    else case pr_Group pr of Some g \<Rightarrow> g | None \<Rightarrow> ''gateway.networking.k8s.io'')
   @ ''/'' @ parentKindOf pr @ ''/'' @ nsKey (parent_ns pr ns) (pr_Name pr)"
  by (simp add: formatParentRef_def parentKindOf_def parent_ns_def nsKey_def Let_def)

lemma isServiceParent_iff:
  "isServiceParent pr \<longleftrightarrow> pr_Group pr \<in> {None, Some ''''} \<and> pr_Kind pr = Some ''Service''"
  by (auto simp: isServiceParent_def split: option.splits)

lemma isNilKindCoreParent_iff:
  "isNilKindCoreParent pr \<longleftrightarrow> pr_Group pr \<in> {None, Some ''''} \<and> pr_Kind pr \<in> {None, Some ''''}"
  by (auto simp: isNilKindCoreParent_def)

lemma isServiceParent_kind: "isServiceParent pr \<Longrightarrow> parentKindOf pr = ''Service''"
  by (simp add: isServiceParent_iff parentKindOf_def)

lemma nilKind_not_service: "isNilKindCoreParent pr \<Longrightarrow> \<not> isServiceParent pr"
  by (auto simp: isServiceParent_iff isNilKindCoreParent_iff)

text \<open>When the inference fires, for a parent of namespace \<open>ns\<close>.\<close>

definition infers :: "parentInferrer option \<Rightarrow> ParentReference \<Rightarrow> string \<Rightarrow> bool" where
  "infers inferrer pr ns \<longleftrightarrow>
     (case inferrer of
        None \<Rightarrow> False
      | Some pinf \<Rightarrow> isNilKindCoreParent pr \<and> gatewaySynced pinf \<and> serviceExists pinf ns (pr_Name pr))"

lemma maybeInfer_eq:
  "maybeInferServiceParent inferrer pr ns kind =
   (infers inferrer pr ns, if infers inferrer pr ns then [(ns, pr_Name pr, kind)] else [])"
  by (simp add: maybeInferServiceParent_def infers_def split: option.split)

lemma infers_nilKind: "infers inferrer pr ns \<Longrightarrow> isNilKindCoreParent pr"
  by (auto simp: infers_def split: option.splits)

text \<open>Which of the three kinds of parent a reference resolves to.\<close>

datatype parent_class = ServiceParent | InferredParent | GatewayParent Gateway | NoParent

definition parent_class_of ::
  "ParentReference \<Rightarrow> string \<Rightarrow> gatewayStore \<Rightarrow> parentInferrer option \<Rightarrow> parent_class"
where
  "parent_class_of pr routeNS gwStore inferrer =
     (if isServiceParent pr then ServiceParent
      else case gatewayStore_get gwStore (parent_ns pr routeNS) (pr_Name pr) of
        Some gw \<Rightarrow> GatewayParent gw
      | None \<Rightarrow> if infers inferrer pr (parent_ns pr routeNS) then InferredParent else NoParent)"

lemma applyParentRef_cases:
  "applyParentRef ra pr routeNS gwStore gcStore cfg inferrer =
   (let ra1 = ra\<lparr>ra_ParentRef := formatParentRef pr routeNS, ra_ParentKind := parentKindOf pr\<rparr>;
        ns = parent_ns pr routeNS in
    case parent_class_of pr routeNS gwStore inferrer of
      ServiceParent \<Rightarrow> (applyServiceParent ra1 pr ns routeNS cfg, [])
    | InferredParent \<Rightarrow> (applyServiceParent (ra1\<lparr>ra_ParentKind := ''Service''\<rparr>) pr ns routeNS cfg,
                         [(ns, pr_Name pr, ra_Kind ra)])
    | GatewayParent gw \<Rightarrow> (applyGatewayParent ra1 pr gw gcStore cfg, [])
    | NoParent \<Rightarrow> (ra1, []))"
  by (simp add: applyParentRef_def parent_class_of_def maybeInfer_eq Let_def split: option.split)

lemma applyServiceParent_sel [simp]:
  "ra_Kind (applyServiceParent ra pr pns ns cfg) = ra_Kind ra"
  "ra_Name (applyServiceParent ra pr pns ns cfg) = ra_Name ra"
  "ra_Namespace (applyServiceParent ra pr pns ns cfg) = ra_Namespace ra"
  "ra_UID (applyServiceParent ra pr pns ns cfg) = ra_UID ra"
  "ra_ParentRef (applyServiceParent ra pr pns ns cfg) = ra_ParentRef ra"
  "ra_ParentKind (applyServiceParent ra pr pns ns cfg) = ra_ParentKind ra"
  "ra_RouteMode (applyServiceParent ra pr pns ns cfg) = RouteModeMesh"
  "ra_ParentServiceName (applyServiceParent ra pr pns ns cfg) = pr_Name pr"
  "ra_ParentServiceNamespace (applyServiceParent ra pr pns ns cfg) = pns"
  "ra_ParentServicePort (applyServiceParent ra pr pns ns cfg) =
     (case pr_Port pr of Some p \<Rightarrow> p | None \<Rightarrow> ra_ParentServicePort ra)"
  "ra_GatewayName (applyServiceParent ra pr pns ns cfg) = ra_GatewayName ra"
  "ra_WaypointImplementation (applyServiceParent ra pr pns ns cfg) = ra_WaypointImplementation ra"
  "ra_Policies (applyServiceParent ra pr pns ns cfg) = ra_Policies ra"
  by (simp_all add: applyServiceParent_def classifyRouteRole_def Let_def split: option.split)

lemma applyGatewayParent_sel [simp]:
  "ra_Kind (applyGatewayParent ra pr gw gcs cfg) = ra_Kind ra"
  "ra_Name (applyGatewayParent ra pr gw gcs cfg) = ra_Name ra"
  "ra_Namespace (applyGatewayParent ra pr gw gcs cfg) = ra_Namespace ra"
  "ra_UID (applyGatewayParent ra pr gw gcs cfg) = ra_UID ra"
  "ra_ParentRef (applyGatewayParent ra pr gw gcs cfg) = ra_ParentRef ra"
  "ra_ParentKind (applyGatewayParent ra pr gw gcs cfg) = ra_ParentKind ra"
  "ra_ParentServiceName (applyGatewayParent ra pr gw gcs cfg) = ra_ParentServiceName ra"
  "ra_ParentServiceNamespace (applyGatewayParent ra pr gw gcs cfg) = ra_ParentServiceNamespace ra"
  "ra_RouteRole (applyGatewayParent ra pr gw gcs cfg) = ra_RouteRole ra"
  "ra_GatewayName (applyGatewayParent ra pr gw gcs cfg) = gw_Name gw"
  "ra_GatewayNamespace (applyGatewayParent ra pr gw gcs cfg) = gw_Namespace gw"
  "ra_GatewayClassName (applyGatewayParent ra pr gw gcs cfg) = gw_GatewayClassName gw"
  "ra_RouteMode (applyGatewayParent ra pr gw gcs cfg) =
     (if waypointImplForClass (Mesh cfg) (gw_GatewayClassName gw) \<noteq> '''' then RouteModeMesh else ra_RouteMode ra)"
  "ra_Policies (applyGatewayParent ra pr gw gcs cfg) = ra_Policies ra"
  by (simp_all add: applyGatewayParent_def Let_def split: option.split)

lemma applyServiceParent_role:
  "ra_RouteRole (applyServiceParent ra pr pns ns cfg) =
   (if ClassifyRouteRoleEnabled (Mesh cfg) \<and> pns \<noteq> ''''
    then (if ns = pns then RouteRoleProducer else RouteRoleConsumer) else ra_RouteRole ra)"
  by (simp add: applyServiceParent_def classifyRouteRole_def Let_def split: option.split)

section \<open>The projections, kind by kind\<close>

lemma status_step_fst:
  "fst (foldl status_step ar cs) =
   (case find (\<lambda>c. cond_Type c = ''Accepted'') (rev cs) of
      Some c \<Rightarrow> Some (cond_Status c = ConditionTrue) | None \<Rightarrow> fst ar)"
  by (induction cs arbitrary: ar) (auto simp: status_step_def find_append split: option.splits)

lemma status_step_snd:
  "snd (foldl status_step ar cs) =
   (case find (\<lambda>c. cond_Type c = ''ResolvedRefs'') (rev cs) of
      Some c \<Rightarrow> Some (cond_Status c = ConditionTrue) | None \<Rightarrow> snd ar)"
  by (induction cs arbitrary: ar) (auto simp: status_step_def find_append split: option.splits)

lemma statusFlags_flat:
  "statusFlags parents = foldl status_step (None, None) (concat (map rps_Conditions parents))"
proof -
  have "foldl (\<lambda>ar ps. foldl status_step ar (rps_Conditions ps)) ar parents =
    foldl status_step ar (concat (map rps_Conditions parents))" for ar
    by (induction parents arbitrary: ar) simp_all
  then show ?thesis by (simp add: statusFlags_def)
qed

text \<open>The two projections as one function of the kind.\<close>

definition project_route ::
  "RouteKind \<Rightarrow> Route \<Rightarrow> gatewayStore \<Rightarrow> gatewayClassStore \<Rightarrow> Config \<Rightarrow> parentInferrer option \<Rightarrow>
   RouteAttributes \<times> inference list"
where
  "project_route kind r gwStore gcStore cfg inferrer =
     (let ra = zero_route\<lparr>ra_Kind := kind, ra_Name := rt_Name r,
                ra_Namespace := rt_Namespace r, ra_UID := rt_UID r, ra_RouteMode := RouteModeIngress\<rparr>;
          p = (case rt_ParentRefs r of
                 pr # _ \<Rightarrow> applyParentRef ra pr (rt_Namespace r) gwStore gcStore cfg inferrer
               | [] \<Rightarrow> (ra, []));
          flags = (if EmitStatusConds cfg then statusFlags (rt_Parents r) else (None, None))
      in ((fst p)\<lparr>ra_RuleNames := httpRuleNames r, ra_Accepted := fst flags, ra_ResolvedRefs := snd flags\<rparr>,
          snd p))"

lemma applyServiceParent_flags [simp]:
  "ra_Accepted (applyServiceParent ra pr pns ns cfg) = ra_Accepted ra"
  "ra_ResolvedRefs (applyServiceParent ra pr pns ns cfg) = ra_ResolvedRefs ra"
  by (simp_all add: applyServiceParent_def classifyRouteRole_def Let_def split: option.split)

lemma applyGatewayParent_flags [simp]:
  "ra_Accepted (applyGatewayParent ra pr gw gcs cfg) = ra_Accepted ra"
  "ra_ResolvedRefs (applyGatewayParent ra pr gw gcs cfg) = ra_ResolvedRefs ra"
  by (simp_all add: applyGatewayParent_def Let_def split: option.split)

lemma apply_flags_id:
  "ra_Accepted (fst (applyParentRef ra pr ns gws gcs cfg inferrer)) = ra_Accepted ra"
  "ra_ResolvedRefs (fst (applyParentRef ra pr ns gws gcs cfg inferrer)) = ra_ResolvedRefs ra"
  by (simp_all add: applyParentRef_cases Let_def split: parent_class.split)

lemma grpcRuleNames_eq: "grpcRuleNames = httpRuleNames"
  by (simp add: fun_eq_iff grpcRuleNames_def httpRuleNames_def)

lemma same_flags: "ra_Accepted ra = a \<Longrightarrow> ra_ResolvedRefs ra = b \<Longrightarrow>
  ra\<lparr>ra_RuleNames := ns, ra_Accepted := a, ra_ResolvedRefs := b\<rparr> = ra\<lparr>ra_RuleNames := ns\<rparr>"
  by (cases ra) simp

lemma httpRouteToAttrs_eq: "httpRouteToAttrs = project_route RouteKindHTTPRoute"
  by (auto simp: fun_eq_iff httpRouteToAttrs_def project_route_def Let_def case_prod_beta
      apply_flags_id zero_route_def same_flags split: list.splits)

lemma grpcRouteToAttrs_eq: "grpcRouteToAttrs = project_route RouteKindGRPCRoute"
  by (auto simp: fun_eq_iff grpcRouteToAttrs_def project_route_def Let_def case_prod_beta
      apply_flags_id zero_route_def grpcRuleNames_eq same_flags split: list.splits)

lemma project_route_identity [simp]:
  "ra_Kind (fst (project_route kind r gws gcs cfg inferrer)) = kind"
  "ra_Name (fst (project_route kind r gws gcs cfg inferrer)) = rt_Name r"
  "ra_Namespace (fst (project_route kind r gws gcs cfg inferrer)) = rt_Namespace r"
  "ra_UID (fst (project_route kind r gws gcs cfg inferrer)) = rt_UID r"
  "ra_Policies (fst (project_route kind r gws gcs cfg inferrer)) = []"
  by (auto simp: project_route_def zero_route_def applyParentRef_cases Let_def
      split: list.split parent_class.split)

text \<open>The kind only labels the result.\<close>

lemma applyServiceParent_kind:
  "applyServiceParent (ra\<lparr>ra_Kind := k\<rparr>) pr pns ns cfg = (applyServiceParent ra pr pns ns cfg)\<lparr>ra_Kind := k\<rparr>"
  by (simp add: applyServiceParent_def classifyRouteRole_def Let_def split: option.split)

lemma applyGatewayParent_kind:
  "applyGatewayParent (ra\<lparr>ra_Kind := k\<rparr>) pr gw gcs cfg = (applyGatewayParent ra pr gw gcs cfg)\<lparr>ra_Kind := k\<rparr>"
  by (simp add: applyGatewayParent_def Let_def split: option.split)

lemma applyParentRef_kind:
  "applyParentRef (ra\<lparr>ra_Kind := k\<rparr>) pr ns gws gcs cfg inferrer =
   (let (ra', log) = applyParentRef ra pr ns gws gcs cfg inferrer in
    (ra'\<lparr>ra_Kind := k\<rparr>, map (\<lambda>(ns, name, _). (ns, name, k)) log))"
proof -
  have swap: "x\<lparr>ra_Kind := k, ra_ParentRef := a\<rparr> = x\<lparr>ra_ParentRef := a, ra_Kind := k\<rparr>"
      "x\<lparr>ra_Kind := k, ra_ParentKind := a\<rparr> = x\<lparr>ra_ParentKind := a, ra_Kind := k\<rparr>" for x :: RouteAttributes and a
    by (cases x; simp)+
  show ?thesis
    by (cases "parent_class_of pr ns gws inferrer")
      (simp_all add: applyParentRef_cases Let_def swap applyServiceParent_kind applyGatewayParent_kind)
qed

lemma project_route_kind:
  "project_route k r gws gcs cfg inferrer =
   (let (ra, log) = project_route k' r gws gcs cfg inferrer in
    (ra\<lparr>ra_Kind := k\<rparr>, map (\<lambda>(ns, name, _). (ns, name, k)) log))"
proof (cases "rt_ParentRefs r")
  case Nil
  then show ?thesis by (simp add: project_route_def Let_def)
next
  case (Cons pr rest)
  define ra where "ra kind = zero_route\<lparr>ra_Kind := kind, ra_Name := rt_Name r,
    ra_Namespace := rt_Namespace r, ra_UID := rt_UID r, ra_RouteMode := RouteModeIngress\<rparr>" for kind
  have "ra k = (ra k')\<lparr>ra_Kind := k\<rparr>" by (simp add: ra_def)
  then have "applyParentRef (ra k) pr (rt_Namespace r) gws gcs cfg inferrer =
      (let (ra', log) = applyParentRef (ra k') pr (rt_Namespace r) gws gcs cfg inferrer in
       (ra'\<lparr>ra_Kind := k\<rparr>, map (\<lambda>(ns, name, _). (ns, name, k)) log))"
    by (simp only: applyParentRef_kind)
  with Cons show ?thesis
    by (simp add: project_route_def Let_def case_prod_beta flip: ra_def)
qed

section \<open>Properties\<close>

text \<open>Objects for the examples: a route of namespace \<open>shop\<close> with one parent, and a cluster
  whose Gateway informer has synced and that knows the Service \<open>shop/cart\<close>.\<close>

definition example_parent :: ParentReference where
  "example_parent = \<lparr>pr_Group = None, pr_Kind = None, pr_Namespace = None, pr_Name = ''cart'',
     pr_SectionName = None, pr_Port = Some 8080\<rparr>"

definition example_route :: "ParentReference \<Rightarrow> Route" where
  "example_route pr = \<lparr>rt_Name = ''r'', rt_Namespace = ''shop'', rt_UID = ''u'', rt_ParentRefs = [pr],
     rt_Rules = [\<lparr>rule_Name = None, rule_BackendRefs = []\<rparr>, \<lparr>rule_Name = Some ''canary'', rule_BackendRefs = []\<rparr>],
     rt_Parents = []\<rparr>"

definition example_inferrer :: parentInferrer where
  "example_inferrer = \<lparr>gatewaySynced = True, serviceExists = (\<lambda>ns name. ns = ''shop'' \<and> name = ''cart'')\<rparr>"

lemmas example_defs = example_parent_def example_route_def example_inferrer_def

text \<open>Claim C30. The route-mode discriminator: a projected route is mesh exactly when its first
  parentRef is an explicit core-group Service, or resolves to a Gateway whose class is a
  configured waypoint class, or resolves to no Gateway and the nil-Kind inference fires for it;
  in every other case, also without a parentRef, it is ingress.\<close>

theorem route_mode_classification:
  "ra_RouteMode (fst (httpRouteToAttrs hr gwStore gcStore cfg inferrer)) =
   (case rt_ParentRefs hr of
      [] \<Rightarrow> RouteModeIngress
    | pr # _ \<Rightarrow>
        if isServiceParent pr then RouteModeMesh
        else case gatewayStore_get gwStore (parent_ns pr (rt_Namespace hr)) (pr_Name pr) of
          Some gw \<Rightarrow>
            if gw_GatewayClassName gw \<noteq> '''' \<and> gw_GatewayClassName gw \<in> set (WaypointClassNames (Mesh cfg))
            then RouteModeMesh else RouteModeIngress
        | None \<Rightarrow>
            if \<exists>i. inferrer = Some i \<and> isNilKindCoreParent pr \<and> gatewaySynced i \<and>
                 serviceExists i (parent_ns pr (rt_Namespace hr)) (pr_Name pr)
            then RouteModeMesh else RouteModeIngress)"
proof (cases "rt_ParentRefs hr")
  case Nil
  then show ?thesis by (simp add: httpRouteToAttrs_eq project_route_def Let_def)
next
  case (Cons pr rest)
  have "(\<exists>i. inferrer = Some i \<and> isNilKindCoreParent pr \<and> gatewaySynced i \<and>
      serviceExists i (parent_ns pr (rt_Namespace hr)) (pr_Name pr)) = infers inferrer pr (parent_ns pr (rt_Namespace hr))"
    by (auto simp: infers_def split: option.splits)
  with Cons show ?thesis
    by (simp add: httpRouteToAttrs_eq project_route_def Let_def applyParentRef_cases parent_class_of_def
        waypointImplForClass_iff split: option.split)
qed

text \<open>Claim C17. The guardrails of the nil-Kind inference: a projection records an inference
  exactly when the inference is on, every Gateway informer has synced, the first parentRef omits
  its Kind in the core group, no Gateway has its namespace and name and a Service has; it records
  one, and the route is then a mesh route of that Service.\<close>

theorem inference_guardrails:
  "snd (httpRouteToAttrs hr gwStore gcStore cfg inferrer) =
   (case (rt_ParentRefs hr, inferrer) of
      (pr # _, Some i) \<Rightarrow>
        (let ns = parent_ns pr (rt_Namespace hr) in
         if isNilKindCoreParent pr \<and> gatewaySynced i \<and> serviceExists i ns (pr_Name pr) \<and>
            gatewayStore_get gwStore ns (pr_Name pr) = None
         then [(ns, pr_Name pr, RouteKindHTTPRoute)] else [])
    | _ \<Rightarrow> [])
   \<and> (snd (httpRouteToAttrs hr gwStore gcStore cfg inferrer) = []
      \<or> ra_RouteMode (fst (httpRouteToAttrs hr gwStore gcStore cfg inferrer)) = RouteModeMesh
        \<and> ra_ParentKind (fst (httpRouteToAttrs hr gwStore gcStore cfg inferrer)) = ''Service''
        \<and> snd (httpRouteToAttrs hr gwStore gcStore cfg inferrer) =
            [(ra_ParentServiceNamespace (fst (httpRouteToAttrs hr gwStore gcStore cfg inferrer)),
              ra_ParentServiceName (fst (httpRouteToAttrs hr gwStore gcStore cfg inferrer)),
              RouteKindHTTPRoute)])"
proof (cases "rt_ParentRefs hr")
  case Nil
  then show ?thesis by (simp add: httpRouteToAttrs_eq project_route_def Let_def split: option.split)
next
  case (Cons pr rest)
  then show ?thesis
    by (cases inferrer)
      (auto simp: httpRouteToAttrs_eq project_route_def Let_def applyParentRef_cases parent_class_of_def
        infers_def nilKind_not_service split: option.splits)
qed

text \<open>A parentRef that names its Kind is taken at its word: a route whose first
  parentRef has an explicit Kind other than Service, dangling or not, is never attributed to a
  Service, gets no route role, keeps that Kind and records no inference.\<close>

lemma explicit_kind_never_service:
  assumes "rt_ParentRefs hr = pr # rest" and "pr_Kind pr = Some k" and "k \<noteq> ''''" and "k \<noteq> ''Service''"
  shows "let (ra, log) = httpRouteToAttrs hr gwStore gcStore cfg inferrer in
    ra_ParentServiceName ra = '''' \<and> ra_ParentServiceNamespace ra = '''' \<and> ra_RouteRole ra = '''' \<and>
    ra_ParentKind ra = k \<and> log = []"
proof -
  have "\<not> isServiceParent pr" "\<not> infers inferrer pr ns" "parentKindOf pr = k" for ns
    using assms infers_nilKind [of inferrer pr ns]
    by (auto simp: isServiceParent_iff isNilKindCoreParent_iff parentKindOf_def)
  with assms(1) show ?thesis
    by (simp add: httpRouteToAttrs_eq project_route_def Let_def case_prod_beta applyParentRef_cases
        parent_class_of_def zero_route_def split: option.split)
qed

lemma explicit_kind_never_service_witness:
  "let (ra, log) = httpRouteToAttrs (example_route (example_parent\<lparr>pr_Kind := Some ''Gateway''\<rparr>))
       newGatewayStore newGatewayClassStore createDefaultConfig (Some example_inferrer) in
    ra_ParentServiceName ra = '''' \<and> ra_ParentServiceNamespace ra = '''' \<and> ra_RouteRole ra = '''' \<and>
    ra_ParentKind ra = ''Gateway'' \<and> log = []"
  by (rule explicit_kind_never_service [where rest = "[]" and pr = "example_parent\<lparr>pr_Kind := Some ''Gateway''\<rparr>"])
    (simp_all add: example_defs)

text \<open>Claim C31. An inferred Service parent yields the attributes of the explicit one: projecting
  a route whose nil-Kind parentRef is inferred gives what the same route with Kind spelled
  Service gives, except for the printed parent reference.\<close>

theorem inferred_as_explicit:
  assumes "rt_ParentRefs hr = pr # rest"
    and "isNilKindCoreParent pr" and "gatewaySynced i"
    and "serviceExists i (parent_ns pr (rt_Namespace hr)) (pr_Name pr)"
    and "gatewayStore_get gwStore (parent_ns pr (rt_Namespace hr)) (pr_Name pr) = None"
  shows "fst (httpRouteToAttrs hr gwStore gcStore cfg (Some i)) =
    (fst (httpRouteToAttrs (hr\<lparr>rt_ParentRefs := pr\<lparr>pr_Kind := Some ''Service''\<rparr> # rest\<rparr>)
       gwStore gcStore cfg (Some i)))
      \<lparr>ra_ParentRef := formatParentRef pr (rt_Namespace hr)\<rparr>"
proof -
  let ?pr = "pr\<lparr>pr_Kind := Some ''Service''\<rparr>"
  have *: "parent_class_of ?pr ns gwStore (Some i) = ServiceParent"
    "parent_class_of pr (rt_Namespace hr) gwStore (Some i) = InferredParent"
    "parent_ns ?pr ns = parent_ns pr ns" "parentKindOf ?pr = ''Service''" for ns
    using assms nilKind_not_service
    by (auto simp: parent_class_of_def isServiceParent_iff isNilKindCoreParent_iff infers_def
        parent_ns_def parentKindOf_def)
  have sp: "applyServiceParent (ra\<lparr>ra_ParentRef := f, ra_ParentKind := k\<rparr>) pr pns ns cfg =
      (applyServiceParent (ra\<lparr>ra_ParentRef := f', ra_ParentKind := k\<rparr>) ?pr pns ns cfg)\<lparr>ra_ParentRef := f\<rparr>"
    for ra f f' k pns ns
    by (simp add: applyServiceParent_def classifyRouteRole_def Let_def split: option.split)
  have names: "httpRuleNames (hr\<lparr>rt_ParentRefs := prs\<rparr>) = httpRuleNames hr" for prs
    by (simp add: httpRuleNames_def)
  show ?thesis
    using assms(1)
    by (simp add: httpRouteToAttrs_eq project_route_def Let_def applyParentRef_cases * names
        sp [of _ "formatParentRef pr (rt_Namespace hr)" _ _ _ "formatParentRef ?pr (rt_Namespace hr)"])
qed

lemma inferred_as_explicit_witness:
  "fst (httpRouteToAttrs (example_route example_parent) newGatewayStore newGatewayClassStore
      createDefaultConfig (Some example_inferrer)) =
    (fst (httpRouteToAttrs
       (example_route example_parent\<lparr>rt_ParentRefs := [example_parent\<lparr>pr_Kind := Some ''Service''\<rparr>]\<rparr>)
       newGatewayStore newGatewayClassStore createDefaultConfig (Some example_inferrer)))
      \<lparr>ra_ParentRef := formatParentRef example_parent ''shop''\<rparr>"
  using inferred_as_explicit [of "example_route example_parent" example_parent "[]" example_inferrer
      newGatewayStore newGatewayClassStore createDefaultConfig]
  by (simp add: example_defs isNilKindCoreParent_iff parent_ns_def gatewayStore_get_def newGatewayStore_def)

text \<open>GRPCRoutes are enriched as HTTPRoutes are: the projection of a GRPCRoute is the
  projection of the HTTPRoute with the same contents, but for the kind it carries and records, and
  both declare the same backends.\<close>

lemma grpc_mirrors_http:
  "grpcRouteToAttrs r gwStore gcStore cfg inferrer =
   (let (ra, log) = httpRouteToAttrs r gwStore gcStore cfg inferrer in
    (ra\<lparr>ra_Kind := RouteKindGRPCRoute\<rparr>, map (\<lambda>(ns, name, _). (ns, name, RouteKindGRPCRoute)) log))
   \<and> backendRefsFromGRPCRoute r = backendRefsFromHTTPRoute r"
  using project_route_kind [of RouteKindGRPCRoute r gwStore gcStore cfg inferrer RouteKindHTTPRoute]
  by (simp add: grpcRouteToAttrs_eq httpRouteToAttrs_eq backendRefsFromGRPCRoute_def backendRefsFromHTTPRoute_def)

text \<open>The route role: with classification on, a route whose parent is a Service,
  explicit or inferred, is a producer route when the Service is in the route's own namespace and
  a consumer route otherwise; every other route has no role.\<close>

lemma route_role_classification:
  "ra_RouteRole (fst (httpRouteToAttrs hr gwStore gcStore cfg inferrer)) =
   (let ra = fst (httpRouteToAttrs hr gwStore gcStore cfg inferrer) in
    if ClassifyRouteRoleEnabled (Mesh cfg) \<and> ra_ParentServiceNamespace ra \<noteq> ''''
    then (if rt_Namespace hr = ra_ParentServiceNamespace ra then RouteRoleProducer else RouteRoleConsumer)
    else '''')
   \<and> (ra_ParentServiceNamespace (fst (httpRouteToAttrs hr gwStore gcStore cfg inferrer)) \<in>
        {'''', case rt_ParentRefs hr of [] \<Rightarrow> '''' | pr # _ \<Rightarrow> parent_ns pr (rt_Namespace hr)})"
proof (cases "rt_ParentRefs hr")
  case Nil
  then show ?thesis by (simp add: httpRouteToAttrs_eq project_route_def Let_def zero_route_def)
next
  case (Cons pr rest)
  show ?thesis
    by (cases "parent_class_of pr (rt_Namespace hr) gwStore inferrer")
      (simp_all add: Cons httpRouteToAttrs_eq project_route_def Let_def zero_route_def
        applyParentRef_cases applyServiceParent_role)
qed

text \<open>Rule names are addressed by the index the data plane reports: for every rule of
  the route the projected list gives the rule's own name, and nothing for an unnamed rule; it is
  empty or has one entry per rule.\<close>

lemma rule_names_by_index:
  assumes "i < length (rt_Rules hr)"
  shows "(if i < length (ra_RuleNames (fst (httpRouteToAttrs hr gwStore gcStore cfg inferrer)))
          then ra_RuleNames (fst (httpRouteToAttrs hr gwStore gcStore cfg inferrer)) ! i else '''')
       = (case rule_Name (rt_Rules hr ! i) of Some n \<Rightarrow> n | None \<Rightarrow> '''')
    \<and> length (ra_RuleNames (fst (httpRouteToAttrs hr gwStore gcStore cfg inferrer))) \<in> {0, length (rt_Rules hr)}"
proof -
  have "rule_Name (rt_Rules hr ! i) \<in> {None, Some ''''}"
    if "\<not> list_ex (\<lambda>rule. rule_Name rule \<noteq> None \<and> rule_Name rule \<noteq> Some '''') (rt_Rules hr)"
    using that assms by (auto simp: list_ex_iff)
  then show ?thesis
    using assms by (auto simp: httpRouteToAttrs_eq project_route_def Let_def httpRuleNames_def split: option.split)
qed

lemma rule_names_by_index_witness:
  "(if 1 < length (ra_RuleNames (fst (httpRouteToAttrs (example_route example_parent) newGatewayStore
        newGatewayClassStore createDefaultConfig None)))
    then ra_RuleNames (fst (httpRouteToAttrs (example_route example_parent) newGatewayStore
        newGatewayClassStore createDefaultConfig None)) ! 1 else '''')
   = (case rule_Name (rt_Rules (example_route example_parent) ! 1) of Some n \<Rightarrow> n | None \<Rightarrow> '''')"
  using rule_names_by_index [of 1 "example_route example_parent" newGatewayStore newGatewayClassStore
      createDefaultConfig None]
  by (simp add: example_route_def)

text \<open>The status flags of a projected route: when status emission is on, each flag is
  the verdict of the last condition of its type over all parents, and absent when there is none;
  when it is off both are absent.\<close>

lemma status_flags_last_condition:
  "ra_Accepted (fst (httpRouteToAttrs hr gwStore gcStore cfg inferrer)) =
     (if EmitStatusConds cfg
      then map_option (\<lambda>c. cond_Status c = ''True'')
        (find (\<lambda>c. cond_Type c = ''Accepted'') (rev (concat (map rps_Conditions (rt_Parents hr)))))
      else None)
   \<and> ra_ResolvedRefs (fst (httpRouteToAttrs hr gwStore gcStore cfg inferrer)) =
     (if EmitStatusConds cfg
      then map_option (\<lambda>c. cond_Status c = ''True'')
        (find (\<lambda>c. cond_Type c = ''ResolvedRefs'') (rev (concat (map rps_Conditions (rt_Parents hr)))))
      else None)"
  by (simp add: httpRouteToAttrs_eq project_route_def Let_def statusFlags_flat status_step_fst
      status_step_snd ConditionTrue_def split: option.split)

text \<open>Claim C32. The backends a route is indexed under are exactly the core-group Services its
  rules refer to and the Services among its parents, each in the namespace the reference gives or
  else in the route's own; other backends and Gateway parents contribute nothing.\<close>

theorem backend_refs_exact:
  "bref_key b \<in> bref_key ` set (backendRefsFromHTTPRoute route) \<longleftrightarrow>
   (\<exists>rule \<in> set (rt_Rules route). \<exists>ref \<in> set (rule_BackendRefs rule).
      br_Group ref \<in> {None, Some ''''} \<and> br_Kind ref \<in> {None, Some ''Service''} \<and>
      bref_key b = nsKey (if br_Namespace ref \<in> {None, Some ''''} then rt_Namespace route
                          else the (br_Namespace ref)) (br_Name ref))
   \<or> (\<exists>pr \<in> set (rt_ParentRefs route). isServiceParent pr \<and>
      bref_key b = nsKey (parent_ns pr (rt_Namespace route)) (pr_Name pr))"
proof -
  have ref: "kb \<in> bref_key ` set (backend_of_ref ns ref) \<longleftrightarrow>
      br_Group ref \<in> {None, Some ''''} \<and> br_Kind ref \<in> {None, Some ''Service''} \<and>
      kb = nsKey (if br_Namespace ref \<in> {None, Some ''''} then ns else the (br_Namespace ref)) (br_Name ref)"
    for ns ref kb
    by (auto simp: backend_of_ref_def bref_key_def split: option.split)
  have par: "kb \<in> bref_key ` set (backend_of_parent ns pr) \<longleftrightarrow>
      isServiceParent pr \<and> kb = nsKey (parent_ns pr ns) (pr_Name pr)" for ns pr kb
    by (simp add: backend_of_parent_def bref_key_def parent_ns_def split: option.split)
  have "bref_key ` set (backendRefsFromHTTPRoute route) =
      (\<Union>rule \<in> set (rt_Rules route). \<Union>r \<in> set (rule_BackendRefs rule).
         bref_key ` set (backend_of_ref (rt_Namespace route) r))
      \<union> (\<Union>pr \<in> set (rt_ParentRefs route). bref_key ` set (backend_of_parent (rt_Namespace route) pr))"
    by (simp add: backendRefsFromHTTPRoute_def image_Un image_UN)
  then show ?thesis
    by (simp only: Un_iff UN_iff ref par)
qed

text \<open>The printed parent reference identifies the parent: two references whose group,
  kind and namespaces contain no slash and that print alike have the same kind, namespace and
  name, and the same group unless the kind is Service.\<close>

lemma parent_ref_identifies:
  assumes "formatParentRef pr ns = formatParentRef pr' ns'"
    and "\<And>g. pr_Group pr = Some g \<or> pr_Group pr' = Some g \<Longrightarrow> CHR ''/'' \<notin> set g"
    and "\<And>k. pr_Kind pr = Some k \<or> pr_Kind pr' = Some k \<Longrightarrow> CHR ''/'' \<notin> set k"
    and "CHR ''/'' \<notin> set (parent_ns pr ns)" and "CHR ''/'' \<notin> set (parent_ns pr' ns')"
  shows "parentKindOf pr = parentKindOf pr' \<and> parent_ns pr ns = parent_ns pr' ns' \<and> pr_Name pr = pr_Name pr'
    \<and> (parentKindOf pr \<noteq> ''Service'' \<longrightarrow>
        (case pr_Group pr of Some g \<Rightarrow> g | None \<Rightarrow> ''gateway.networking.k8s.io'') =
        (case pr_Group pr' of Some g \<Rightarrow> g | None \<Rightarrow> ''gateway.networking.k8s.io''))"
proof -
  define grp where "grp p = (if parentKindOf p = ''Service'' then ''''
    else case pr_Group p of Some g \<Rightarrow> g | None \<Rightarrow> ''gateway.networking.k8s.io'')" for p
  have free: "CHR ''/'' \<notin> set (grp pr)" "CHR ''/'' \<notin> set (grp pr')"
    "CHR ''/'' \<notin> set (parentKindOf pr)" "CHR ''/'' \<notin> set (parentKindOf pr')"
    using assms(2,3) by (auto simp: grp_def parentKindOf_def split: option.splits)
  have eq: "grp pr @ ''/'' @ (parentKindOf pr @ ''/'' @ nsKey (parent_ns pr ns) (pr_Name pr)) =
      grp pr' @ ''/'' @ (parentKindOf pr' @ ''/'' @ nsKey (parent_ns pr' ns') (pr_Name pr'))"
    using assms(1) by (simp add: formatParentRef_eq grp_def)
  from split_slash [OF free(1,2) eq]
  have g: "grp pr = grp pr'"
    and eq2: "parentKindOf pr @ ''/'' @ nsKey (parent_ns pr ns) (pr_Name pr) =
      parentKindOf pr' @ ''/'' @ nsKey (parent_ns pr' ns') (pr_Name pr')"
    by blast+
  from split_slash [OF free(3,4) eq2]
  have k: "parentKindOf pr = parentKindOf pr'"
    and eq3: "nsKey (parent_ns pr ns) (pr_Name pr) = nsKey (parent_ns pr' ns') (pr_Name pr')"
    by blast+
  from eq3 have "parent_ns pr ns = parent_ns pr' ns' \<and> pr_Name pr = pr_Name pr'"
    using assms(4,5) by (simp add: nsKey_inj)
  with g k show ?thesis by (simp add: grp_def split: if_splits)
qed

lemma parent_ref_identifies_witness:
  "parentKindOf example_parent = parentKindOf (example_parent\<lparr>pr_Kind := Some ''Gateway''\<rparr>)
    \<and> parent_ns example_parent ''shop'' = parent_ns (example_parent\<lparr>pr_Kind := Some ''Gateway''\<rparr>) ''shop''"
  using parent_ref_identifies [of example_parent "''shop''" "example_parent\<lparr>pr_Kind := Some ''Gateway''\<rparr>" "''shop''"]
  by (simp add: example_parent_def formatParentRef_def parent_ns_def)

text \<open>The group is dropped for every kind Service, also where the reference is not a Service parent
  because its group is not the core group; and an inferred Service parent still prints as a Gateway.\<close>

lemma service_kind_drops_group:
  "formatParentRef (example_parent\<lparr>pr_Kind := Some ''Service'', pr_Group := Some ''multicluster.x-k8s.io''\<rparr>) ''shop''
     = ''/Service/shop/cart''
   \<and> \<not> isServiceParent (example_parent\<lparr>pr_Kind := Some ''Service'', pr_Group := Some ''multicluster.x-k8s.io''\<rparr>)"
  by (simp add: example_parent_def formatParentRef_def isServiceParent_iff)

lemma inferred_parent_prints_as_gateway:
  "ra_ParentRef (fst (httpRouteToAttrs (example_route example_parent) newGatewayStore newGatewayClassStore
      createDefaultConfig (Some example_inferrer))) = ''gateway.networking.k8s.io/Gateway/shop/cart''
   \<and> ra_ParentKind (fst (httpRouteToAttrs (example_route example_parent) newGatewayStore newGatewayClassStore
      createDefaultConfig (Some example_inferrer))) = ''Service''"
  by (simp add: httpRouteToAttrs_eq project_route_def applyParentRef_cases parent_class_of_def infers_def
      example_defs isServiceParent_iff isNilKindCoreParent_iff parent_ns_def gatewayStore_get_def
      newGatewayStore_def formatParentRef_def Let_def)

end
