(* ===== verification/Policy.thy ===== *)
theory Policy
  imports Config RouteIndex K8sTypes "HOL-Library.AList"
begin

text \<open>
  \<open>policy_informer.go\<close>: reading a policy-attachment object (its identity, whether a controller
  accepted it, which routes it targets) and the add, update and delete handlers that project it
  onto the route index. An unstructured object is its JSON; a nil pointer is \<open>None\<close>.
\<close>

section \<open>Reading a policy\<close>

record policyTarget =
  pt_Kind :: RouteKind
  pt_NS :: string
  pt_Name :: string

text \<open>\<open>targetSet\<close> builds a Go map; an association list keeps the keys distinct.\<close>

definition target_key :: "policyTarget \<Rightarrow> string" where
  "target_key t = itoa (RouteKind_int (pt_Kind t)) @ ''|'' @ pt_NS t @ ''/'' @ pt_Name t"

definition targetSet :: "policyTarget list \<Rightarrow> (string \<times> policyTarget) list" where
  "targetSet ts = fold (\<lambda>t m. AList.update (target_key t) t m) ts []"

definition GetName :: "json \<Rightarrow> string" where "GetName u = str_path u [''metadata'', ''name'']"
definition GetNamespace :: "json \<Rightarrow> string" where
  "GetNamespace u = str_path u [''metadata'', ''namespace'']"
definition GetKind :: "json \<Rightarrow> string" where "GetKind u = str_path u [''kind'']"

definition policyRefFromUnstructured :: "json \<Rightarrow> PolicyGVR \<Rightarrow> PolicyRef" where
  "policyRefFromUnstructured u gvr =
     \<lparr>pol_Name = GetName u, pol_Namespace = GetNamespace u, pol_Kind = GetKind u,
      pol_Group = gvr_Group gvr\<rparr>"

fun is_map :: "json \<Rightarrow> bool" where
  "is_map (JMap kvs) = True"
| "is_map _ = False"

fun conditionsHaveAcceptedTrue :: "json list \<Rightarrow> bool" where
  "conditionsHaveAcceptedTrue [] = False"
| "conditionsHaveAcceptedTrue (c # conds) =
     (if \<not> is_map c then conditionsHaveAcceptedTrue conds
      else if str_field c ''type'' = ''Accepted'' \<and> str_field c ''status'' = ''True'' then True
      else conditionsHaveAcceptedTrue conds)"

text \<open>The loop over \<open>status.ancestors\<close>.\<close>

fun ancestorsAccepted :: "json list \<Rightarrow> bool" where
  "ancestorsAccepted [] = False"
| "ancestorsAccepted (a # ancs) =
     (if \<not> is_map a then ancestorsAccepted ancs
      else case json_field a ''conditions'' of
        Some (JList c) \<Rightarrow> if conditionsHaveAcceptedTrue c then True else ancestorsAccepted ancs
      | _ \<Rightarrow> ancestorsAccepted ancs)"

definition policyAccepted :: "json option \<Rightarrow> bool" where
  "policyAccepted uo =
     (case uo of
        None \<Rightarrow> False
      | Some u \<Rightarrow>
          if NestedMap u [''status''] = None then True
          else if (case NestedSlice u [''status'', ''conditions''] of
                     Some conds \<Rightarrow> conditionsHaveAcceptedTrue conds | None \<Rightarrow> False) then True
          else (case NestedSlice u [''status'', ''ancestors''] of
                  Some ancs \<Rightarrow> ancestorsAccepted ancs | None \<Rightarrow> False))"

text \<open>The body of the loop over the target references.\<close>

definition target_of_ref :: "string \<Rightarrow> json \<Rightarrow> policyTarget list" where
  "target_of_ref policyNS r =
     (if \<not> is_map r then []
      else let group = str_field r ''group''; kind = str_field r ''kind'';
               name = str_field r ''name''; ns = str_field r ''namespace'' in
        if name = '''' then []
        else if \<not> equalFold group ''gateway.networking.k8s.io'' then []
        else if kind = ''HTTPRoute''
          then [\<lparr>pt_Kind = RouteKindHTTPRoute, pt_NS = (if ns = '''' then policyNS else ns), pt_Name = name\<rparr>]
        else if kind = ''GRPCRoute''
          then [\<lparr>pt_Kind = RouteKindGRPCRoute, pt_NS = (if ns = '''' then policyNS else ns), pt_Name = name\<rparr>]
        else [])"

definition targetsFromUnstructured :: "json option \<Rightarrow> policyTarget list" where
  "targetsFromUnstructured uo =
     (case uo of
        None \<Rightarrow> []
      | Some u \<Rightarrow>
          let refs = (case NestedSlice u [''spec'', ''targetRefs''] of
                        Some refs \<Rightarrow> refs
                      | None \<Rightarrow> (case NestedMap u [''spec'', ''targetRef''] of
                                   Some single \<Rightarrow> [single] | None \<Rightarrow> []))
          in concat (map (target_of_ref (GetNamespace u)) refs))"

section \<open>The handlers\<close>

definition policyAdd :: "json option \<Rightarrow> PolicyGVR \<Rightarrow> routeIndex \<Rightarrow> routeIndex" where
  "policyAdd uo gvr idx =
     (if \<not> policyAccepted uo then idx
      else fold (\<lambda>t r. applyPolicy r (pt_Kind t) (pt_NS t) (pt_Name t)
                   (policyRefFromUnstructured (the uo) gvr))
             (targetsFromUnstructured uo) idx)"

definition policyUpdate :: "json option \<Rightarrow> json \<Rightarrow> PolicyGVR \<Rightarrow> routeIndex \<Rightarrow> routeIndex" where
  "policyUpdate oldU newU gvr idx =
     (let ref = policyRefFromUnstructured newU gvr;
          oldTargets = (if policyAccepted oldU then targetsFromUnstructured oldU else []);
          newTargets = (if policyAccepted (Some newU) then targetsFromUnstructured (Some newU) else []);
          oldSet = targetSet oldTargets;
          newSet = targetSet newTargets;
          idx1 = fold (\<lambda>(k, t) r. if k \<in> fst ` set newSet then r
                                  else removePolicy r (pt_Kind t) (pt_NS t) (pt_Name t) ref) oldSet idx
      in fold (\<lambda>(k, t) r. if k \<in> fst ` set oldSet then r
                          else applyPolicy r (pt_Kind t) (pt_NS t) (pt_Name t) ref) newSet idx1)"

definition policyDelete :: "json \<Rightarrow> PolicyGVR \<Rightarrow> routeIndex \<Rightarrow> routeIndex" where
  "policyDelete u gvr idx =
     fold (\<lambda>t r. removePolicy r (pt_Kind t) (pt_NS t) (pt_Name t) (policyRefFromUnstructured u gvr))
       (targetsFromUnstructured (Some u)) idx"

section \<open>Facts about the handlers\<close>

text \<open>The index key of a target, and whether a policy is stamped on a key.\<close>

definition pt_key :: "policyTarget \<Rightarrow> string" where
  "pt_key t = routeKey (pt_Kind t) (pt_NS t) (pt_Name t)"

definition stamped :: "routeIndex \<Rightarrow> string \<Rightarrow> PolicyRef \<Rightarrow> bool" where
  "stamped r key p \<longleftrightarrow> p \<in> set (get_list (policies r) key)"

lemma target_of_ref_kind: "t \<in> set (target_of_ref ns r) \<Longrightarrow> route_kind (pt_Kind t) \<and> pt_Name t \<noteq> ''''"
  by (auto simp: target_of_ref_def route_kind_def Let_def split: if_splits)

lemma targets_in_scope:
  "t \<in> set (targetsFromUnstructured uo) \<Longrightarrow> route_kind (pt_Kind t) \<and> pt_Name t \<noteq> ''''"
  by (auto simp: targetsFromUnstructured_def Let_def split: option.splits dest: target_of_ref_kind)

text \<open>For the route kinds in scope, \<open>targetSet\<close> and the index use equivalent keys.\<close>

lemma target_key_iff:
  assumes "route_kind (pt_Kind t)" "route_kind (pt_Kind t')"
  shows "target_key t = target_key t' \<longleftrightarrow> pt_key t = pt_key t'"
proof -
  have [simp]: "itoa (Suc 0) = ''1''" "itoa 2 = ''2''"
    by code_simp+
  show ?thesis
    using assms by (cases "pt_Kind t"; cases "pt_Kind t'")
      (auto simp: target_key_def pt_key_def routeKey_def route_kind_def)
qed

lemma targetSet_keys: "fst ` set (targetSet ts) = target_key ` set ts"
proof -
  have "fst ` set (fold (\<lambda>t m. AList.update (target_key t) t m) ts m) =
      fst ` set m \<union> target_key ` set ts" for m
    by (induction ts arbitrary: m) (auto simp: dom_update)
  then show ?thesis by (simp add: targetSet_def)
qed

lemma update_subset: "set (AList.update k v m) \<subseteq> insert (k, v) (set m)"
  by (induction m) auto

lemma targetSet_values: "(k, t) \<in> set (targetSet ts) \<Longrightarrow> t \<in> set ts \<and> k = target_key t"
proof -
  have "\<lbrakk>\<And>k t. (k, t) \<in> set m \<Longrightarrow> Q k t; \<And>t. t \<in> set ts \<Longrightarrow> Q (target_key t) t;
      (k, t) \<in> set (fold (\<lambda>t m. AList.update (target_key t) t m) ts m)\<rbrakk> \<Longrightarrow> Q k t" for m Q
  proof (induction ts arbitrary: m)
    case Nil
    then show ?case by simp
  next
    case (Cons t' ts)
    show ?case
    proof (rule Cons.IH)
      show "Q k t" if "(k, t) \<in> set (AList.update (target_key t') t' m)" for k t
        using that update_subset [of "target_key t'" t' m] Cons.prems(1,2) by auto
    qed (use Cons.prems in simp_all)
  qed
  from this [of "[]" "\<lambda>k t. t \<in> set ts \<and> k = target_key t"]
  show "(k, t) \<in> set (targetSet ts) \<Longrightarrow> t \<in> set ts \<and> k = target_key t"
    by (simp add: targetSet_def)
qed

lemma stamped_apply:
  "stamped (applyPolicy r kind ns name p) key q \<longleftrightarrow> stamped r key q \<or> (q = p \<and> key = routeKey kind ns name)"
  by (auto simp: stamped_def applyPolicy_def get_list_def Let_def list_ex_iff split: option.splits)

lemma stamped_remove:
  assumes "idx_inv r"
  shows "stamped (removePolicy r kind ns name p) key q \<longleftrightarrow>
    stamped r key q \<and> \<not> (q = p \<and> key = routeKey kind ns name)"
proof (cases "remove_policy_at p (get_list (policies r) (routeKey kind ns name))")
  case None
  then have "p \<notin> set (get_list (policies r) (routeKey kind ns name))"
    by (simp add: remove_policy_at_None)
  with None show ?thesis by (auto simp: removePolicy_def Let_def stamped_def)
next
  case (Some qs)
  let ?ps = "get_list (policies r) (routeKey kind ns name)"
  have qs: "qs = remove1 p ?ps" "distinct ?ps"
    using remove_policy_at_Some [OF Some] get_list_policies_distinct [OF assms] by auto
  then have "set qs = set ?ps - {p}" by simp
  then show ?thesis
    using Some by (auto simp: removePolicy_def Let_def stamped_def get_list_def)
qed

text \<open>The handlers only touch the policies of the index, and keep its invariant.\<close>

definition same_routes :: "routeIndex \<Rightarrow> routeIndex \<Rightarrow> bool" where
  "same_routes r r' \<longleftrightarrow> r' = r\<lparr>policies := policies r'\<rparr>"

lemma same_routes_refl [simp]: "same_routes r r"
  by (simp add: same_routes_def)

lemma same_routes_trans: "same_routes r r' \<Longrightarrow> same_routes r' r'' \<Longrightarrow> same_routes r r''"
  unfolding same_routes_def
  by (metis (no_types, lifting) routeIndex.surjective routeIndex.update_convs(5))

lemma same_routes_ops:
  "same_routes r (applyPolicy r kind ns name p)" "same_routes r (removePolicy r kind ns name p)"
  by (simp_all add: same_routes_def applyPolicy_def removePolicy_def Let_def split: option.split)

text \<open>One step of a loop over targets: apply or remove a policy, or skip.\<close>

lemma fold_policy_inv:
  assumes "\<And>x r. idx_inv r \<Longrightarrow> idx_inv (f x r) \<and> same_routes r (f x r)" "idx_inv r"
  shows "idx_inv (fold f xs r) \<and> same_routes r (fold f xs r)"
  using assms(2)
proof (induction xs arbitrary: r)
  case Nil
  then show ?case by simp
next
  case (Cons x xs)
  then show ?case using assms(1) [of r x] Cons.IH [of "f x r"] same_routes_trans by auto
qed

lemma stamped_fold_apply:
  "stamped (fold (\<lambda>t r. applyPolicy r (pt_Kind t) (pt_NS t) (pt_Name t) p) ts r) key q \<longleftrightarrow>
   stamped r key q \<or> (q = p \<and> key \<in> pt_key ` set ts)"
  by (induction ts arbitrary: r) (auto simp: stamped_apply pt_key_def)

lemma stamped_fold_remove:
  "idx_inv r \<Longrightarrow>
   stamped (fold (\<lambda>t r. removePolicy r (pt_Kind t) (pt_NS t) (pt_Name t) p) ts r) key q \<longleftrightarrow>
   stamped r key q \<and> \<not> (q = p \<and> key \<in> pt_key ` set ts)"
  by (induction ts arbitrary: r) (auto simp: stamped_remove pt_key_def idx_inv_removePolicy)

lemma fold_skip:
  "fold (\<lambda>(k, t) r. if P k then r else f t r) kts r = fold f (map snd (filter (\<lambda>(k, t). \<not> P k) kts)) r"
  by (induction kts arbitrary: r) auto

text \<open>The targets a policy is stamped on: none unless it is accepted.\<close>

definition effective_targets :: "json option \<Rightarrow> string set" where
  "effective_targets uo = (if policyAccepted uo then pt_key ` set (targetsFromUnstructured uo) else {})"

lemma targetSet_diff:
  assumes "\<And>t. t \<in> set ts \<Longrightarrow> route_kind (pt_Kind t)" "\<And>t. t \<in> set ts' \<Longrightarrow> route_kind (pt_Kind t)"
  shows "pt_key ` set (map snd (filter (\<lambda>(k, t). k \<notin> fst ` set (targetSet ts')) (targetSet ts))) =
    pt_key ` set ts - pt_key ` set ts'"
proof (rule set_eqI)
  fix key
  have "key \<in> pt_key ` set (map snd (filter (\<lambda>(k, t). k \<notin> fst ` set (targetSet ts')) (targetSet ts))) \<longleftrightarrow>
      (\<exists>(k, t) \<in> set (targetSet ts). k \<notin> target_key ` set ts' \<and> key = pt_key t)"
    by (force simp: targetSet_keys)
  also have "\<dots> \<longleftrightarrow> (\<exists>t \<in> set ts. target_key t \<notin> target_key ` set ts' \<and> key = pt_key t)"
  proof
    assume "\<exists>(k, t) \<in> set (targetSet ts). k \<notin> target_key ` set ts' \<and> key = pt_key t"
    then show "\<exists>t \<in> set ts. target_key t \<notin> target_key ` set ts' \<and> key = pt_key t"
      using targetSet_values by blast
  next
    assume "\<exists>t \<in> set ts. target_key t \<notin> target_key ` set ts' \<and> key = pt_key t"
    then obtain t where t: "t \<in> set ts" "target_key t \<notin> target_key ` set ts'" "key = pt_key t" by blast
    then obtain t' where t': "(target_key t, t') \<in> set (targetSet ts)"
      using targetSet_keys [of ts] by force
    then have "t' \<in> set ts" "target_key t' = target_key t" using targetSet_values by metis+
    then have "pt_key t' = pt_key t" using t assms(1) target_key_iff by blast
    with t have "case (target_key t, t') of (k, t) \<Rightarrow> k \<notin> target_key ` set ts' \<and> key = pt_key t" by simp
    with t' show "\<exists>(k, t) \<in> set (targetSet ts). k \<notin> target_key ` set ts' \<and> key = pt_key t" by blast
  qed
  also have "\<dots> \<longleftrightarrow> key \<in> pt_key ` set ts - pt_key ` set ts'"
    using assms target_key_iff by (auto simp: image_iff; metis)
  finally show "key \<in> pt_key ` set (map snd (filter (\<lambda>(k, t). k \<notin> fst ` set (targetSet ts')) (targetSet ts))) \<longleftrightarrow>
    key \<in> pt_key ` set ts - pt_key ` set ts'" .
qed

lemma idx_inv_policyAdd: "idx_inv r \<Longrightarrow> idx_inv (policyAdd uo gvr r) \<and> same_routes r (policyAdd uo gvr r)"
  unfolding policyAdd_def
  by (auto intro!: fold_policy_inv [THEN conjunct1] fold_policy_inv [THEN conjunct2]
      simp: idx_inv_applyPolicy same_routes_ops)

lemma idx_inv_policyDelete: "idx_inv r \<Longrightarrow> idx_inv (policyDelete u gvr r) \<and> same_routes r (policyDelete u gvr r)"
  unfolding policyDelete_def
  by (rule fold_policy_inv) (simp_all add: idx_inv_removePolicy same_routes_ops)

lemma idx_inv_policyUpdate:
  assumes "idx_inv r"
  shows "idx_inv (policyUpdate oldU newU gvr r) \<and> same_routes r (policyUpdate oldU newU gvr r)"
proof -
  define ref where "ref = policyRefFromUnstructured newU gvr"
  define olds news where
    "olds = targetSet (if policyAccepted oldU then targetsFromUnstructured oldU else [])" and
    "news = targetSet (if policyAccepted (Some newU) then targetsFromUnstructured (Some newU) else [])"
  define r1 where "r1 = fold (\<lambda>(k, t) r. if k \<in> fst ` set news then r
      else removePolicy r (pt_Kind t) (pt_NS t) (pt_Name t) ref) olds r"
  have r1: "idx_inv r1 \<and> same_routes r r1"
    unfolding r1_def
    by (rule fold_policy_inv [OF _ assms])
      (auto simp: idx_inv_removePolicy same_routes_ops split: prod.split)
  have "idx_inv (policyUpdate oldU newU gvr r) \<and> same_routes r1 (policyUpdate oldU newU gvr r)"
    unfolding policyUpdate_def Let_def ref_def [symmetric] olds_def [symmetric] news_def [symmetric]
      r1_def [symmetric]
    by (rule fold_policy_inv [OF _ conjunct1 [OF r1]])
      (auto simp: idx_inv_applyPolicy same_routes_ops split: prod.split)
  with r1 same_routes_trans show ?thesis by blast
qed

lemma stamped_policyAdd:
  "stamped (policyAdd (Some u) gvr r) key q \<longleftrightarrow>
   stamped r key q \<or> (q = policyRefFromUnstructured u gvr \<and> key \<in> effective_targets (Some u))"
  by (auto simp: policyAdd_def effective_targets_def stamped_fold_apply)

lemma stamped_policyDelete:
  "idx_inv r \<Longrightarrow> stamped (policyDelete u gvr r) key q \<longleftrightarrow>
   stamped r key q \<and>
   \<not> (q = policyRefFromUnstructured u gvr \<and> key \<in> pt_key ` set (targetsFromUnstructured (Some u)))"
  by (simp add: policyDelete_def stamped_fold_remove)

lemma stamped_policyUpdate:
  assumes "idx_inv r"
  shows "stamped (policyUpdate oldU newU gvr r) key q \<longleftrightarrow>
    stamped r key q \<and> \<not> (q = policyRefFromUnstructured newU gvr \<and>
        key \<in> effective_targets oldU - effective_targets (Some newU))
    \<or> q = policyRefFromUnstructured newU gvr \<and> key \<in> effective_targets (Some newU) - effective_targets oldU"
proof -
  define ref where "ref = policyRefFromUnstructured newU gvr"
  define os ns where
    "os = (if policyAccepted oldU then targetsFromUnstructured oldU else [])" and
    "ns = (if policyAccepted (Some newU) then targetsFromUnstructured (Some newU) else [])"
  have eff: "pt_key ` set os = effective_targets oldU" "pt_key ` set ns = effective_targets (Some newU)"
    by (simp_all add: os_def ns_def effective_targets_def)
  have kinds: "route_kind (pt_Kind t)" if "t \<in> set os \<or> t \<in> set ns" for t
    using that targets_in_scope by (auto simp: os_def ns_def split: if_splits)
  have "policyUpdate oldU newU gvr r =
      fold (\<lambda>t r. applyPolicy r (pt_Kind t) (pt_NS t) (pt_Name t) ref)
        (map snd (filter (\<lambda>(k, t). k \<notin> fst ` set (targetSet os)) (targetSet ns)))
        (fold (\<lambda>t r. removePolicy r (pt_Kind t) (pt_NS t) (pt_Name t) ref)
          (map snd (filter (\<lambda>(k, t). k \<notin> fst ` set (targetSet ns)) (targetSet os))) r)"
    unfolding policyUpdate_def Let_def os_def [symmetric] ns_def [symmetric] ref_def [symmetric] fold_skip ..
  moreover have "pt_key ` set (map snd (filter (\<lambda>(k, t). k \<notin> fst ` set (targetSet ns)) (targetSet os))) =
      effective_targets oldU - effective_targets (Some newU)"
    "pt_key ` set (map snd (filter (\<lambda>(k, t). k \<notin> fst ` set (targetSet os)) (targetSet ns))) =
      effective_targets (Some newU) - effective_targets oldU"
    using kinds by (subst targetSet_diff; simp add: eff)+
  ultimately show ?thesis
    using assms by (simp only: stamped_fold_apply stamped_fold_remove flip: ref_def)
qed

text \<open>The life of a policy object: it is added, revised some number of times, and deleted in its
  last revision.\<close>

fun policy_revisions :: "PolicyGVR \<Rightarrow> json \<Rightarrow> json list \<Rightarrow> routeIndex \<Rightarrow> routeIndex" where
  "policy_revisions gvr u [] r = r"
| "policy_revisions gvr u (v # vs) r = policy_revisions gvr v vs (policyUpdate (Some u) v gvr r)"

lemma revisions_stamped:
  assumes "idx_inv r" "\<And>v. v \<in> set (u # vs) \<Longrightarrow> policyRefFromUnstructured v gvr = p"
    "\<And>key. stamped r key p \<longleftrightarrow> key \<in> effective_targets (Some u)"
  shows "idx_inv (policy_revisions gvr u vs r) \<and>
    (\<forall>key. stamped (policy_revisions gvr u vs r) key p \<longleftrightarrow> key \<in> effective_targets (Some (last (u # vs)))) \<and>
    (\<forall>key q. q \<noteq> p \<longrightarrow> stamped (policy_revisions gvr u vs r) key q = stamped r key q)"
  using assms
proof (induction vs arbitrary: u r)
  case Nil
  then show ?case by simp
next
  case (Cons v vs)
  have v: "policyRefFromUnstructured v gvr = p" using Cons.prems(2) by simp
  have "stamped (policyUpdate (Some u) v gvr r) key p \<longleftrightarrow> key \<in> effective_targets (Some v)" for key
    unfolding stamped_policyUpdate [OF Cons.prems(1)] v using Cons.prems(3) by blast
  moreover have "q \<noteq> p \<Longrightarrow> stamped (policyUpdate (Some u) v gvr r) key q = stamped r key q" for key q
    unfolding stamped_policyUpdate [OF Cons.prems(1)] v by blast
  ultimately show ?case
    using Cons.IH [of "policyUpdate (Some u) v gvr r" v] idx_inv_policyUpdate [OF Cons.prems(1)]
      Cons.prems(2) by simp
qed

lemma added_then_revised:
  assumes "idx_inv r" "\<And>v. v \<in> set (u # us) \<Longrightarrow> policyRefFromUnstructured v gvr = p"
    "\<And>key. \<not> stamped r key p"
  defines "r' \<equiv> policy_revisions gvr u us (policyAdd (Some u) gvr r)"
  shows "idx_inv r'" "stamped r' key p \<longleftrightarrow> key \<in> effective_targets (Some (last (u # us)))"
    "q \<noteq> p \<Longrightarrow> stamped r' key q = stamped r key q" "same_routes r r'"
proof -
  have add: "stamped (policyAdd (Some u) gvr r) key p \<longleftrightarrow> key \<in> effective_targets (Some u)"
    "q \<noteq> p \<Longrightarrow> stamped (policyAdd (Some u) gvr r) key q = stamped r key q" for key q
    using assms(2) [of u] assms(3) by (simp_all add: stamped_policyAdd)
  have rev: "idx_inv r' \<and> (\<forall>key. stamped r' key p \<longleftrightarrow> key \<in> effective_targets (Some (last (u # us)))) \<and>
      (\<forall>key q. q \<noteq> p \<longrightarrow> stamped r' key q = stamped (policyAdd (Some u) gvr r) key q)"
    unfolding r'_def
    by (rule revisions_stamped [OF _ assms(2)]) (simp_all add: add idx_inv_policyAdd assms(1))
  then show "idx_inv r'" "stamped r' key p \<longleftrightarrow> key \<in> effective_targets (Some (last (u # us)))"
    "q \<noteq> p \<Longrightarrow> stamped r' key q = stamped r key q"
    using add(2) by blast+
  have "idx_inv x \<Longrightarrow> same_routes x (policy_revisions gvr v vs x)" for v vs x
    by (induction vs arbitrary: v x) (auto dest: idx_inv_policyUpdate intro: same_routes_trans)
  then show "same_routes r r'"
    unfolding r'_def using idx_inv_policyAdd [OF assms(1), of "Some u" gvr] same_routes_trans by blast
qed

section \<open>Properties\<close>

text \<open>An accepted policy of namespace \<open>shop\<close> with two targets, one out of scope, and its revision
  that a controller has rejected.\<close>

definition example_target :: "string \<Rightarrow> string \<Rightarrow> json" where
  "example_target kind name = JMap [(''group'', JStr ''Gateway.Networking.k8s.io''), (''kind'', JStr kind),
     (''name'', JStr name)]"

definition example_policy :: "string \<Rightarrow> json" where
  "example_policy accepted = JMap [(''kind'', JStr ''TrafficPolicy''),
     (''metadata'', JMap [(''name'', JStr ''p''), (''namespace'', JStr ''shop'')]),
     (''spec'', JMap [(''targetRefs'', JList [example_target ''HTTPRoute'' ''r'', example_target ''Gateway'' ''g''])]),
     (''status'', JMap [(''conditions'', JList [JMap [(''type'', JStr ''Accepted''), (''status'', JStr accepted)]])])]"

definition example_gvr :: PolicyGVR where
  "example_gvr = \<lparr>gvr_Group = ''gateway.kgateway.dev'', gvr_Version = ''v1alpha1'', gvr_Resource = ''trafficpolicies''\<rparr>"

lemmas example_policy_defs = example_target_def example_policy_def example_gvr_def

text \<open>Claim C15. A policy's stamps follow its revisions: after a policy is added and revised any
  number of times, under one identity and starting from an index without its stamps, the routes
  that carry it are exactly the targets of its last revision when that revision is accepted and
  none otherwise, whatever happened in between; no other policy is gained or lost.\<close>

theorem policy_follows_last_revision:
  assumes "idx_inv r"
    and "\<And>v. v \<in> set (u # us) \<Longrightarrow> policyRefFromUnstructured v gvr = p"
    and "\<And>key. p \<notin> set (get_list (policies r) key)"
  shows "set (get_list (policies (policy_revisions gvr u us (policyAdd (Some u) gvr r))) key) =
    set (get_list (policies r) key) \<union>
    (if policyAccepted (Some (last (u # us))) \<and>
        key \<in> (\<lambda>t. routeKey (pt_Kind t) (pt_NS t) (pt_Name t)) ` set (targetsFromUnstructured (Some (last (u # us))))
     then {p} else {})"
proof (rule set_eqI)
  fix q
  have n: "\<not> stamped r key p" for key using assms(3) by (simp add: stamped_def)
  define r1 where "r1 = policy_revisions gvr u us (policyAdd (Some u) gvr r)"
  have run: "stamped r1 key p \<longleftrightarrow> key \<in> effective_targets (Some (last (u # us)))"
    unfolding r1_def by (rule added_then_revised(2)) fact+
  have frame: "stamped r1 key q = stamped r key q" if "q \<noteq> p"
    unfolding r1_def by (rule added_then_revised(3)) fact+
  show "q \<in> set (get_list (policies (policy_revisions gvr u us (policyAdd (Some u) gvr r))) key) \<longleftrightarrow>
    q \<in> set (get_list (policies r) key) \<union>
    (if policyAccepted (Some (last (u # us))) \<and>
        key \<in> (\<lambda>t. routeKey (pt_Kind t) (pt_NS t) (pt_Name t)) ` set (targetsFromUnstructured (Some (last (u # us))))
     then {p} else {})"
  proof (cases "q = p")
    case True
    then show ?thesis
      using run n unfolding r1_def
      by (simp add: stamped_def [symmetric] effective_targets_def pt_key_def)
  next
    case False
    then show ?thesis using frame unfolding r1_def by (simp add: stamped_def [symmetric])
  qed
qed

lemma example_policy_refs:
  "policyRefFromUnstructured (example_policy a) example_gvr =
   \<lparr>pol_Name = ''p'', pol_Namespace = ''shop'', pol_Kind = ''TrafficPolicy'', pol_Group = ''gateway.kgateway.dev''\<rparr>"
  by (simp add: policyRefFromUnstructured_def GetName_def GetNamespace_def GetKind_def
      example_policy_defs str_path_def)

lemma example_policy_accepted: "policyAccepted (Some (example_policy a)) \<longleftrightarrow> a = ''True''"
  by (simp add: policyAccepted_def NestedMap_def NestedSlice_def example_policy_defs str_field_def)

lemma example_policy_targets:
  "targetsFromUnstructured (Some (example_policy a)) =
   [\<lparr>pt_Kind = RouteKindHTTPRoute, pt_NS = ''shop'', pt_Name = ''r''\<rparr>]"
proof -
  have "equalFold ''Gateway.Networking.k8s.io'' ''gateway.networking.k8s.io''" by code_simp
  then show ?thesis
    by (simp add: targetsFromUnstructured_def NestedSlice_def example_policy_defs str_field_def
        target_of_ref_def GetNamespace_def str_path_def)
qed

lemma policy_follows_last_revision_witness:
  "set (get_list (policies
     (policy_revisions example_gvr (example_policy ''False'') [example_policy ''True'']
       (policyAdd (Some (example_policy ''False'')) example_gvr newRouteIndex))) ''HTTPRoute|shop/r'') =
   {policyRefFromUnstructured (example_policy ''True'') example_gvr}"
proof -
  have "set (get_list (policies
     (policy_revisions example_gvr (example_policy ''False'') [example_policy ''True'']
       (policyAdd (Some (example_policy ''False'')) example_gvr newRouteIndex))) ''HTTPRoute|shop/r'') =
    set (get_list (policies newRouteIndex) ''HTTPRoute|shop/r'') \<union>
    (if policyAccepted (Some (last (example_policy ''False'' # [example_policy ''True'']))) \<and>
        ''HTTPRoute|shop/r'' \<in> (\<lambda>t. routeKey (pt_Kind t) (pt_NS t) (pt_Name t)) `
          set (targetsFromUnstructured (Some (last (example_policy ''False'' # [example_policy ''True'']))))
     then {policyRefFromUnstructured (example_policy ''True'') example_gvr} else {})"
    by (rule policy_follows_last_revision)
      (auto simp: idx_inv_new [unfolded newRouteIndex_def] example_policy_refs newRouteIndex_def get_list_def)
  then show ?thesis
    by (simp add: example_policy_accepted example_policy_targets routeKey_def newRouteIndex_def get_list_def)
qed

text \<open>Claim C16. Deleting a policy drains the index: whatever revisions it went through, after the
  deletion of its last revision no route carries it, every other policy is where it was, and the
  routes, the backend index and the owners are untouched.\<close>

theorem policy_deletion_drains:
  assumes "idx_inv r"
    and "\<And>v. v \<in> set (u # us) \<Longrightarrow> policyRefFromUnstructured v gvr = p"
    and "\<And>key. p \<notin> set (get_list (policies r) key)"
  shows "let r' = policyDelete (last (u # us)) gvr (policy_revisions gvr u us (policyAdd (Some u) gvr r)) in
    idx_inv r' \<and>
    (\<forall>key. set (get_list (policies r') key) = set (get_list (policies r) key)) \<and>
    r' = r\<lparr>policies := policies r'\<rparr>"
proof -
  have n: "\<not> stamped r key p" for key using assms(3) by (simp add: stamped_def)
  define r1 where "r1 = policy_revisions gvr u us (policyAdd (Some u) gvr r)"
  have inv: "idx_inv r1"
    unfolding r1_def by (rule added_then_revised(1)) fact+
  have run: "stamped r1 key p \<longleftrightarrow> key \<in> effective_targets (Some (last (u # us)))" for key
    unfolding r1_def by (rule added_then_revised(2)) fact+
  have frame: "stamped r1 key q = stamped r key q" if "q \<noteq> p" for key q
    unfolding r1_def by (rule added_then_revised(3)) fact+
  have same: "same_routes r r1"
    unfolding r1_def by (rule added_then_revised(4)) fact+
  have p: "policyRefFromUnstructured (last (u # us)) gvr = p" using assms(2) last_in_set by blast
  have sub: "key \<in> effective_targets (Some v) \<Longrightarrow> key \<in> pt_key ` set (targetsFromUnstructured (Some v))" for key v
    by (simp add: effective_targets_def split: if_splits)
  have st: "stamped (policyDelete (last (u # us)) gvr r1) key q = stamped r key q" for key q
  proof (cases "q = p")
    case True
    then show ?thesis
      using run [of key] n [of key] sub [of key "last (u # us)"]
      by (simp add: stamped_policyDelete [OF inv] p del: last.simps)
  next
    case False
    then show ?thesis using frame by (simp add: stamped_policyDelete [OF inv] p del: last.simps)
  qed
  have "\<forall>key. set (get_list (policies (policyDelete (last (u # us)) gvr r1)) key) = set (get_list (policies r) key)"
    using st by (simp add: stamped_def set_eq_iff)
  moreover have "idx_inv (policyDelete (last (u # us)) gvr r1)"
    "same_routes r (policyDelete (last (u # us)) gvr r1)"
    using idx_inv_policyDelete [OF inv] same_routes_trans [OF same] by blast+
  ultimately show ?thesis
    unfolding Let_def r1_def [symmetric] same_routes_def by blast
qed

lemma policy_deletion_drains_witness:
  "set (get_list (policies (policyDelete (example_policy ''False'') example_gvr
     (policy_revisions example_gvr (example_policy ''True'') [example_policy ''False'']
       (policyAdd (Some (example_policy ''True'')) example_gvr newRouteIndex)))) ''HTTPRoute|shop/r'') = {}"
proof -
  have "let r' = policyDelete (last [example_policy ''True'', example_policy ''False'']) example_gvr
      (policy_revisions example_gvr (example_policy ''True'') [example_policy ''False'']
        (policyAdd (Some (example_policy ''True'')) example_gvr newRouteIndex)) in
    idx_inv r' \<and>
    (\<forall>key. set (get_list (policies r') key) = set (get_list (policies newRouteIndex) key)) \<and>
    r' = newRouteIndex\<lparr>policies := policies r'\<rparr>"
    by (rule policy_deletion_drains)
      (auto simp: idx_inv_new [unfolded newRouteIndex_def] example_policy_refs newRouteIndex_def get_list_def)
  then show ?thesis
    unfolding Let_def by (simp add: newRouteIndex_def get_list_def)
qed

text \<open>Acceptance: a policy without a status is taken as accepted; with a status it is
  accepted exactly when some condition of \<open>status.conditions\<close>, or of one of
  \<open>status.ancestors\<close>, has type Accepted and status True.\<close>

lemma policy_acceptance:
  "policyAccepted (Some u) \<longleftrightarrow>
   NestedMap u [''status''] = None \<or>
   (\<exists>conds. NestedSlice u [''status'', ''conditions''] = Some conds \<and>
      (\<exists>c \<in> set conds. is_map c \<and> json_field c ''type'' = Some (JStr ''Accepted'') \<and>
         json_field c ''status'' = Some (JStr ''True''))) \<or>
   (\<exists>ancs. NestedSlice u [''status'', ''ancestors''] = Some ancs \<and>
      (\<exists>a \<in> set ancs. \<exists>conds. json_field a ''conditions'' = Some (JList conds) \<and>
         (\<exists>c \<in> set conds. is_map c \<and> json_field c ''type'' = Some (JStr ''Accepted'') \<and>
            json_field c ''status'' = Some (JStr ''True''))))"
proof -
  have str: "str_field c k = v \<longleftrightarrow> json_field c k = Some (JStr v)" if "v \<noteq> ''''" for c k v
    using that by (auto simp: str_field_def split: option.splits json.splits)
  have conds: "conditionsHaveAcceptedTrue cs \<longleftrightarrow>
      (\<exists>c \<in> set cs. is_map c \<and> json_field c ''type'' = Some (JStr ''Accepted'') \<and>
         json_field c ''status'' = Some (JStr ''True''))" for cs
    by (induction cs) (auto simp: str)
  have map: "is_map a" if "json_field a k = Some v" for a k v
    using that by (cases a) simp_all
  have ancs: "ancestorsAccepted as \<longleftrightarrow>
      (\<exists>a \<in> set as. \<exists>cs. json_field a ''conditions'' = Some (JList cs) \<and> conditionsHaveAcceptedTrue cs)" for as
    by (induction as) (auto split: option.splits json.splits dest: map)
  show ?thesis
    unfolding policyAccepted_def conds [symmetric] by (auto simp: ancs split: option.splits)
qed

end
