(* ===== verification/Processor.thy ===== *)
theory Processor
  imports Config Telemetry
begin

text \<open>
  \<open>processor.go\<close>: the parser chain, the enrichment of one record, the backendref fallback with
  its address parsing and its disambiguator, and the three \<open>Consume\<close> methods.

  A record's attributes are a map from keys to values; the code mutates it in place, the model
  returns the new map. Data handed over by the collector is the nesting of its maps: resources,
  scopes, records (spans, log records, data points of metrics). \<open>env\<close> holds the library
  functions the code calls: \<open>pcommon.Value.AsString\<close> and \<open>url.Parse\<close> (the \<open>Host\<close> and the
  \<open>Hostname()\<close> of the result, or \<open>None\<close> for an error).
\<close>

section \<open>The processor\<close>

record env =
  env_asString :: as_string
  env_urlParse :: "string \<Rightarrow> (string \<times> string) option"

record ResourceRecords =
  rr_Resource :: attrs
  rr_Scopes :: "attrs list list"

type_synonym traces = "ResourceRecords list"
type_synonym logs = "ResourceRecords list"

datatype metric =
    MetricTypeEmpty
  | Gauge "attrs list"
  | Sum "attrs list"
  | Histogram "attrs list"
  | ExponentialHistogram "attrs list"
  | Summary "attrs list"

record ResourceMetrics =
  rm_Resource :: attrs
  rm_Scopes :: "metric list list"

type_synonym metrics = "ResourceMetrics list"

text \<open>A consumer downstream receives the data and answers with an error or without. A start hook
  fails or gives a lookup and the function that stops it.\<close>

record gatewayAPIProcessor =
  p_cfg :: Config
  p_parsers :: "parser list"
  p_passthroughAttrKey :: string
  p_tracesNext :: "(traces \<Rightarrow> string option) option"
  p_logsNext :: "(logs \<Rightarrow> string option) option"
  p_metricsNext :: "(metrics \<Rightarrow> string option) option"
  p_lookup :: RouteLookup
  p_inferCounter :: "nat option"   \<comment> \<open>the self-telemetry counter, nil when disabled\<close>
  p_startHook :: "(unit \<Rightarrow> string + RouteLookup \<times> (unit \<Rightarrow> string option)) option"
  p_stopFn :: "(unit \<Rightarrow> string option) option"

datatype build_error =
    NilConfig
  | EnvoyParserError string
  | UnknownParser string

text \<open>The loop of \<open>buildParserChain\<close> over the accumulators \<open>out\<close> and \<open>passthroughKey\<close>.\<close>

fun build_chain ::
  "(string \<Rightarrow> regexp option) \<Rightarrow> ParserConfig list \<Rightarrow> parser list \<Rightarrow> string \<Rightarrow> build_error + parser list \<times> string"
where
  "build_chain rc [] out passthroughKey = Inr (out, passthroughKey)"
| "build_chain rc (pc # pcs) out passthroughKey =
     (if pc_Name pc = ''envoy'' then
        (case NewEnvoyParser rc (pc_Name pc) (pc_SourceAttribute pc) (pc_FormatRegex pc) (pc_Controllers pc) of
           None \<Rightarrow> Inl (EnvoyParserError (pc_FormatRegex pc))
         | Some p \<Rightarrow> build_chain rc pcs (out @ [Envoy p]) passthroughKey)
      else if pc_Name pc = ''linkerd'' then
        build_chain rc pcs
          (out @ [Linkerd (NewLinkerdParser (pc_Name pc) (pc_Controllers pc) (pc_LinkerdLabels pc))])
          passthroughKey
      else if pc_Name pc = ''passthrough'' then
        (let pp = NewPassthroughParser (pc_Name pc) (pc_SourceAttribute pc) (pc_PassthroughAttribute pc) in
         build_chain rc pcs (out @ [Passthrough pp]) (PassthroughAttribute pp))
      else Inl (UnknownParser (pc_Name pc)))"

definition buildParserChain ::
  "(string \<Rightarrow> regexp option) \<Rightarrow> ParserConfig list \<Rightarrow> build_error + parser list \<times> string"
where
  "buildParserChain rc pcs = build_chain rc pcs [] ''''"

definition newProcessor ::
  "(string \<Rightarrow> regexp option) \<Rightarrow> meter_provider option \<Rightarrow> Config option \<Rightarrow>
   build_error + gatewayAPIProcessor"
where
  "newProcessor rc mp cfgo =
     (case cfgo of
        None \<Rightarrow> Inl NilConfig
      | Some cfg \<Rightarrow>
          (case buildParserChain rc (cfg_Parsers cfg) of
             Inl e \<Rightarrow> Inl e
           | Inr (parsers, passthroughKey) \<Rightarrow>
               Inr \<lparr>p_cfg = cfg, p_parsers = parsers, p_passthroughAttrKey = passthroughKey,
                    p_tracesNext = None, p_logsNext = None, p_metricsNext = None,
                    p_lookup = static_lookup newStaticLookup,
                    p_inferCounter = newParentInferredCounter mp, p_startHook = None, p_stopFn = None\<rparr>))"

text \<open>\<open>Start\<close> and \<open>Shutdown\<close>: the error, if any, and the new state.\<close>

definition Start :: "gatewayAPIProcessor \<Rightarrow> string option \<times> gatewayAPIProcessor" where
  "Start p =
     (case p_startHook p of
        None \<Rightarrow> (None, p)
      | Some hook \<Rightarrow>
          (case hook () of
             Inl err \<Rightarrow> (Some err, p)
           | Inr (lookup, stop) \<Rightarrow> (None, p\<lparr>p_lookup := lookup, p_stopFn := Some stop\<rparr>)))"

definition Shutdown :: "gatewayAPIProcessor \<Rightarrow> string option" where
  "Shutdown p = (case p_stopFn p of Some stop \<Rightarrow> stop () | None \<Rightarrow> None)"

section \<open>Stamping\<close>

text \<open>\<open>if val != "" { putString(attrs, key, val) }\<close>, and the choice of a key by the kind of the route.\<close>

definition putNonEmpty :: "attrs \<Rightarrow> string \<Rightarrow> string \<Rightarrow> attrs" where
  "putNonEmpty m key val = (if val \<noteq> '''' then putString m key val else m)"

definition by_kind :: "RouteAttributes \<Rightarrow> string \<Rightarrow> string \<Rightarrow> string" where
  "by_kind ra grpcKey httpKey = (if ra_Kind ra = RouteKindGRPCRoute then grpcKey else httpKey)"

definition putOptBool :: "attrs \<Rightarrow> string \<Rightarrow> bool option \<Rightarrow> attrs" where
  "putOptBool m key b = (case b of Some v \<Rightarrow> putBool m key v | None \<Rightarrow> m)"

definition stampRouteIdentity :: "attrs \<Rightarrow> result \<Rightarrow> attrs" where
  "stampRouteIdentity m r =
     (if Kind r = ''GRPCRoute''
      then putString (putString m AttrGRPCRouteName (Name r)) AttrGRPCRouteNamespace (Namespace r)
      else
        let m1 = putString (putString m AttrHTTPRouteName (Name r)) AttrHTTPRouteNamespace (Namespace r);
            m2 = (if 0 \<le> RuleIndex r then putInt m1 AttrHTTPRouteRuleIndex (RuleIndex r) else m1)
        in (if 0 \<le> MatchIndex r then putInt m2 AttrHTTPRouteMatchIndex (MatchIndex r) else m2))"

definition stampRuleName :: "attrs \<Rightarrow> RouteAttributes \<Rightarrow> int \<Rightarrow> attrs" where
  "stampRuleName m ra ruleIndex =
     (if ruleIndex < 0 \<or> int (length (ra_RuleNames ra)) \<le> ruleIndex then m
      else let name = ra_RuleNames ra ! nat ruleIndex in
        if name = '''' then m
        else if ra_Kind ra = RouteKindGRPCRoute then putString m AttrGRPCRouteRuleName name
        else putString m AttrHTTPRouteRuleName name)"

definition stampPolicyAttrs :: "attrs \<Rightarrow> RouteAttributes \<Rightarrow> attrs" where
  "stampPolicyAttrs m ra =
     (if length (ra_Policies ra) = 0 then m
      else let m1 = putSlice m AttrPolicyNames (map pol_Name (ra_Policies ra));
               m2 = putSlice m1 AttrPolicyKinds (map pol_Kind (ra_Policies ra));
               m3 = putSlice m2 AttrPolicyNamespaces (map pol_Namespace (ra_Policies ra));
               m4 = putSlice m3 AttrPolicyGroups (map pol_Group (ra_Policies ra));
               targetKind = (if ra_Kind ra = RouteKindGRPCRoute then ''GRPCRoute'' else ''HTTPRoute'')
        in putString m4 AttrPolicyTargetKind targetKind)"

text \<open>The waypoint of a route: the one its Gateway's class gives, or, for a mesh route of a Service,
  the one the Service selects by its label.\<close>

definition resolveWaypoint :: "gatewayAPIProcessor \<Rightarrow> RouteAttributes \<Rightarrow> string \<times> string \<times> string" where
  "resolveWaypoint p ra =
     (let own = (ra_WaypointImplementation ra, ra_WaypointName ra, ra_WaypointNamespace ra) in
      if ra_WaypointImplementation ra = '''' \<and> ra_RouteMode ra = RouteModeMesh \<and> ra_ParentServiceName ra \<noteq> ''''
      then case WaypointLookup (p_lookup p) of
        Some wl \<Rightarrow>
          (case wl (ra_ParentServiceNamespace ra) (ra_ParentServiceName ra) of
             Some found \<Rightarrow> found
           | None \<Rightarrow> own)
      | None \<Rightarrow> own
      else own)"

definition stampRouteAttrs :: "gatewayAPIProcessor \<Rightarrow> attrs \<Rightarrow> RouteAttributes \<Rightarrow> attrs" where
  "stampRouteAttrs p m ra =
     (let m1 = putNonEmpty m (by_kind ra AttrGRPCRouteUID AttrHTTPRouteUID) (ra_UID ra);
          m2 = putNonEmpty m1 (by_kind ra AttrGRPCRouteParentRef AttrHTTPRouteParentRef) (ra_ParentRef ra);
          m3 = putNonEmpty m2 (by_kind ra AttrGRPCRouteParentKind AttrHTTPRouteParentKind) (ra_ParentKind ra);
          m4 = (if EmitStatusConds (p_cfg p)
                then putOptBool
                  (putOptBool m3 (by_kind ra AttrGRPCRouteAccepted AttrHTTPRouteAccepted) (ra_Accepted ra))
                  (by_kind ra AttrGRPCRouteResolvedRefs AttrHTTPRouteResolvedRefs) (ra_ResolvedRefs ra)
                else m3);
          mode = (if ra_RouteMode ra = '''' then RouteModeIngress else ra_RouteMode ra);
          m5 = putString m4 AttrRouteMode mode;
          m6 = putNonEmpty m5 AttrGatewayName (ra_GatewayName ra);
          m7 = putNonEmpty m6 AttrGatewayNamespace (ra_GatewayNamespace ra);
          m8 = putNonEmpty m7 AttrGatewayUID (ra_GatewayUID ra);
          m9 = putNonEmpty m8 AttrGatewayListenerName (ra_GatewayListenerName ra);
          m10 = putNonEmpty m9 AttrGatewayClassName (ra_GatewayClassName ra);
          m11 = putNonEmpty m10 AttrGatewayClassController (ra_GatewayClassControllerName ra);
          m12 = putNonEmpty m11 AttrParentServiceName (ra_ParentServiceName ra);
          m13 = putNonEmpty m12 AttrParentServiceNamespace (ra_ParentServiceNamespace ra);
          m14 = (if 0 < ra_ParentServicePort ra
                 then putInt m13 AttrParentServicePort (ra_ParentServicePort ra) else m13);
          m15 = putNonEmpty m14 AttrRouteRole (ra_RouteRole ra);
          (impl, wpName, wpNS) = resolveWaypoint p ra;
          m16 = (if impl \<noteq> ''''
                 then putNonEmpty (putNonEmpty (putString m15 AttrWaypointImplementation impl)
                        AttrWaypointName wpName) AttrWaypointNamespace wpNS
                 else m15)
      in stampPolicyAttrs m16 ra)"

definition stampCRMetadata :: "gatewayAPIProcessor \<Rightarrow> attrs \<Rightarrow> result \<Rightarrow> attrs" where
  "stampCRMetadata p m r =
     (let kind = (if Kind r = ''GRPCRoute'' then RouteKindGRPCRoute else RouteKindHTTPRoute) in
      case LookupRoute (p_lookup p) kind (Namespace r) (Name r) of
        None \<Rightarrow> m
      | Some ra \<Rightarrow> stampRuleName (stampRouteAttrs p m ra) ra (RuleIndex r))"

definition maybeStripMetrics :: "gatewayAPIProcessor \<Rightarrow> attrs \<Rightarrow> signalKind \<Rightarrow> attrs" where
  "maybeStripMetrics p m signal =
     (if signal \<noteq> signalMetrics then m
      else foldl removeKey m (ExcludeFromMetricAttributes (Enrich (p_cfg p))))"

section \<open>Addresses\<close>

definition stripPort :: "string \<Rightarrow> string" where
  "stripPort host =
     (if hasPrefix host ''['' then
        (case index_byte (CHR '']'') host of
           Some i \<Rightarrow> if 0 < i then take (i - 1) (drop 1 host) else host
         | None \<Rightarrow> host)
      else if 1 < count_byte (CHR '':'') host then host
      else case last_index_byte (CHR '':'') host of
        Some i \<Rightarrow> if 0 < i then take i host else host
      | None \<Rightarrow> host)"

definition normalizeSourceAddr :: "env \<Rightarrow> string \<Rightarrow> string \<Rightarrow> string" where
  "normalizeSourceAddr e key raw =
     (if key = ''http.url'' \<or> key = ''url.full'' then
        (case env_urlParse e raw of
           None \<Rightarrow> ''''
         | Some (host, hostname) \<Rightarrow> if host = '''' then '''' else hostname)
      else if key = ''http.host'' then stripPort raw
      else stripPort raw)"

text \<open>The namespace and the Service of a DNS name; two empty strings when there are none.\<close>

definition splitAddress :: "string \<Rightarrow> string \<times> string" where
  "splitAddress addr =
     (case index_byte (CHR ''.'') addr of
        None \<Rightarrow> ('''', '''')
      | Some dot \<Rightarrow>
          if dot = 0 \<or> dot = length addr - 1 then ('''', '''')
          else let svc = take dot addr; rest = drop (dot + 1) addr;
                   nsEnd = (case index_byte (CHR ''.'') rest of Some i \<Rightarrow> i | None \<Rightarrow> length rest);
                   ns = take nsEnd rest
            in if ns = '''' then ('''', '''') else (ns, svc))"

section \<open>The fallback\<close>

definition resourceAttrK8sNamespace :: string where
  "resourceAttrK8sNamespace = ''k8s.namespace.name''"

definition candidateRouteMode :: "RouteAttributes \<Rightarrow> string" where
  "candidateRouteMode ra = (if ra_RouteMode ra = '''' then RouteModeIngress else ra_RouteMode ra)"

text \<open>The loop over the candidates: \<open>None\<close> is the early return on two of the same mode.\<close>

fun partition_candidates ::
  "RouteAttributes list \<Rightarrow> RouteAttributes option \<Rightarrow> RouteAttributes option \<Rightarrow>
   (RouteAttributes option \<times> RouteAttributes option) option"
where
  "partition_candidates [] mesh ingress = Some (mesh, ingress)"
| "partition_candidates (c # cs) mesh ingress =
     (if candidateRouteMode c = RouteModeMesh then
        (if mesh \<noteq> None then None else partition_candidates cs (Some c) ingress)
      else if candidateRouteMode c = RouteModeIngress then
        (if ingress \<noteq> None then None else partition_candidates cs mesh (Some c))
      else partition_candidates cs mesh ingress)"

definition disambiguateBackendCandidates ::
  "attrGetter \<Rightarrow> RouteAttributes list \<Rightarrow> RouteAttributes option"
where
  "disambiguateBackendCandidates get candidates =
     (if length candidates \<noteq> 2 then None
      else case partition_candidates candidates None None of
        Some (Some mesh, Some ingress) \<Rightarrow>
          if ra_ParentServiceNamespace mesh \<noteq> '''' \<and>
             get resourceAttrK8sNamespace = Some (ra_ParentServiceNamespace mesh)
          then Some mesh else Some ingress
      | _ \<Rightarrow> None)"

definition resolveByBackend ::
  "RouteLookup \<Rightarrow> attrGetter \<Rightarrow> string \<Rightarrow> string \<Rightarrow> RouteAttributes option"
where
  "resolveByBackend lookup get ns svc =
     (case LookupByBackendService lookup ns svc of
        Some r \<Rightarrow> Some r
      | None \<Rightarrow>
          (case LookupByBackendServiceWithParents lookup ns svc of
             None \<Rightarrow> None
           | Some candidates \<Rightarrow>
               if length candidates < 2 then None else disambiguateBackendCandidates get candidates))"

text \<open>The Service a DNS-shaped or bare address names.\<close>

definition addressService :: "attrGetter \<Rightarrow> string \<Rightarrow> string \<times> string" where
  "addressService get addr =
     (let (ns, svc) = splitAddress addr in
      if ns = '''' \<or> svc = '''' then
        (if CHR ''.'' \<notin> set addr then
           (case get resourceAttrK8sNamespace of
              Some resNs \<Rightarrow> if resNs \<noteq> '''' then (resNs, addr) else (ns, svc)
            | None \<Rightarrow> (ns, svc))
         else (ns, svc))
      else (ns, svc))"

text \<open>The body of the loop over the source attributes: \<open>None\<close> is \<open>continue\<close>.\<close>

definition fallbackKey :: "env \<Rightarrow> RouteLookup \<Rightarrow> attrGetter \<Rightarrow> string \<Rightarrow> RouteAttributes option" where
  "fallbackKey e lookup get key =
     (case get key of
        None \<Rightarrow> None
      | Some raw \<Rightarrow>
          if raw = '''' then None
          else let addr = normalizeSourceAddr e key raw in
            if addr = '''' then None
            else case ServiceIPLookup lookup of
              Some ipLookup \<Rightarrow>
                if ParseIP addr \<noteq> None then
                  (case ipLookup addr of
                     Some (ns, svc) \<Rightarrow> resolveByBackend lookup get ns svc
                   | None \<Rightarrow> None)
                else (let (ns, svc) = addressService get addr in
                      if ns = '''' \<or> svc = '''' then None else resolveByBackend lookup get ns svc)
            | None \<Rightarrow>
                (let (ns, svc) = addressService get addr in
                 if ns = '''' \<or> svc = '''' then None else resolveByBackend lookup get ns svc))"

fun fallbackSearch :: "env \<Rightarrow> RouteLookup \<Rightarrow> attrGetter \<Rightarrow> string list \<Rightarrow> RouteAttributes option" where
  "fallbackSearch e lookup get [] = None"
| "fallbackSearch e lookup get (key # keys) =
     (case fallbackKey e lookup get key of
        Some ra \<Rightarrow> Some ra
      | None \<Rightarrow> fallbackSearch e lookup get keys)"

definition applyBackendRefFallback ::
  "gatewayAPIProcessor \<Rightarrow> env \<Rightarrow> combinedView \<Rightarrow> attrs \<Rightarrow> signalKind \<Rightarrow> attrs"
where
  "applyBackendRefFallback p e view recordAttrs signal =
     (let keys = effectiveSourceAttrs (cfg_Fallback (p_cfg p)) in
      if length keys = 0 then recordAttrs
      else case fallbackSearch e (p_lookup p) (view_Get (env_asString e) view) keys of
        None \<Rightarrow> recordAttrs
      | Some ra \<Rightarrow>
          let kind = (if ra_Kind ra = RouteKindGRPCRoute then ''GRPCRoute'' else ''HTTPRoute'');
              pr = \<lparr>Matched = True, Namespace = ra_Namespace ra, Name = ra_Name ra, Kind = kind,
                    RuleIndex = -1, MatchIndex = -1, RawRouteName = '''',
                    ParserName = ''backendref_fallback''\<rparr>;
              m1 = stampRouteIdentity recordAttrs pr;
              m2 = stampRouteAttrs p m1 ra;
              m3 = putString m2 AttrParser (ParserName pr)
          in maybeStripMetrics p m3 signal)"

section \<open>Enrichment\<close>

text \<open>The parser loop: the first result that matched.\<close>

fun first_match :: "parser list \<Rightarrow> attrGetter \<Rightarrow> result option" where
  "first_match [] get = None"
| "first_match (pr # prs) get =
     (let res = parser_Parse pr get in if Matched res then Some res else first_match prs get)"

definition enrich :: "gatewayAPIProcessor \<Rightarrow> env \<Rightarrow> attrs \<Rightarrow> attrs \<Rightarrow> signalKind \<Rightarrow> attrs" where
  "enrich p e resourceAttrs recordAttrs signal =
     (let view = \<lparr>cv_record = recordAttrs, cv_resource = resourceAttrs\<rparr> in
      case first_match (p_parsers p) (view_Get (env_asString e) view) of
        None \<Rightarrow>
          if bf_Enabled (cfg_Fallback (p_cfg p))
          then applyBackendRefFallback p e view recordAttrs signal
          else recordAttrs
      | Some matched \<Rightarrow>
          let m1 = (if RawRouteName matched \<noteq> '''' \<and> p_passthroughAttrKey p \<noteq> ''''
                    then putString recordAttrs (p_passthroughAttrKey p) (RawRouteName matched)
                    else recordAttrs);
              m2 = (if ParserName matched \<noteq> '''' then putString m1 AttrParser (ParserName matched) else m1)
          in if Namespace matched = '''' \<or> Name matched = '''' then maybeStripMetrics p m2 signal
             else let m3 = stampRouteIdentity m2 matched;
                      m4 = stampCRMetadata p m3 matched
               in maybeStripMetrics p m4 signal)"

definition enrichMetric :: "gatewayAPIProcessor \<Rightarrow> env \<Rightarrow> attrs \<Rightarrow> metric \<Rightarrow> metric" where
  "enrichMetric p e resourceAttrs m =
     (let f = (\<lambda>dp. enrich p e resourceAttrs dp signalMetrics) in
      case m of
        Gauge dps \<Rightarrow> Gauge (map f dps)
      | Sum dps \<Rightarrow> Sum (map f dps)
      | Histogram dps \<Rightarrow> Histogram (map f dps)
      | ExponentialHistogram dps \<Rightarrow> ExponentialHistogram (map f dps)
      | Summary dps \<Rightarrow> Summary (map f dps)
      | MetricTypeEmpty \<Rightarrow> MetricTypeEmpty)"

text \<open>The \<open>Consume\<close> methods return what they pass downstream (a list: nothing when there is no
  consumer) and the error of the call.\<close>

definition deliver :: "('d \<Rightarrow> string option) option \<Rightarrow> 'd \<Rightarrow> 'd list \<times> string option" where
  "deliver next d = (case next of Some f \<Rightarrow> ([d], f d) | None \<Rightarrow> ([], None))"

definition ConsumeTraces :: "gatewayAPIProcessor \<Rightarrow> env \<Rightarrow> traces \<Rightarrow> traces list \<times> string option" where
  "ConsumeTraces p e td =
     (let td' = (if enrich_Traces (Enrich (p_cfg p))
                 then map (\<lambda>rs. rs\<lparr>rr_Scopes :=
                        map (map (\<lambda>span. enrich p e (rr_Resource rs) span signalTraces)) (rr_Scopes rs)\<rparr>) td
                 else td)
      in deliver (p_tracesNext p) td')"

definition ConsumeLogs :: "gatewayAPIProcessor \<Rightarrow> env \<Rightarrow> logs \<Rightarrow> logs list \<times> string option" where
  "ConsumeLogs p e ld =
     (let ld' = (if enrich_Logs (Enrich (p_cfg p))
                 then map (\<lambda>rl. rl\<lparr>rr_Scopes :=
                        map (map (\<lambda>rec. enrich p e (rr_Resource rl) rec signalLogs)) (rr_Scopes rl)\<rparr>) ld
                 else ld)
      in deliver (p_logsNext p) ld')"

definition ConsumeMetrics :: "gatewayAPIProcessor \<Rightarrow> env \<Rightarrow> metrics \<Rightarrow> metrics list \<times> string option" where
  "ConsumeMetrics p e md =
     (let md' = (if enrich_Metrics (Enrich (p_cfg p))
                 then map (\<lambda>rm. rm\<lparr>rm_Scopes := map (map (enrichMetric p e (rm_Resource rm))) (rm_Scopes rm)\<rparr>) md
                 else md)
      in deliver (p_metricsNext p) md')"

end
