(* ===== verification/Enrichment.thy ===== *)
theory Enrichment
  imports Processor IPIndexes "HOL-Library.Multiset"
begin

text \<open>
  Facts about the enrichment path of theory Processor: what each stamping step writes, that an
  enrichment is a patch (it overwrites a fixed set of keys with values that do not depend on the
  map it is applied to), the disambiguator, and the address parsing.
\<close>

section \<open>What a step writes\<close>

named_theorems put_lookup

lemma putString_lookup [put_lookup]: "putString m k v k' = (if k' = k then Some (VStr v) else m k')"
  by (simp add: putString_def)

lemma putInt_lookup [put_lookup]: "putInt m k v k' = (if k' = k then Some (VInt v) else m k')"
  by (simp add: putInt_def)

lemma putBool_lookup [put_lookup]: "putBool m k v k' = (if k' = k then Some (VBool v) else m k')"
  by (simp add: putBool_def)

lemma putSlice_lookup [put_lookup]: "putSlice m k v k' = (if k' = k then Some (VSlice v) else m k')"
  by (simp add: putSlice_def)

lemma putNonEmpty_lookup [put_lookup]:
  "putNonEmpty m k v k' = (if k' = k \<and> v \<noteq> '''' then Some (VStr v) else m k')"
  by (simp add: putNonEmpty_def putString_lookup)

lemma putOptBool_lookup [put_lookup]:
  "putOptBool m k b k' = (if k' = k \<and> b \<noteq> None then Some (VBool (the b)) else m k')"
  by (simp add: putOptBool_def putBool_lookup split: option.split)

lemma strip_lookup [put_lookup]:
  "maybeStripMetrics p m signal k =
   (if signal = signalMetrics \<and> k \<in> set (ExcludeFromMetricAttributes (Enrich (p_cfg p))) then None else m k)"
proof -
  have "foldl removeKey m ks k = (if k \<in> set ks then None else m k)" for ks and m :: attrs
    by (induction ks arbitrary: m) (auto simp: removeKey_def)
  then show ?thesis by (simp add: maybeStripMetrics_def)
qed

text \<open>The keys a route of a kind can be stamped with.\<close>

definition kind_keys :: "RouteKind \<Rightarrow> string list" where
  "kind_keys kind = (if kind = RouteKindGRPCRoute then grpc_keys else http_keys) @ shared_keys"

lemma kind_keys_schema: "set (kind_keys kind) \<subseteq> set schema_keys"
  by (auto simp: kind_keys_def schema_keys_def)

lemma stampPolicyAttrs_frame:
  "k \<notin> set shared_keys \<Longrightarrow> stampPolicyAttrs m ra k = m k"
  by (simp add: stampPolicyAttrs_def Let_def put_lookup shared_keys_def)

lemma stampRouteAttrs_frame:
  "k \<notin> set (kind_keys (ra_Kind ra)) \<Longrightarrow> stampRouteAttrs p m ra k = m k"
  by (cases "ra_Kind ra = RouteKindGRPCRoute")
    (simp_all add: stampRouteAttrs_def Let_def put_lookup stampPolicyAttrs_frame by_kind_def
      kind_keys_def http_keys_def grpc_keys_def shared_keys_def split: prod.split)

definition result_kind :: "result \<Rightarrow> RouteKind" where
  "result_kind r = (if Kind r = ''GRPCRoute'' then RouteKindGRPCRoute else RouteKindHTTPRoute)"

lemma stampRouteIdentity_frame:
  "k \<notin> set (kind_keys (result_kind r)) \<Longrightarrow> stampRouteIdentity m r k = m k"
  by (auto simp: stampRouteIdentity_def Let_def put_lookup kind_keys_def result_kind_def
      http_keys_def grpc_keys_def)

lemma stampRuleName_frame:
  "k \<notin> set (kind_keys (ra_Kind ra)) \<Longrightarrow> stampRuleName m ra i k = m k"
  by (cases "ra_Kind ra = RouteKindGRPCRoute")
    (simp_all add: stampRuleName_def Let_def put_lookup kind_keys_def http_keys_def grpc_keys_def)

lemma stampCRMetadata_frame:
  assumes "\<And>ra. LookupRoute (p_lookup p) (result_kind r) (Namespace r) (Name r) = Some ra \<Longrightarrow>
      k \<notin> set (kind_keys (ra_Kind ra))"
  shows "stampCRMetadata p m r k = m k"
  using assms
  by (simp add: stampCRMetadata_def result_kind_def [symmetric] Let_def stampRuleName_frame
      stampRouteAttrs_frame split: option.split)

section \<open>Patches\<close>

text \<open>A patch overwrites or removes fixed keys: \<open>w k = Some v\<close> leaves \<open>v\<close> at \<open>k\<close>.\<close>

definition is_patch :: "(attrs \<Rightarrow> attrs) \<Rightarrow> bool" where
  "is_patch f \<longleftrightarrow> (\<exists>w. \<forall>m k. f m k = (case w k of Some v \<Rightarrow> v | None \<Rightarrow> m k))"

lemma patch_idem:
  assumes "is_patch f"
  shows "f (f m) = f m"
proof (rule ext)
  fix k
  obtain w where w: "\<And>m k. f m k = (case w k of Some v \<Rightarrow> v | None \<Rightarrow> m k)"
    using assms unfolding is_patch_def by blast
  show "f (f m) k = f m k" by (simp add: w split: option.split)
qed

lemma patch_id: "is_patch (\<lambda>m. m)"
  unfolding is_patch_def by (rule exI [of _ "\<lambda>_. None"]) simp

lemma patch_comp:
  assumes "is_patch f" "is_patch g"
  shows "is_patch (\<lambda>m. g (f m))"
proof -
  obtain v w where "\<And>m k. f m k = (case v k of Some x \<Rightarrow> x | None \<Rightarrow> m k)"
    "\<And>m k. g m k = (case w k of Some x \<Rightarrow> x | None \<Rightarrow> m k)"
    using assms unfolding is_patch_def by blast
  then have "\<forall>m k. g (f m) k = (case (case w k of Some x \<Rightarrow> Some x | None \<Rightarrow> v k) of Some x \<Rightarrow> x | None \<Rightarrow> m k)"
    by (simp split: option.split)
  then show ?thesis
    unfolding is_patch_def by (intro exI [of _ "\<lambda>k. case w k of Some x \<Rightarrow> Some x | None \<Rightarrow> v k"])
qed

lemma patch_upd: "is_patch (\<lambda>m. m(k := v))"
  unfolding is_patch_def by (rule exI [of _ "[k \<mapsto> v]"]) simp

lemma patch_put:
  "is_patch (\<lambda>m. putString m k s)" "is_patch (\<lambda>m. putInt m k n)" "is_patch (\<lambda>m. putBool m k b)"
  "is_patch (\<lambda>m. putSlice m k xs)" "is_patch (\<lambda>m. removeKey m k)"
  by (simp_all add: attr_ops patch_upd)

lemma patch_if: "(b \<Longrightarrow> is_patch f) \<Longrightarrow> (\<not> b \<Longrightarrow> is_patch g) \<Longrightarrow> is_patch (\<lambda>m. if b then f m else g m)"
  by (cases b) simp_all

lemma patch_putNonEmpty: "is_patch (\<lambda>m. putNonEmpty m k v)"
  unfolding putNonEmpty_def by (intro patch_if patch_put patch_id)

lemma patch_putOptBool: "is_patch (\<lambda>m. putOptBool m k b)"
  by (cases b) (simp_all add: putOptBool_def patch_put patch_id)

text \<open>Composing with one step on the outside.\<close>

lemma patch_steps:
  assumes "is_patch f"
  shows "is_patch (\<lambda>m. putString (f m) k s)" "is_patch (\<lambda>m. putInt (f m) k n)"
    "is_patch (\<lambda>m. putBool (f m) k b)" "is_patch (\<lambda>m. putSlice (f m) k xs)"
    "is_patch (\<lambda>m. putNonEmpty (f m) k s)" "is_patch (\<lambda>m. putOptBool (f m) k ob)"
  by (fact patch_comp [OF assms patch_put(1)] patch_comp [OF assms patch_put(2)]
      patch_comp [OF assms patch_put(3)] patch_comp [OF assms patch_put(4)]
      patch_comp [OF assms patch_putNonEmpty] patch_comp [OF assms patch_putOptBool])+

lemma patch_stampPolicyAttrs: "is_patch (\<lambda>m. stampPolicyAttrs m ra)"
  unfolding stampPolicyAttrs_def Let_def by (intro patch_if patch_steps patch_id)

lemma patch_stampRouteIdentity: "is_patch (\<lambda>m. stampRouteIdentity m r)"
  unfolding stampRouteIdentity_def Let_def by (intro patch_if patch_steps patch_id)

lemma patch_stampRuleName: "is_patch (\<lambda>m. stampRuleName m ra i)"
  unfolding stampRuleName_def Let_def by (intro patch_if patch_steps patch_id)

lemma patch_stampRouteAttrs: "is_patch (\<lambda>m. stampRouteAttrs p m ra)"
proof -
  obtain impl n ns where w: "resolveWaypoint p ra = (impl, n, ns)" by (cases "resolveWaypoint p ra")
  show ?thesis
    unfolding stampRouteAttrs_def Let_def w prod.case
    by (intro patch_comp [OF _ patch_stampPolicyAttrs] patch_if patch_steps patch_id)
qed

lemma patch_strip: "is_patch (\<lambda>m. maybeStripMetrics p m signal)"
  unfolding is_patch_def
  by (intro exI [of _ "\<lambda>k. if signal = signalMetrics \<and> k \<in> set (ExcludeFromMetricAttributes (Enrich (p_cfg p)))
      then Some None else None"]) (simp add: strip_lookup)

lemma patch_stampCRMetadata: "is_patch (\<lambda>m. stampCRMetadata p m r)"
proof (cases "LookupRoute (p_lookup p) (result_kind r) (Namespace r) (Name r)")
  case None
  then show ?thesis by (simp add: stampCRMetadata_def result_kind_def [symmetric] patch_id)
next
  case (Some ra)
  then show ?thesis
    by (simp add: stampCRMetadata_def result_kind_def [symmetric]
        patch_comp [OF patch_stampRouteAttrs patch_stampRuleName])
qed

section \<open>Enrichment as a decision and a patch\<close>

text \<open>The decision \<open>enrich\<close> takes: a parser's result, a route found by the fallback, or nothing.\<close>

datatype decision = Parsed result | FellBack RouteAttributes | Untouched

definition decide :: "gatewayAPIProcessor \<Rightarrow> env \<Rightarrow> attrGetter \<Rightarrow> decision" where
  "decide p e get =
     (case first_match (p_parsers p) get of
        Some r \<Rightarrow> Parsed r
      | None \<Rightarrow>
          if bf_Enabled (cfg_Fallback (p_cfg p))
          then (case fallbackSearch e (p_lookup p) get (effectiveSourceAttrs (cfg_Fallback (p_cfg p))) of
                  Some ra \<Rightarrow> FellBack ra | None \<Rightarrow> Untouched)
          else Untouched)"

definition fallback_result :: "RouteAttributes \<Rightarrow> result" where
  "fallback_result ra =
     \<lparr>Matched = True, Namespace = ra_Namespace ra, Name = ra_Name ra,
      Kind = (if ra_Kind ra = RouteKindGRPCRoute then ''GRPCRoute'' else ''HTTPRoute''),
      RuleIndex = -1, MatchIndex = -1, RawRouteName = '''', ParserName = ''backendref_fallback''\<rparr>"

definition carry_out :: "gatewayAPIProcessor \<Rightarrow> decision \<Rightarrow> signalKind \<Rightarrow> attrs \<Rightarrow> attrs" where
  "carry_out p d signal m =
     (case d of
        Untouched \<Rightarrow> m
      | FellBack ra \<Rightarrow>
          maybeStripMetrics p (putString (stampRouteAttrs p (stampRouteIdentity m (fallback_result ra)) ra)
            AttrParser ''backendref_fallback'') signal
      | Parsed r \<Rightarrow>
          let m1 = (if RawRouteName r \<noteq> '''' \<and> p_passthroughAttrKey p \<noteq> ''''
                    then putString m (p_passthroughAttrKey p) (RawRouteName r) else m);
              m2 = (if ParserName r \<noteq> '''' then putString m1 AttrParser (ParserName r) else m1)
          in maybeStripMetrics p
               (if Namespace r = '''' \<or> Name r = '''' then m2
                else stampCRMetadata p (stampRouteIdentity m2 r) r) signal)"

lemma enrich_eq:
  "enrich p e res m signal =
   carry_out p (decide p e (view_Get (env_asString e) \<lparr>cv_record = m, cv_resource = res\<rparr>)) signal m"
proof (cases "first_match (p_parsers p) (view_Get (env_asString e) \<lparr>cv_record = m, cv_resource = res\<rparr>)")
  case None
  then show ?thesis
    by (simp add: enrich_def decide_def carry_out_def applyBackendRefFallback_def fallback_result_def
        Let_def split: option.split)
next
  case (Some r)
  then show ?thesis by (simp add: enrich_def decide_def carry_out_def Let_def)
qed

lemma patch_carry_out: "is_patch (carry_out p d signal)"
proof (cases d)
  case (Parsed r)
  have "is_patch (\<lambda>m. if RawRouteName r \<noteq> '''' \<and> p_passthroughAttrKey p \<noteq> ''''
      then putString m (p_passthroughAttrKey p) (RawRouteName r) else m)" (is "is_patch ?f1")
    by (intro patch_if patch_put patch_id)
  then have f2: "is_patch (\<lambda>m. if ParserName r \<noteq> '''' then putString (?f1 m) AttrParser (ParserName r) else ?f1 m)"
    (is "is_patch ?f2") by (intro patch_if patch_steps patch_id)
  have "is_patch (\<lambda>m. if Namespace r = '''' \<or> Name r = '''' then ?f2 m
      else stampCRMetadata p (stampRouteIdentity (?f2 m) r) r)"
    by (intro patch_if f2 patch_comp [OF _ patch_stampCRMetadata] patch_comp [OF _ patch_stampRouteIdentity])
  from patch_comp [OF this patch_strip, of p signal] show ?thesis
    unfolding is_patch_def Parsed carry_out_def Let_def decision.case .
next
  case (FellBack ra)
  have "is_patch (\<lambda>m. putString (stampRouteAttrs p (stampRouteIdentity m (fallback_result ra)) ra)
      AttrParser ''backendref_fallback'')"
    by (intro patch_steps patch_comp [OF _ patch_stampRouteAttrs] patch_stampRouteIdentity)
  from patch_comp [OF this patch_strip, of p signal] show ?thesis
    unfolding is_patch_def FellBack carry_out_def decision.case .
next
  case Untouched
  with patch_id show ?thesis unfolding is_patch_def Untouched carry_out_def decision.case by simp
qed

text \<open>The decision reads a record only at the keys of the parsers and of the fallback.\<close>

definition decision_reads :: "gatewayAPIProcessor \<Rightarrow> string set" where
  "decision_reads p =
     \<Union> (parser_reads ` set (p_parsers p)) \<union> set (effectiveSourceAttrs (cfg_Fallback (p_cfg p)))
     \<union> {resourceAttrK8sNamespace}"

lemma first_match_local:
  "(\<And>k. k \<in> \<Union> (parser_reads ` set prs) \<Longrightarrow> get k = get' k) \<Longrightarrow> first_match prs get = first_match prs get'"
proof (induction prs)
  case Nil
  then show ?case by simp
next
  case (Cons pr prs)
  have "parser_Parse pr get = parser_Parse pr get'"
    using Cons.prems by (intro any_parser.local) auto
  with Cons show ?case by (simp add: Let_def)
qed

lemma disambiguate_local:
  "get resourceAttrK8sNamespace = get' resourceAttrK8sNamespace \<Longrightarrow>
   disambiguateBackendCandidates get cs = disambiguateBackendCandidates get' cs"
  by (auto simp: disambiguateBackendCandidates_def split: option.splits)

lemma resolve_local:
  "get resourceAttrK8sNamespace = get' resourceAttrK8sNamespace \<Longrightarrow>
   resolveByBackend lookup get ns svc = resolveByBackend lookup get' ns svc"
  using disambiguate_local [of get get'] by (simp add: resolveByBackend_def cong: option.case_cong if_cong)

lemma fallbackKey_local:
  assumes ns: "get resourceAttrK8sNamespace = get' resourceAttrK8sNamespace" and "get key = get' key"
  shows "fallbackKey e lookup get key = fallbackKey e lookup get' key"
proof -
  have "addressService get addr = addressService get' addr" for addr
    using ns by (simp add: addressService_def split: prod.split)
  with assms(2) resolve_local [of get get', OF ns] show ?thesis
    by (simp add: fallbackKey_def cong: option.case_cong if_cong)
qed

lemma fallbackSearch_local:
  assumes "get resourceAttrK8sNamespace = get' resourceAttrK8sNamespace"
  shows "(\<And>k. k \<in> set keys \<Longrightarrow> get k = get' k) \<Longrightarrow>
    fallbackSearch e lookup get keys = fallbackSearch e lookup get' keys"
  using fallbackKey_local [of get get', OF assms]
  by (induction keys) (simp_all cong: option.case_cong)

lemma decide_local:
  assumes "\<And>k. k \<in> decision_reads p \<Longrightarrow> get k = get' k"
  shows "decide p e get = decide p e get'"
proof -
  have "first_match (p_parsers p) get = first_match (p_parsers p) get'"
    using assms by (intro first_match_local) (auto simp: decision_reads_def)
  moreover have "fallbackSearch e (p_lookup p) get (effectiveSourceAttrs (cfg_Fallback (p_cfg p))) =
      fallbackSearch e (p_lookup p) get' (effectiveSourceAttrs (cfg_Fallback (p_cfg p)))"
    using assms by (intro fallbackSearch_local) (auto simp: decision_reads_def)
  ultimately show ?thesis by (simp add: decide_def cong: option.case_cong)
qed

text \<open>The keys an enrichment can write or remove.\<close>

definition enrich_writes :: "gatewayAPIProcessor \<Rightarrow> signalKind \<Rightarrow> string set" where
  "enrich_writes p signal =
     set schema_keys \<union> {p_passthroughAttrKey p} \<union>
     (if signal = signalMetrics then set (ExcludeFromMetricAttributes (Enrich (p_cfg p))) else {})"

lemma shared_in_kind: "AttrParser \<in> set (kind_keys kind)" "AttrParser \<in> set schema_keys"
  by (simp_all add: kind_keys_def schema_keys_def shared_keys_def)

lemma carry_out_frame:
  assumes "k \<notin> enrich_writes p signal"
  shows "carry_out p d signal m k = m k"
proof -
  have k: "k \<notin> set (kind_keys kind)" "k \<noteq> AttrParser" "k \<noteq> p_passthroughAttrKey p" for kind
    using assms kind_keys_schema [of kind] shared_in_kind(2) by (auto simp: enrich_writes_def)
  have strip: "signal = signalMetrics \<Longrightarrow> k \<notin> set (ExcludeFromMetricAttributes (Enrich (p_cfg p)))"
    using assms by (auto simp: enrich_writes_def)
  show ?thesis
    by (cases d) (simp_all add: carry_out_def Let_def strip put_lookup k stampRouteAttrs_frame
        stampRouteIdentity_frame stampCRMetadata_frame cong: conj_cong)
qed

section \<open>The processor as a client of the lookup\<close>

text \<open>A lookup that also keeps the kinds of routes apart.\<close>

locale kinded_lookup = route_lookup +
  assumes lookup_kind:
      "invar s \<Longrightarrow> route_kind kind \<Longrightarrow> LookupRoute (lookup s) kind ns name = Some ra \<Longrightarrow> ra_Kind ra = kind"

context route_lookup
begin

lemma resolve_is_candidate:
  assumes "invar s" and hit: "resolveByBackend (lookup s) get ns svc = Some ra"
  shows "\<exists>ras. LookupByBackendServiceWithParents (lookup s) ns svc = Some ras \<and> ra \<in> set ras"
proof (cases "LookupByBackendService (lookup s) ns svc")
  case None
  then obtain ras where ras: "LookupByBackendServiceWithParents (lookup s) ns svc = Some ras"
    and dis: "disambiguateBackendCandidates get ras = Some ra"
    using hit by (auto simp: resolveByBackend_def split: option.splits if_splits)
  obtain a b where "ras = [a, b]"
    using dis by (auto simp: disambiguateBackendCandidates_def length_Suc_conv numeral_2_eq_2 split: if_splits)
  with dis have "ra \<in> set ras"
    by (auto simp: disambiguateBackendCandidates_def split: if_splits)
  with ras show ?thesis by blast
next
  case (Some r)
  with assms show ?thesis by (auto simp: resolveByBackend_def intro: single_is_candidate)
qed

lemma search_is_candidate:
  "invar s \<Longrightarrow> fallbackSearch e (lookup s) get keys = Some ra \<Longrightarrow>
   \<exists>ns svc ras. LookupByBackendServiceWithParents (lookup s) ns svc = Some ras \<and> ra \<in> set ras"
proof (induction keys)
  case Nil
  then show ?case by simp
next
  case (Cons key keys)
  show ?case
  proof (cases "fallbackKey e (lookup s) get key")
    case None
    with Cons show ?thesis by simp
  next
    case (Some r)
    then have "\<exists>ns svc. resolveByBackend (lookup s) get ns svc = Some ra"
      using Cons.prems(2)
      by (auto simp: fallbackKey_def Let_def split: option.splits if_splits prod.splits)
    then show ?thesis using resolve_is_candidate [OF Cons.prems(1)] by blast
  qed
qed

end

context kinded_lookup
begin

text \<open>A record gets keys of one route kind: those of the other kind are left alone or stripped.\<close>

lemma one_kind:
  assumes "invar s" and lk: "p_lookup p = lookup s" and pk: "p_passthroughAttrKey p \<notin> set schema_keys"
  shows "(\<forall>k \<in> set grpc_keys. carry_out p d signal m k \<in> {None, m k}) \<or>
         (\<forall>k \<in> set http_keys. carry_out p d signal m k \<in> {None, m k})"
proof -
  define kind where "kind = (case d of Parsed r \<Rightarrow> result_kind r
    | FellBack ra \<Rightarrow> if ra_Kind ra = RouteKindGRPCRoute then RouteKindGRPCRoute else RouteKindHTTPRoute
    | Untouched \<Rightarrow> RouteKindHTTPRoute)"
  have frame: "carry_out p d signal m k \<in> {None, m k}"
    if k: "k \<notin> set (kind_keys kind)" "k \<in> set schema_keys" for k
  proof -
    have neq: "k \<noteq> AttrParser" "k \<noteq> p_passthroughAttrKey p"
      using k pk shared_in_kind(1) [of kind] by auto
    show ?thesis
    proof (cases d)
      case (Parsed r)
      have kr: "kind = result_kind r" and rk: "route_kind (result_kind r)"
        by (simp_all add: kind_def Parsed result_kind_def route_kind_def)
      have "k \<notin> set (kind_keys (ra_Kind ra))"
        if "LookupRoute (p_lookup p) (result_kind r) (Namespace r) (Name r) = Some ra" for ra
        using lookup_kind [OF \<open>invar s\<close> rk] that k kr lk by auto
      with k kr neq show ?thesis
        by (simp add: Parsed carry_out_def Let_def put_lookup stampRouteIdentity_frame stampCRMetadata_frame)
    next
      case (FellBack ra)
      have "kind_keys kind = kind_keys (ra_Kind ra)" "kind_keys kind = kind_keys (result_kind (fallback_result ra))"
        by (simp_all add: kind_def FellBack kind_keys_def result_kind_def fallback_result_def)
      with k neq show ?thesis
        by (simp add: FellBack carry_out_def put_lookup stampRouteIdentity_frame stampRouteAttrs_frame)
    next
      case Untouched
      then show ?thesis by (simp add: carry_out_def)
    qed
  qed
  have sub: "set grpc_keys \<subseteq> set schema_keys" "set http_keys \<subseteq> set schema_keys"
    by (auto simp: schema_keys_def)
  show ?thesis
  proof (cases "kind = RouteKindGRPCRoute")
    case True
    then have "k \<notin> set (kind_keys kind)" if "k \<in> set http_keys" for k
      using that by (auto simp: kind_keys_def http_keys_def grpc_keys_def shared_keys_def)
    with frame sub show ?thesis by blast
  next
    case False
    then have "k \<notin> set (kind_keys kind)" if "k \<in> set grpc_keys" for k
      using that by (auto simp: kind_keys_def http_keys_def grpc_keys_def shared_keys_def)
    with frame sub show ?thesis by blast
  qed
qed

end

lemma index_lookup_kind:
  assumes "idx_inv r" "route_kind kind" "idx_LookupRoute r kind ns name = Some ra"
  shows "ra_Kind ra = kind"
proof -
  obtain ra0 where ra0: "routes r (routeKey kind ns name) = Some ra0" "ra_Kind ra = ra_Kind ra0"
    using assms(3) by (auto simp: idx_LookupRoute_def Let_def split: option.splits)
  then have "routeKey kind ns name = routeKey (ra_Kind ra0) (ra_Namespace ra0) (ra_Name ra0)"
    "route_kind (ra_Kind ra0)"
    using idx_invD(5,6) [OF assms(1)] by blast+
  with assms(2) ra0(2) show ?thesis
    using routeKey_kind_neq by (cases kind; cases "ra_Kind ra0") (auto simp: route_kind_def dest: sym)
qed

interpretation combined: kinded_lookup combined_inv combined_lookup
proof
  show "ra_Kind ra = kind" if "combined_inv s" "route_kind kind"
    "LookupRoute (combined_lookup s) kind ns name = Some ra" for s kind ns name ra
    using that index_lookup_kind by (auto simp: combined_inv_def combined_lookup_def)
qed

section \<open>The disambiguator\<close>

definition mesh_of :: "RouteAttributes \<Rightarrow> bool" where
  "mesh_of ra \<longleftrightarrow> ra_RouteMode ra = RouteModeMesh"

definition ingress_of :: "RouteAttributes \<Rightarrow> bool" where
  "ingress_of ra \<longleftrightarrow> ra_RouteMode ra = RouteModeIngress \<or> ra_RouteMode ra = ''''"

lemma candidate_mode:
  "candidateRouteMode ra = RouteModeMesh \<longleftrightarrow> mesh_of ra"
  "candidateRouteMode ra = RouteModeIngress \<longleftrightarrow> ingress_of ra"
  by (auto simp: candidateRouteMode_def mesh_of_def ingress_of_def const_defs)

lemma mesh_not_ingress: "mesh_of ra \<Longrightarrow> \<not> ingress_of ra"
  by (auto simp: mesh_of_def ingress_of_def const_defs)

text \<open>The choice between a mesh and an ingress candidate.\<close>

definition preferred :: "attrGetter \<Rightarrow> RouteAttributes \<Rightarrow> RouteAttributes \<Rightarrow> RouteAttributes" where
  "preferred get mesh ingress =
     (if ra_ParentServiceNamespace mesh \<noteq> '''' \<and>
         get resourceAttrK8sNamespace = Some (ra_ParentServiceNamespace mesh) then mesh else ingress)"

lemma disambiguate_pair:
  "disambiguateBackendCandidates get [a, b] =
   (if mesh_of a \<and> ingress_of b then Some (preferred get a b)
    else if ingress_of a \<and> mesh_of b then Some (preferred get b a)
    else None)"
  using mesh_not_ingress
  by (simp add: disambiguateBackendCandidates_def candidate_mode preferred_def)

lemma disambiguate_other: "length cs \<noteq> 2 \<Longrightarrow> disambiguateBackendCandidates get cs = None"
  by (simp add: disambiguateBackendCandidates_def)

lemma pairs: "length cs = 2 \<Longrightarrow> \<exists>a b. cs = [a, b]"
  by (auto simp: length_Suc_conv numeral_2_eq_2)

lemma disambiguate_mset:
  assumes "mset cs = mset cs'"
  shows "disambiguateBackendCandidates get cs = disambiguateBackendCandidates get cs'"
proof (cases "length cs = 2")
  case True
  moreover have "length cs' = 2" using True mset_eq_length [OF assms] by simp
  ultimately obtain a b c d where cs: "cs = [a, b]" "cs' = [c, d]" using pairs by metis
  with assms have "(a = c \<and> b = d) \<or> (a = d \<and> b = c)"
    by (auto simp: add_eq_conv_ex)
  then show ?thesis using cs mesh_not_ingress by (auto simp: disambiguate_pair)
next
  case False
  then show ?thesis using mset_eq_length [OF assms] by (simp add: disambiguate_other)
qed

section \<open>Addresses\<close>

lemma stripPort_plain: "hd (h @ ''x'') \<noteq> CHR ''['' \<Longrightarrow> CHR '':'' \<notin> set h \<Longrightarrow> stripPort h = h"
  by (cases h) (simp_all add: stripPort_def hasPrefix_def count_byte_zero last_index_byte_None [THEN iffD2])

lemma stripPort_port:
  assumes "h \<noteq> ''''" "hd h \<noteq> CHR ''[''" "CHR '':'' \<notin> set h" "CHR '':'' \<notin> set port"
  shows "stripPort (h @ '':'' @ port) = h"
proof -
  have "\<not> hasPrefix (h @ '':'' @ port) ''[''"
    using assms(1,2) by (cases h) (simp_all add: hasPrefix_def)
  moreover have "count_byte (CHR '':'') (h @ '':'' @ port) = 1"
    using assms(3,4) by (simp add: count_byte_zero [THEN iffD2])
  moreover have "last_index_byte (CHR '':'') (h @ '':'' @ port) = Some (length h)"
    using assms(4) by (simp add: last_index_byte_append)
  ultimately show ?thesis
    using assms(1) by (simp add: stripPort_def del: append_Cons append_Nil)
qed

lemma splitAddress_dns:
  assumes "svc \<noteq> ''''" "ns \<noteq> ''''" "CHR ''.'' \<notin> set svc" "CHR ''.'' \<notin> set ns"
    and "sfx = '''' \<or> hd sfx = CHR ''.''"
  shows "splitAddress (svc @ ''.'' @ ns @ sfx) = (ns, svc)"
proof -
  have dot: "index_byte (CHR ''.'') (svc @ ''.'' @ ns @ sfx) = Some (length svc)"
    using assms(3) by (simp add: index_byte_append)
  have "(case index_byte (CHR ''.'') (ns @ sfx) of Some i \<Rightarrow> i | None \<Rightarrow> length (ns @ sfx)) = length ns"
  proof (cases sfx)
    case Nil
    then show ?thesis using assms(4) by (simp add: index_byte_None [THEN iffD2])
  next
    case (Cons c d)
    then show ?thesis using assms(4,5) by (simp add: index_byte_append)
  qed
  with assms dot show ?thesis by (simp add: splitAddress_def Let_def)
qed

lemma splitAddress_bare: "CHR ''.'' \<notin> set addr \<Longrightarrow> splitAddress addr = ('''', '''')"
  by (simp add: splitAddress_def index_byte_None [THEN iffD2])

end
