(* ===== verification/EnrichmentProps.thy ===== *)
theory EnrichmentProps
  imports Enrichment
begin

text \<open>
  The properties of the enrichment path: which keys it touches and what it writes under them, that it
  is idempotent, what a metric is left with, that the first matching parser decides, what the default
  pipeline does with an Envoy route name and with an opaque one, the address parsing and the
  disambiguator.
\<close>

section \<open>The default pipeline\<close>

definition default_chain :: "parser list" where
  "default_chain =
     [Envoy \<lparr>ep_name = ''envoy'',
        ep_controllers = pc_Controllers (cfg_Parsers createDefaultConfig ! 0),
        ep_sourceAttribute = ''route_name'', ep_re = default_re,
        ep_nsIdx = 1, ep_nameIdx = 2, ep_ruleIdx = 3, ep_matchIdx = 4\<rparr>,
      Linkerd \<lparr>lp_name = ''linkerd'',
        lp_controllers = pc_Controllers (cfg_Parsers createDefaultConfig ! 1),
        lp_labels = \<lparr>lk_RouteName = ''route_name'', lk_RouteKind = ''route_kind'',
          lk_RouteNamespace = ''route_namespace'', lk_ParentName = ''parent_name''\<rparr>\<rparr>,
      Passthrough \<lparr>pp_name = ''passthrough'', pp_sourceAttribute = ''route_name'',
        pp_passthroughAttribute = ''k8s.gatewayapi.raw_route_name''\<rparr>]"

lemma default_chain_built:
  assumes "re_conforms rc"
  shows "buildParserChain rc (cfg_Parsers createDefaultConfig) = Inr (default_chain, AttrRawRouteName)"
proof -
  have "rc defaultFormatRegex = Some default_re"
    using assms defaultFormatRegex_parses by (simp add: re_conforms_def)
  then show ?thesis
    by (simp add: buildParserChain_def createDefaultConfig_def default_chain_def NewEnvoyParser_def
        NewLinkerdParser_def NewPassthroughParser_def PassthroughAttribute_def or_default_def
        SubexpNames_def default_re_def AttrRawRouteName_def)
qed

text \<open>The processor built from the default configuration, with any lookup.\<close>

definition default_processor :: "nat option \<Rightarrow> RouteLookup \<Rightarrow> gatewayAPIProcessor" where
  "default_processor c lookup =
     \<lparr>p_cfg = createDefaultConfig, p_parsers = default_chain, p_passthroughAttrKey = AttrRawRouteName,
      p_tracesNext = None, p_logsNext = None, p_metricsNext = None, p_lookup = lookup,
      p_inferCounter = c, p_startHook = None, p_stopFn = None\<rparr>"

lemma default_processor_built:
  "re_conforms rc \<Longrightarrow> newProcessor rc mp (Some createDefaultConfig) =
     Inr (default_processor (newParentInferredCounter mp) (static_lookup newStaticLookup))"
  by (simp add: newProcessor_def default_chain_built default_processor_def)

lemma default_excludes:
  "set (ExcludeFromMetricAttributes (Enrich createDefaultConfig)) =
   {AttrHTTPRouteUID, AttrGRPCRouteUID, AttrGatewayUID, AttrRawRouteName, AttrParentServicePort,
    AttrHTTPRouteRuleName, AttrGRPCRouteRuleName}"
  by (auto simp: createDefaultConfig_def attr_defs)

lemma default_parsers [simp]:
  "p_parsers (default_processor c l) = default_chain" "p_cfg (default_processor c l) = createDefaultConfig"
  "p_lookup (default_processor c l) = l" "p_passthroughAttrKey (default_processor c l) = AttrRawRouteName"
  by (simp_all add: default_processor_def)

text \<open>The identity keys are stamped by the parser's result alone.\<close>

definition identity_keys :: "string list" where
  "identity_keys = [AttrHTTPRouteName, AttrHTTPRouteNamespace, AttrHTTPRouteRuleIndex, AttrHTTPRouteMatchIndex,
     AttrGRPCRouteName, AttrGRPCRouteNamespace, AttrParser]"

lemma identity_stampPolicyAttrs: "k \<in> set identity_keys \<Longrightarrow> stampPolicyAttrs m ra k = m k"
  unfolding identity_keys_def list.set insert_iff empty_iff
  by (elim disjE FalseE) (simp_all add: stampPolicyAttrs_def Let_def put_lookup)

lemma identity_stampRouteAttrs:
  assumes "k \<in> set identity_keys"
  shows "stampRouteAttrs p m ra k = m k"
proof -
  obtain impl n ns where w: "resolveWaypoint p ra = (impl, n, ns)" by (cases "resolveWaypoint p ra")
  have "k \<noteq> by_kind ra AttrGRPCRouteUID AttrHTTPRouteUID"
    "k \<noteq> by_kind ra AttrGRPCRouteParentRef AttrHTTPRouteParentRef"
    "k \<noteq> by_kind ra AttrGRPCRouteParentKind AttrHTTPRouteParentKind"
    "k \<noteq> by_kind ra AttrGRPCRouteAccepted AttrHTTPRouteAccepted"
    "k \<noteq> by_kind ra AttrGRPCRouteResolvedRefs AttrHTTPRouteResolvedRefs"
    using assms by (auto simp: identity_keys_def by_kind_def)
  moreover have "k \<noteq> AttrRouteMode" "k \<noteq> AttrGatewayName" "k \<noteq> AttrGatewayNamespace" "k \<noteq> AttrGatewayUID"
    "k \<noteq> AttrGatewayListenerName" "k \<noteq> AttrGatewayClassName" "k \<noteq> AttrGatewayClassController"
    "k \<noteq> AttrParentServiceName" "k \<noteq> AttrParentServiceNamespace" "k \<noteq> AttrParentServicePort"
    "k \<noteq> AttrRouteRole" "k \<noteq> AttrWaypointImplementation" "k \<noteq> AttrWaypointName" "k \<noteq> AttrWaypointNamespace"
    using assms by (auto simp: identity_keys_def)
  ultimately show ?thesis
    using assms by (simp add: stampRouteAttrs_def Let_def w identity_stampPolicyAttrs put_lookup)
qed

lemma identity_stampCRMetadata:
  assumes "k \<in> set identity_keys"
  shows "stampCRMetadata p m r k = m k"
proof -
  have "k \<noteq> AttrGRPCRouteRuleName" "k \<noteq> AttrHTTPRouteRuleName"
    using assms by (auto simp: identity_keys_def)
  then show ?thesis
    by (simp add: stampCRMetadata_def stampRuleName_def put_lookup Let_def
        identity_stampRouteAttrs [OF assms] split: option.split)
qed

lemma raw_route_name_neq: "k \<in> set schema_keys \<Longrightarrow> k \<noteq> AttrRawRouteName"
  by (auto simp: key_list_defs attr_defs)

lemma envoy_parses:
  assumes "get ''route_name'' = Some (envoy_route ns name ri mi)"
    and "ns \<noteq> ''''" "CHR ''/'' \<notin> set ns" "name \<noteq> ''''" "CHR ''/'' \<notin> set name"
    and "\<And>n. ri = Some n \<or> mi = Some n \<Longrightarrow> n < 2 ^ 63"
  shows "parser_Parse (default_chain ! 0) get = \<lparr>Matched = True, Namespace = ns, Name = name, Kind = ''HTTPRoute'',
    RuleIndex = (case ri of Some n \<Rightarrow> int n | None \<Rightarrow> -1),
    MatchIndex = (case mi of Some n \<Rightarrow> int n | None \<Rightarrow> -1),
    RawRouteName = envoy_route ns name ri mi, ParserName = ''envoy''\<rparr>"
proof -
  obtain whole where sub: "FindStringSubmatch default_re (envoy_route ns name ri mi)
      = Some [whole, ns, name, opt_digits ri, opt_digits mi]"
    using default_re_submatch [OF assms(2-5)] by blast
  have dig: "capturedInt [whole, ns, name, opt_digits ri, opt_digits mi] 3 = (case ri of Some n \<Rightarrow> int n | None \<Rightarrow> -1)"
    using assms(6) by (cases ri) (simp_all add: capturedInt_def opt_digits_def atoi_itoa)
  have "capturedInt [whole, ns, name, opt_digits ri, opt_digits mi] 4 = (case mi of Some n \<Rightarrow> int n | None \<Rightarrow> -1)"
    using assms(6) by (cases mi) (simp_all add: capturedInt_def opt_digits_def atoi_itoa)
  moreover have "envoy_route ns name ri mi \<noteq> ''''" by (simp add: envoy_route_def)
  ultimately show ?thesis
    using assms(1-5) sub dig by (simp add: default_chain_def envoy_Parse_def Let_def)
qed

lemma envoy_result:
  "Matched (parser_Parse (default_chain ! 0) get) \<Longrightarrow>
   first_match default_chain get = Some (parser_Parse (default_chain ! 0) get)"
  by (simp add: default_chain_def Let_def)

lemma parsers_upd_waypoint: "resolveWaypoint (p\<lparr>p_parsers := prs\<rparr>) ra = resolveWaypoint p ra"
  by (simp add: resolveWaypoint_def Let_def)

lemma parsers_upd_cfg: "p_cfg (p\<lparr>p_parsers := prs\<rparr>) = p_cfg p"
  by simp

lemma parsers_upd [simp]:
  "stampRouteAttrs (p\<lparr>p_parsers := prs\<rparr>) m ra = stampRouteAttrs p m ra"
  "maybeStripMetrics (p\<lparr>p_parsers := prs\<rparr>) m signal = maybeStripMetrics p m signal"
  by (simp_all only: stampRouteAttrs_def maybeStripMetrics_def parsers_upd_waypoint parsers_upd_cfg)

lemma parsers_upd_carry_out: "carry_out (p\<lparr>p_parsers := prs\<rparr>) d signal m = carry_out p d signal m"
proof -
  have "stampCRMetadata (p\<lparr>p_parsers := prs\<rparr>) m r = stampCRMetadata p m r" for m r
    by (simp add: stampCRMetadata_def split: option.split)
  then show ?thesis by (simp add: carry_out_def Let_def split: decision.split)
qed

section \<open>Properties\<close>

text \<open>A record and an environment for the examples: a span with an Envoy route name in the
  namespace \<open>shop\<close>.\<close>

definition example_env :: env where
  "example_env = \<lparr>env_asString = show_value, env_urlParse = (\<lambda>_. None)\<rparr>"

definition example_record :: attrs where
  "example_record = [''route_name'' \<mapsto> VStr (envoy_route ''shop'' ''cart'' (Some 1) None), ''http.method'' \<mapsto> VStr ''GET'']"

definition no_lookup :: RouteLookup where
  "no_lookup = static_lookup newStaticLookup"

lemmas example_enrich_defs = example_env_def example_record_def

text \<open>Claim C9. Frame of an enrichment: a key outside the attribute schema, other than the
  passthrough key and, on metrics, other than the excluded keys, keeps its value, whatever the
  parsers, the lookup and the record are.\<close>

theorem enrich_frame:
  assumes "k \<notin> set schema_keys" and "k \<noteq> p_passthroughAttrKey p"
    and "signal = signalMetrics \<Longrightarrow> k \<notin> set (ExcludeFromMetricAttributes (Enrich (p_cfg p)))"
  shows "enrich p e res m signal k = m k"
  using assms by (simp add: enrich_eq carry_out_frame enrich_writes_def)

lemma http_method_free: "''http.method'' \<notin> set schema_keys" "''route_name'' \<notin> set schema_keys"
  by (simp_all add: key_list_defs attr_defs)

lemma enrich_frame_witness:
  "enrich (default_processor None no_lookup) example_env Map.empty example_record signalMetrics ''http.method'' = Some (VStr ''GET'')"
  using enrich_frame [of "''http.method''" "default_processor None no_lookup" signalMetrics example_env Map.empty example_record]
    http_method_free
  by (simp add: default_excludes attr_defs example_record_def)

text \<open>Claim C24. Metrics hygiene: a data point that is attributed, by a parser or by the fallback, gets
  what a span with the same attributes would get, less every key of
  \<open>exclude_from_metric_attributes\<close>, also where such a key was there before; a data point that nothing
  attributes is passed on as it came in, excluded keys included.\<close>

theorem metrics_exclusion_exact:
  "enrich p e res m signalMetrics =
   (let get = view_Get (env_asString e) \<lparr>cv_record = m, cv_resource = res\<rparr>;
        attributed = (case first_match (p_parsers p) get of
            Some r \<Rightarrow> True
          | None \<Rightarrow> bf_Enabled (cfg_Fallback (p_cfg p)) \<and>
              fallbackSearch e (p_lookup p) get (effectiveSourceAttrs (cfg_Fallback (p_cfg p))) \<noteq> None) in
    if attributed
    then (\<lambda>k. if k \<in> set (ExcludeFromMetricAttributes (Enrich (p_cfg p))) then None
              else enrich p e res m signalTraces k)
    else m)"
proof -
  let ?get = "view_Get (env_asString e) \<lparr>cv_record = m, cv_resource = res\<rparr>"
  have strip: "carry_out p d signalMetrics m =
      (if d = Untouched then m
       else (\<lambda>k. if k \<in> set (ExcludeFromMetricAttributes (Enrich (p_cfg p))) then None
                 else carry_out p d signalTraces m k))" for d
    by (cases d) (simp_all add: carry_out_def Let_def strip_lookup fun_eq_iff)
  have attributed: "(case first_match (p_parsers p) ?get of
        Some r \<Rightarrow> True
      | None \<Rightarrow> bf_Enabled (cfg_Fallback (p_cfg p)) \<and>
          fallbackSearch e (p_lookup p) ?get (effectiveSourceAttrs (cfg_Fallback (p_cfg p))) \<noteq> None) \<longleftrightarrow>
      decide p e ?get \<noteq> Untouched"
    by (simp add: decide_def split: option.split)
  show ?thesis
    unfolding Let_def enrich_eq strip attributed by simp
qed

text \<open>Claim C25. Enrichment is idempotent: where the keys the parsers and the fallback read are
  not among the keys an enrichment writes or removes, enriching an enriched record changes
  nothing, so running the processor twice in a pipeline is harmless.\<close>

theorem enrich_idempotent:
  assumes "decision_reads p \<inter> enrich_writes p signal = {}"
  shows "enrich p e res (enrich p e res m signal) signal = enrich p e res m signal"
proof -
  let ?get = "\<lambda>m. view_Get (env_asString e) \<lparr>cv_record = m, cv_resource = res\<rparr>"
  let ?d = "decide p e (?get m)"
  have "?get (carry_out p ?d signal m) k = ?get m k" if "k \<in> decision_reads p" for k
  proof -
    have "carry_out p ?d signal m k = m k" using assms that by (intro carry_out_frame) blast
    then show ?thesis by (simp add: view_Get_eq map_add_def)
  qed
  then have "decide p e (?get (carry_out p ?d signal m)) = ?d" by (rule decide_local)
  then show ?thesis by (simp add: enrich_eq patch_idem [OF patch_carry_out])
qed

lemma default_reads:
  "decision_reads (default_processor c l) =
   {''route_name'', ''route_namespace'', ''route_kind'', ''server.address'', ''net.peer.name'', ''http.host'',
    ''url.full'', ''http.url'', ''k8s.namespace.name''}"
  by (auto simp: decision_reads_def default_chain_def resourceAttrK8sNamespace_def effectiveSourceAttrs_set
      createDefaultConfig_def)

lemma default_writes_disjoint: "decision_reads (default_processor c l) \<inter> enrich_writes (default_processor c l) signal = {}"
proof -
  have "k \<notin> enrich_writes (default_processor c l) signal" if "k \<in> decision_reads (default_processor c l)" for k
  proof -
    have "enrich_writes (default_processor c l) signal \<subseteq> set (AttrRawRouteName # schema_keys)"
      by (auto simp: enrich_writes_def default_excludes key_list_defs)
    moreover have "k \<notin> set (AttrRawRouteName # schema_keys)"
      using that unfolding default_reads insert_iff empty_iff
      by (elim disjE FalseE) (simp_all add: key_list_defs attr_defs)
    ultimately show ?thesis by blast
  qed
  then show ?thesis by blast
qed

lemma enrich_idempotent_witness:
  "enrich (default_processor None no_lookup) example_env Map.empty
     (enrich (default_processor None no_lookup) example_env Map.empty example_record signalTraces) signalTraces =
   enrich (default_processor None no_lookup) example_env Map.empty example_record signalTraces"
  by (rule enrich_idempotent) (rule default_writes_disjoint)

text \<open>So an excluded key stays on a data point that nothing attributes: a sum without a route name and
  without an address keeps the route's UID it came with, although the key is excluded.\<close>

lemma unattributed_metric_keeps_excluded:
  "AttrHTTPRouteUID \<in> set (ExcludeFromMetricAttributes (Enrich createDefaultConfig)) \<and>
   enrich (default_processor None no_lookup) example_env Map.empty [AttrHTTPRouteUID \<mapsto> VStr ''u1''] signalMetrics =
     [AttrHTTPRouteUID \<mapsto> VStr ''u1'']"
proof -
  let ?m = "[AttrHTTPRouteUID \<mapsto> VStr ''u1'']"
  let ?get = "view_Get (env_asString example_env) \<lparr>cv_record = ?m, cv_resource = Map.empty\<rparr>"
  have none: "?get k = None" if "k \<in> decision_reads (default_processor None no_lookup)" for k
  proof -
    have "k \<noteq> AttrHTTPRouteUID" using that by (auto simp: default_reads attr_defs)
    then show ?thesis by (simp add: view_Get_def)
  qed
  have "decide (default_processor None no_lookup) example_env ?get = decide (default_processor None no_lookup) example_env Map.empty"
    by (rule decide_local) (simp add: none)
  also have "\<dots> = Untouched"
  proof -
    have "first_match default_chain Map.empty = None"
      by (simp add: default_chain_def envoy_Parse_def linkerd_Parse_def passthrough_Parse_def Let_def)
    moreover have "fallbackSearch example_env l Map.empty keys = None" for l keys
      by (induction keys) (simp_all add: fallbackKey_def)
    ultimately show ?thesis by (simp add: decide_def)
  qed
  finally show ?thesis by (simp add: enrich_eq carry_out_def default_excludes)
qed

text \<open>Every parser a configuration builds has one of the three names.\<close>

lemma build_chain_names:
  "build_chain rc pcs out key = Inr (prs, key') \<Longrightarrow> pr \<in> set prs \<Longrightarrow>
   pr \<in> set out \<or> parser_Name pr \<in> {''envoy'', ''linkerd'', ''passthrough''}"
  by (induction rc pcs out key rule: build_chain.induct)
    (auto simp: NewEnvoyParser_def NewLinkerdParser_def NewPassthroughParser_def Let_def split: if_splits option.splits)

lemma first_match_nth:
  "i < length prs \<Longrightarrow> (\<And>j. j < i \<Longrightarrow> \<not> Matched (parser_Parse (prs ! j) get)) \<Longrightarrow>
   Matched (parser_Parse (prs ! i) get) \<Longrightarrow> first_match prs get = Some (parser_Parse (prs ! i) get)"
proof (induction prs arbitrary: i)
  case Nil
  then show ?case by simp
next
  case (Cons pr prs)
  show ?case
  proof (cases i)
    case 0
    with Cons.prems show ?thesis by (simp add: Let_def)
  next
    case (Suc n)
    have "\<not> Matched (parser_Parse pr get)" using Cons.prems(2) [of 0] Suc by simp
    moreover have "first_match prs get = Some (parser_Parse (prs ! n) get)"
      using Cons.IH [of n] Cons.prems(1,3) Cons.prems(2) [of "Suc _"] Suc by simp
    ultimately show ?thesis using Suc by (simp add: Let_def)
  qed
qed

text \<open>What a record carries of a parser's result, before a metric loses its excluded keys.\<close>

lemma carried_result:
  assumes "ParserName r \<noteq> ''''"
  shows "carry_out p (Parsed r) signalTraces m AttrParser = Some (VStr (ParserName r))"
    and "Namespace r \<noteq> '''' \<Longrightarrow> Name r \<noteq> '''' \<Longrightarrow> carry_out p (Parsed r) signalTraces m
      (if Kind r = ''GRPCRoute'' then AttrGRPCRouteName else AttrHTTPRouteName) = Some (VStr (Name r))"
    and "Namespace r \<noteq> '''' \<Longrightarrow> Name r \<noteq> '''' \<Longrightarrow> carry_out p (Parsed r) signalTraces m
      (if Kind r = ''GRPCRoute'' then AttrGRPCRouteNamespace else AttrHTTPRouteNamespace) = Some (VStr (Namespace r))"
  using assms
  by (auto simp: carry_out_def Let_def strip_lookup put_lookup identity_stampCRMetadata identity_keys_def
      stampRouteIdentity_def)

lemma carry_out_signal:
  "carry_out p (Parsed r) signal m k =
   (if signal = signalMetrics \<and> k \<in> set (ExcludeFromMetricAttributes (Enrich (p_cfg p))) then None
    else carry_out p (Parsed r) signalTraces m k)"
  by (simp add: carry_out_def Let_def strip_lookup)

text \<open>Claim C23. The first parser of the chain that matches decides, on every signal: where the chain was
  built from a configuration, the enrichment is the one that parser alone would give, the parsers
  after it are not consulted, the record names it as its parser, and, when its result has a
  namespace and a name, these are the route's namespace and name on the record, under the keys of the
  kind the result has; a metric is only without those of these keys that are excluded on metrics.\<close>

theorem first_parser_decides:
  assumes "buildParserChain rc pcs = Inr (p_parsers p, key)" and "i < length (p_parsers p)"
    and "Matched (parser_Parse (p_parsers p ! i) (view_Get (env_asString e) \<lparr>cv_record = m, cv_resource = res\<rparr>))"
    and "\<And>j. j < i \<Longrightarrow>
      \<not> Matched (parser_Parse (p_parsers p ! j) (view_Get (env_asString e) \<lparr>cv_record = m, cv_resource = res\<rparr>))"
  shows "let m' = enrich p e res m signal;
      r = parser_Parse (p_parsers p ! i) (view_Get (env_asString e) \<lparr>cv_record = m, cv_resource = res\<rparr>);
      carries = (\<lambda>k v. m' k = (if signal = signalMetrics \<and> k \<in> set (ExcludeFromMetricAttributes (Enrich (p_cfg p)))
        then None else Some (VStr v)))
    in enrich (p\<lparr>p_parsers := [p_parsers p ! i]\<rparr>) e res m signal = m'
     \<and> (\<forall>prs. enrich (p\<lparr>p_parsers := take (Suc i) (p_parsers p) @ prs\<rparr>) e res m signal = m')
     \<and> carries AttrParser (parser_Name (p_parsers p ! i))
     \<and> (Namespace r \<noteq> '''' \<and> Name r \<noteq> '''' \<longrightarrow>
          carries (if Kind r = ''GRPCRoute'' then AttrGRPCRouteName else AttrHTTPRouteName) (Name r) \<and>
          carries (if Kind r = ''GRPCRoute'' then AttrGRPCRouteNamespace else AttrHTTPRouteNamespace) (Namespace r))"
proof -
  let ?get = "view_Get (env_asString e) \<lparr>cv_record = m, cv_resource = res\<rparr>"
  define r where "r = parser_Parse (p_parsers p ! i) ?get"
  have decides: "decide (p\<lparr>p_parsers := prs\<rparr>) e ?get = Parsed r"
    if "n < length prs" "prs ! n = p_parsers p ! i" "\<And>j. j < n \<Longrightarrow> \<not> Matched (parser_Parse (prs ! j) ?get)" for prs n
    using first_match_nth [of n prs ?get] that assms(3) by (simp add: decide_def r_def)
  have d: "decide p e ?get = Parsed r"
    using decides [of i "p_parsers p"] assms(2,4) by simp
  have alone: "decide (p\<lparr>p_parsers := [p_parsers p ! i]\<rparr>) e ?get = Parsed r"
    by (rule decides [of 0]) simp_all
  have longer: "decide (p\<lparr>p_parsers := take (Suc i) (p_parsers p) @ prs\<rparr>) e ?get = Parsed r" for prs
    using assms(2,4) by (intro decides [of i]) (simp_all add: nth_append)
  have name: "ParserName r = parser_Name (p_parsers p ! i)"
    unfolding r_def by (rule any_parser.parser_name [OF assms(3)])
  then have "ParserName r \<noteq> ''''"
    using build_chain_names [of rc pcs "[]" "''''" "p_parsers p" key "p_parsers p ! i"] assms(1,2)
    by (auto simp: buildParserChain_def)
  note carried = carried_result [OF this]
  have kept: "carry_out p (Parsed r) signal m k =
      (if signal = signalMetrics \<and> k \<in> set (ExcludeFromMetricAttributes (Enrich (p_cfg p))) then None else Some (VStr v))"
    if "carry_out p (Parsed r) signalTraces m k = Some (VStr v)" for k v
    by (simp add: carry_out_signal [of p r signal] that)
  show ?thesis
    unfolding Let_def enrich_eq d alone longer parsers_upd_carry_out r_def [symmetric] name [symmetric]
    by (intro conjI allI impI refl kept carried; (elim conjE, assumption)?)
qed

lemma first_parser_decides_witness:
  "enrich (default_processor None no_lookup) example_env Map.empty example_record signalMetrics AttrParser =
     Some (VStr ''envoy'') \<and>
   enrich (default_processor None no_lookup) example_env Map.empty example_record signalMetrics AttrHTTPRouteName =
     Some (VStr ''cart'')"
proof -
  let ?get = "view_Get show_value \<lparr>cv_record = example_record, cv_resource = Map.empty\<rparr>"
  have parses: "parser_Parse (default_chain ! 0) ?get = \<lparr>Matched = True, Namespace = ''shop'', Name = ''cart'',
      Kind = ''HTTPRoute'', RuleIndex = 1, MatchIndex = -1,
      RawRouteName = envoy_route ''shop'' ''cart'' (Some 1) None, ParserName = ''envoy''\<rparr>"
    by (subst envoy_parses [of _ "''shop''" "''cart''" "Some 1" None]) (simp_all add: example_record_def)
  have built: "buildParserChain re_parse (cfg_Parsers createDefaultConfig) = Inr (default_chain, AttrRawRouteName)"
    by (rule default_chain_built) simp
  have name: "parser_Name (default_chain ! 0) = ''envoy''" "0 < length default_chain"
    by (simp_all add: default_chain_def)
  have keys: "AttrHTTPRouteName \<noteq> AttrRawRouteName" "AttrParser \<noteq> AttrRawRouteName" by (simp_all add: attr_defs)
  have "let m' = enrich (default_processor None no_lookup) example_env Map.empty example_record signalMetrics;
      r = parser_Parse (default_chain ! 0) ?get;
      carries = (\<lambda>k v. m' k = (if signalMetrics = signalMetrics \<and> k \<in> set (ExcludeFromMetricAttributes (Enrich createDefaultConfig))
        then None else Some (VStr v)))
    in enrich ((default_processor None no_lookup)\<lparr>p_parsers := [default_chain ! 0]\<rparr>) example_env Map.empty example_record signalMetrics = m'
     \<and> (\<forall>prs. enrich ((default_processor None no_lookup)\<lparr>p_parsers := take (Suc 0) default_chain @ prs\<rparr>) example_env Map.empty
          example_record signalMetrics = m')
     \<and> carries AttrParser (parser_Name (default_chain ! 0))
     \<and> (Namespace r \<noteq> '''' \<and> Name r \<noteq> '''' \<longrightarrow>
          carries (if Kind r = ''GRPCRoute'' then AttrGRPCRouteName else AttrHTTPRouteName) (Name r) \<and>
          carries (if Kind r = ''GRPCRoute'' then AttrGRPCRouteNamespace else AttrHTTPRouteNamespace) (Namespace r))"
    using first_parser_decides [of re_parse "cfg_Parsers createDefaultConfig" "default_processor None no_lookup"
        AttrRawRouteName 0 example_env example_record Map.empty signalMetrics]
    by (simp only: default_parsers built name parses example_env_def env.select_convs result.select_convs)
  then show ?thesis by (simp add: Let_def parses name default_excludes keys)
qed

text \<open>Claim C10. The default pipeline on an Envoy route name: a processor built from the default
  configuration, with any lookup, reads the name \<open>httproute/<ns>/<name>[/rule/<i>][/match/<j>]\<close> of a
  record back into its parts, on every signal; an index that is absent leaves its key alone.\<close>

theorem default_pipeline_envoy:
  assumes "re_conforms rc" and "newProcessor rc mp (Some createDefaultConfig) = Inr p"
    and "as_string_ok (env_asString e)"
    and "m ''route_name'' = Some (VStr (envoy_route ns name ri mi))"
    and "ns \<noteq> ''''" and "CHR ''/'' \<notin> set ns" and "name \<noteq> ''''" and "CHR ''/'' \<notin> set name"
    and "\<And>n. ri = Some n \<or> mi = Some n \<Longrightarrow> n < 2 ^ 63"
  shows "let m' = enrich (p\<lparr>p_lookup := l\<rparr>) e res m signal in
    m' AttrHTTPRouteNamespace = Some (VStr ns) \<and> m' AttrHTTPRouteName = Some (VStr name) \<and>
    m' AttrHTTPRouteRuleIndex = (case ri of Some n \<Rightarrow> Some (VInt (int n)) | None \<Rightarrow> m AttrHTTPRouteRuleIndex) \<and>
    m' AttrHTTPRouteMatchIndex = (case mi of Some n \<Rightarrow> Some (VInt (int n)) | None \<Rightarrow> m AttrHTTPRouteMatchIndex) \<and>
    m' AttrParser = Some (VStr ''envoy'')"
proof -
  let ?get = "view_Get (env_asString e) \<lparr>cv_record = m, cv_resource = res\<rparr>"
  have p: "p\<lparr>p_lookup := l\<rparr> = default_processor (newParentInferredCounter mp) l"
    using assms(1,2) default_processor_built [OF assms(1)] by (auto simp: default_processor_def)
  have get: "?get ''route_name'' = Some (envoy_route ns name ri mi)"
    using assms(3,4) by (simp add: as_string_ok_def)
  have parses: "parser_Parse (default_chain ! 0) ?get = \<lparr>Matched = True, Namespace = ns, Name = name,
      Kind = ''HTTPRoute'', RuleIndex = (case ri of Some n \<Rightarrow> int n | None \<Rightarrow> -1),
      MatchIndex = (case mi of Some n \<Rightarrow> int n | None \<Rightarrow> -1),
      RawRouteName = envoy_route ns name ri mi, ParserName = ''envoy''\<rparr>"
    by (rule envoy_parses) (fact get assms(5-9))+
  have fm: "first_match default_chain ?get = Some (parser_Parse (default_chain ! 0) ?get)"
    by (rule envoy_result) (simp add: parses)
  have neq: "AttrHTTPRouteNamespace \<noteq> AttrRawRouteName" "AttrHTTPRouteName \<noteq> AttrRawRouteName"
    "AttrHTTPRouteRuleIndex \<noteq> AttrRawRouteName" "AttrHTTPRouteMatchIndex \<noteq> AttrRawRouteName"
    "AttrParser \<noteq> AttrRawRouteName"
    by (simp_all add: attr_defs)
  have "AttrRawRouteName \<noteq> ''''" "envoy_route ns name ri mi \<noteq> ''''"
    by (simp_all add: AttrRawRouteName_def envoy_route_def)
  then show ?thesis
    unfolding p enrich_eq decide_def default_parsers fm option.case
    using assms(5,7) neq
    by (simp add: carry_out_def Let_def strip_lookup default_excludes identity_stampCRMetadata identity_keys_def
        parses stampRouteIdentity_def put_lookup split: option.split)
qed

lemma default_pipeline_envoy_witness:
  "enrich ((default_processor None no_lookup)\<lparr>p_lookup := no_lookup\<rparr>) example_env Map.empty example_record signalMetrics
     AttrHTTPRouteRuleIndex = Some (VInt 1)"
proof -
  have "let m' = enrich ((default_processor None no_lookup)\<lparr>p_lookup := no_lookup\<rparr>) example_env Map.empty example_record signalMetrics in
    m' AttrHTTPRouteNamespace = Some (VStr ''shop'') \<and> m' AttrHTTPRouteName = Some (VStr ''cart'') \<and>
    m' AttrHTTPRouteRuleIndex = (case Some 1 of Some n \<Rightarrow> Some (VInt (int n)) | None \<Rightarrow> example_record AttrHTTPRouteRuleIndex) \<and>
    m' AttrHTTPRouteMatchIndex = (case None of Some n \<Rightarrow> Some (VInt (int n)) | None \<Rightarrow> example_record AttrHTTPRouteMatchIndex) \<and>
    m' AttrParser = Some (VStr ''envoy'')"
    by (rule default_pipeline_envoy [OF re_conforms_parse, where mp = None])
      (simp_all add: default_processor_built no_lookup_def example_enrich_defs)
  then show ?thesis by (simp add: Let_def)
qed



text \<open>Claim C26. A record is enriched with one kind of route: with the informer-backed lookup in a
  consistent state, and with a passthrough attribute that is not itself a key the processor stamps, an
  enrichment leaves alone (or strips) all GRPCRoute keys or all HTTPRoute keys.\<close>

theorem one_route_kind_per_record:
  assumes "combined_inv c" and "p_lookup p = combined_lookup c" and "p_passthroughAttrKey p \<notin> set schema_keys"
  shows "(\<forall>k \<in> set grpc_keys. enrich p e res m signal k \<in> {None, m k}) \<or>
         (\<forall>k \<in> set http_keys. enrich p e res m signal k \<in> {None, m k})"
  unfolding enrich_eq by (rule combined.one_kind [OF assms])

lemma combined_inv_empty:
  "combined_inv \<lparr>cl_routes = newRouteIndex, cl_ips = None, cl_pods = None, cl_waypoints = None\<rparr>"
  by (simp add: combined_inv_def idx_inv_new)

lemma one_route_kind_per_record_witness:
  "(\<forall>k \<in> set grpc_keys. enrich (default_processor None (combined_lookup \<lparr>cl_routes = newRouteIndex, cl_ips = None,
        cl_pods = None, cl_waypoints = None\<rparr>)) example_env Map.empty example_record signalTraces k \<in> {None, example_record k}) \<or>
   (\<forall>k \<in> set http_keys. enrich (default_processor None (combined_lookup \<lparr>cl_routes = newRouteIndex, cl_ips = None,
        cl_pods = None, cl_waypoints = None\<rparr>)) example_env Map.empty example_record signalTraces k \<in> {None, example_record k})"
  by (rule one_route_kind_per_record [OF combined_inv_empty])
    (use raw_route_name_neq in auto)

text \<open>The condition on the passthrough attribute is needed: nothing keeps it apart from the schema, and
  with \<open>passthrough_attribute\<close> set to a GRPCRoute key a record with an HTTPRoute's name gets keys of
  both kinds.\<close>

lemma passthrough_key_mixes_kinds:
  "let m' = enrich ((default_processor None no_lookup)\<lparr>p_passthroughAttrKey := AttrGRPCRouteName\<rparr>) example_env
       Map.empty example_record signalTraces
   in m' AttrGRPCRouteName = Some (VStr (envoy_route ''shop'' ''cart'' (Some 1) None)) \<and>
      m' AttrHTTPRouteName = Some (VStr ''cart'')"
proof -
  let ?p = "(default_processor None no_lookup)\<lparr>p_passthroughAttrKey := AttrGRPCRouteName\<rparr>"
  let ?get = "view_Get show_value \<lparr>cv_record = example_record, cv_resource = Map.empty\<rparr>"
  have parses: "parser_Parse (default_chain ! 0) ?get = \<lparr>Matched = True, Namespace = ''shop'', Name = ''cart'',
      Kind = ''HTTPRoute'', RuleIndex = 1, MatchIndex = -1,
      RawRouteName = envoy_route ''shop'' ''cart'' (Some 1) None, ParserName = ''envoy''\<rparr>"
    by (subst envoy_parses [of _ "''shop''" "''cart''" "Some 1" None]) (simp_all add: example_record_def)
  have "decide ?p example_env ?get = Parsed (parser_Parse (default_chain ! 0) ?get)"
    using envoy_result [of ?get] by (simp add: decide_def parses)
  moreover have "AttrGRPCRouteName \<noteq> ''''" "envoy_route ''shop'' ''cart'' (Some 1) None \<noteq> ''''"
    by (simp_all add: attr_defs envoy_route_def)
  ultimately show ?thesis
    by (simp add: enrich_eq example_env_def carry_out_def maybeStripMetrics_def Let_def parses
        identity_stampCRMetadata identity_keys_def stampRouteIdentity_def put_lookup)
qed

text \<open>Claim C11. The disambiguator attributes a Service with several candidate routes only when
  they are exactly one mesh and one ingress route (an unset mode counts as ingress): the mesh
  route if the record's \<open>k8s.namespace.name\<close> is the namespace of the mesh route's parent Service,
  the ingress route otherwise.\<close>

theorem disambiguator_exact:
  "disambiguateBackendCandidates get candidates = Some ra \<longleftrightarrow>
   (\<exists>mesh ingress. mset candidates = {#mesh, ingress#} \<and> ra_RouteMode mesh = RouteModeMesh \<and>
      ra_RouteMode ingress \<in> {RouteModeIngress, ''''} \<and>
      ra = (if ra_ParentServiceNamespace mesh \<noteq> '''' \<and>
               get ''k8s.namespace.name'' = Some (ra_ParentServiceNamespace mesh)
            then mesh else ingress))"
proof -
  have pair: "mset candidates = {#mesh, ingress#} \<Longrightarrow>
      disambiguateBackendCandidates get candidates = disambiguateBackendCandidates get [mesh, ingress]"
    for mesh ingress by (rule disambiguate_mset) simp
  show ?thesis
  proof
    assume some: "disambiguateBackendCandidates get candidates = Some ra"
    then have "length candidates = 2" using disambiguate_other by fastforce
    then obtain a b where ab: "candidates = [a, b]" using pairs by blast
    with some consider "mesh_of a" "ingress_of b" "ra = preferred get a b"
      | "ingress_of a" "mesh_of b" "ra = preferred get b a"
      by (auto simp: disambiguate_pair split: if_splits)
    then show "\<exists>mesh ingress. mset candidates = {#mesh, ingress#} \<and> ra_RouteMode mesh = RouteModeMesh \<and>
      ra_RouteMode ingress \<in> {RouteModeIngress, ''''} \<and>
      ra = (if ra_ParentServiceNamespace mesh \<noteq> '''' \<and>
               get ''k8s.namespace.name'' = Some (ra_ParentServiceNamespace mesh)
            then mesh else ingress)"
    proof cases
      case 1
      with ab show ?thesis
        by (intro exI [of _ a] exI [of _ b])
          (auto simp: mesh_of_def ingress_of_def preferred_def resourceAttrK8sNamespace_def)
    next
      case 2
      with ab show ?thesis
        by (intro exI [of _ b] exI [of _ a])
          (auto simp: mesh_of_def ingress_of_def preferred_def resourceAttrK8sNamespace_def)
    qed
  next
    assume "\<exists>mesh ingress. mset candidates = {#mesh, ingress#} \<and> ra_RouteMode mesh = RouteModeMesh \<and>
      ra_RouteMode ingress \<in> {RouteModeIngress, ''''} \<and>
      ra = (if ra_ParentServiceNamespace mesh \<noteq> '''' \<and>
               get ''k8s.namespace.name'' = Some (ra_ParentServiceNamespace mesh)
            then mesh else ingress)"
    then obtain mesh ingress where "mset candidates = {#mesh, ingress#}" "mesh_of mesh" "ingress_of ingress"
      "ra = preferred get mesh ingress"
      by (auto simp: mesh_of_def ingress_of_def preferred_def resourceAttrK8sNamespace_def)
    then show "disambiguateBackendCandidates get candidates = Some ra"
      by (simp add: pair disambiguate_pair)
  qed
qed

text \<open>Claim C22. What stamping the attributes of a route writes (its name, namespace and indexes are
  stamped with its identity): the UID, parent reference, parent kind, Gateway, GatewayClass, parent
  Service and role, each under its own key of the schema when it is not empty; the route mode always,
  with ingress as its default; the status flags only when their emission is on and the flag is known;
  the port only when positive; the waypoint implementation, when there is one, and with it the
  waypoint's name and namespace where not empty, taken from the route or, for a mesh route of a
  Service without one, from the live waypoint lookup of that Service; and, when policies are attached,
  these as four parallel lists beside the kind they target. Everything else leaves what was there, and
  the keys of the other route kind are never used.\<close>

theorem stamped_attributes:
  "let m' = stampRouteAttrs p m ra;
       stamp = (\<lambda>k v. if v = '''' then m k else Some (VStr v));
       flag = (\<lambda>k b. case b of Some v \<Rightarrow> if EmitStatusConds (p_cfg p) then Some (VBool v) else m k | None \<Rightarrow> m k);
       own = (\<lambda>g h. if ra_Kind ra = RouteKindGRPCRoute then g else h);
       pols = (\<lambda>k f. if ra_Policies ra = [] then m k else Some (VSlice (map f (ra_Policies ra))));
       known = (ra_WaypointImplementation ra, ra_WaypointName ra, ra_WaypointNamespace ra);
       (impl, wp, wpNS) =
         (if ra_WaypointImplementation ra = '''' \<and> ra_RouteMode ra = ''mesh'' \<and> ra_ParentServiceName ra \<noteq> ''''
          then case WaypointLookup (p_lookup p) of
              None \<Rightarrow> known
            | Some live \<Rightarrow>
                (case live (ra_ParentServiceNamespace ra) (ra_ParentServiceName ra) of None \<Rightarrow> known | Some w \<Rightarrow> w)
          else known)
   in m' (own AttrGRPCRouteUID AttrHTTPRouteUID) = stamp (own AttrGRPCRouteUID AttrHTTPRouteUID) (ra_UID ra)
    \<and> m' (own AttrGRPCRouteParentRef AttrHTTPRouteParentRef) =
        stamp (own AttrGRPCRouteParentRef AttrHTTPRouteParentRef) (ra_ParentRef ra)
    \<and> m' (own AttrGRPCRouteParentKind AttrHTTPRouteParentKind) =
        stamp (own AttrGRPCRouteParentKind AttrHTTPRouteParentKind) (ra_ParentKind ra)
    \<and> m' (own AttrGRPCRouteAccepted AttrHTTPRouteAccepted) =
        flag (own AttrGRPCRouteAccepted AttrHTTPRouteAccepted) (ra_Accepted ra)
    \<and> m' (own AttrGRPCRouteResolvedRefs AttrHTTPRouteResolvedRefs) =
        flag (own AttrGRPCRouteResolvedRefs AttrHTTPRouteResolvedRefs) (ra_ResolvedRefs ra)
    \<and> m' AttrRouteMode = Some (VStr (if ra_RouteMode ra = '''' then ''ingress'' else ra_RouteMode ra))
    \<and> m' AttrGatewayName = stamp AttrGatewayName (ra_GatewayName ra)
    \<and> m' AttrGatewayNamespace = stamp AttrGatewayNamespace (ra_GatewayNamespace ra)
    \<and> m' AttrGatewayUID = stamp AttrGatewayUID (ra_GatewayUID ra)
    \<and> m' AttrGatewayListenerName = stamp AttrGatewayListenerName (ra_GatewayListenerName ra)
    \<and> m' AttrGatewayClassName = stamp AttrGatewayClassName (ra_GatewayClassName ra)
    \<and> m' AttrGatewayClassController = stamp AttrGatewayClassController (ra_GatewayClassControllerName ra)
    \<and> m' AttrParentServiceName = stamp AttrParentServiceName (ra_ParentServiceName ra)
    \<and> m' AttrParentServiceNamespace = stamp AttrParentServiceNamespace (ra_ParentServiceNamespace ra)
    \<and> m' AttrParentServicePort =
        (if 0 < ra_ParentServicePort ra then Some (VInt (ra_ParentServicePort ra)) else m AttrParentServicePort)
    \<and> m' AttrRouteRole = stamp AttrRouteRole (ra_RouteRole ra)
    \<and> m' AttrWaypointImplementation = stamp AttrWaypointImplementation impl
    \<and> m' AttrWaypointName = (if impl = '''' then m AttrWaypointName else stamp AttrWaypointName wp)
    \<and> m' AttrWaypointNamespace = (if impl = '''' then m AttrWaypointNamespace else stamp AttrWaypointNamespace wpNS)
    \<and> m' AttrPolicyNames = pols AttrPolicyNames pol_Name
    \<and> m' AttrPolicyKinds = pols AttrPolicyKinds pol_Kind
    \<and> m' AttrPolicyNamespaces = pols AttrPolicyNamespaces pol_Namespace
    \<and> m' AttrPolicyGroups = pols AttrPolicyGroups pol_Group
    \<and> m' AttrPolicyTargetKind =
        (if ra_Policies ra = [] then m AttrPolicyTargetKind else Some (VStr (own ''GRPCRoute'' ''HTTPRoute'')))
    \<and> (\<forall>k \<in> set (if ra_Kind ra = RouteKindGRPCRoute then http_keys else grpc_keys). m' k = m k)"
proof -
  obtain impl wp wpNS where w: "resolveWaypoint p ra = (impl, wp, wpNS)" by (cases "resolveWaypoint p ra")
  define known where "known = (ra_WaypointImplementation ra, ra_WaypointName ra, ra_WaypointNamespace ra)"
  have live: "(if ra_WaypointImplementation ra = '''' \<and> ra_RouteMode ra = ''mesh'' \<and> ra_ParentServiceName ra \<noteq> ''''
          then case WaypointLookup (p_lookup p) of
              None \<Rightarrow> known
            | Some live \<Rightarrow>
                (case live (ra_ParentServiceNamespace ra) (ra_ParentServiceName ra) of None \<Rightarrow> known | Some w \<Rightarrow> w)
          else known) = (impl, wp, wpNS)"
    using w by (auto simp: resolveWaypoint_def RouteModeMesh_def known_def Let_def split: option.splits)
  have ing: "RouteModeIngress = ''ingress''" by (simp add: RouteModeIngress_def)
  have other: "k \<notin> set (kind_keys (ra_Kind ra))"
    if "k \<in> set (if ra_Kind ra = RouteKindGRPCRoute then http_keys else grpc_keys)" for k
    using that by (auto simp: kind_keys_def http_keys_def grpc_keys_def shared_keys_def split: if_splits)
  show ?thesis
    unfolding Let_def known_def [symmetric] live prod.case
    apply (intro conjI ballI)
    apply (simp_all only: stampRouteAttrs_frame [OF other])
    apply (cases "ra_Kind ra = RouteKindGRPCRoute";
        simp add: stampRouteAttrs_def Let_def w by_kind_def put_lookup stampPolicyAttrs_def ing split: option.split)+
    done
qed

lemma stamped_attributes_witness:
  "stampRouteAttrs (default_processor None no_lookup) Map.empty (zero_route\<lparr>ra_Kind := RouteKindGRPCRoute, ra_UID := ''u1'',
       ra_WaypointImplementation := ''istio-waypoint'', ra_WaypointName := ''wp''\<rparr>) AttrGRPCRouteUID = Some (VStr ''u1'') \<and>
   stampRouteAttrs (default_processor None no_lookup) Map.empty (zero_route\<lparr>ra_Kind := RouteKindGRPCRoute, ra_UID := ''u1'',
       ra_WaypointImplementation := ''istio-waypoint'', ra_WaypointName := ''wp''\<rparr>) AttrWaypointName = Some (VStr ''wp'') \<and>
   stampRouteAttrs (default_processor None no_lookup) Map.empty (zero_route\<lparr>ra_Kind := RouteKindGRPCRoute, ra_UID := ''u1'',
       ra_WaypointImplementation := ''istio-waypoint'', ra_WaypointName := ''wp''\<rparr>) AttrHTTPRouteUID = None"
  using stamped_attributes [of "default_processor None no_lookup" Map.empty "zero_route\<lparr>ra_Kind := RouteKindGRPCRoute,
      ra_UID := ''u1'', ra_WaypointImplementation := ''istio-waypoint'', ra_WaypointName := ''wp''\<rparr>"]
  by (simp add: Let_def http_keys_def)

text \<open>Claim C33. Label-based waypoints: a mesh route of a Service, without a waypoint from its
  Gateway's class, is stamped with the waypoint the Service's current \<open>istio.io/use-waypoint\<close> label
  names, in the namespace of the companion label or else of the Service; it is taken from the live
  index, whatever was known when the route was projected.\<close>

theorem waypoint_from_label:
  assumes "p_lookup p = combined_lookup c" and "cl_waypoints c = Some (waypointIndex_upsertService (Some svc) w)"
    and "ra_RouteMode ra = RouteModeMesh" and "ra_WaypointImplementation ra = ''''"
    and "ra_ParentServiceName ra = svc_Name svc" and "ra_ParentServiceNamespace ra = svc_Namespace svc"
    and "svc_Name svc \<noteq> ''''" and "svc_Namespace svc \<noteq> ''''"
    and "svc_Labels svc ''istio.io/use-waypoint'' = Some wp" and "wp \<noteq> ''''" and "wp \<noteq> ''none''"
  shows "stampRouteAttrs p m ra AttrWaypointImplementation = Some (VStr ''istio-ambient'')
    \<and> stampRouteAttrs p m ra AttrWaypointName = Some (VStr wp)
    \<and> stampRouteAttrs p m ra AttrWaypointNamespace =
        Some (VStr (case svc_Labels svc ''istio.io/use-waypoint-namespace'' of
                      Some ns \<Rightarrow> if ns = '''' then svc_Namespace svc else ns | None \<Rightarrow> svc_Namespace svc))"
proof -
  have "resolveWaypoint p ra = (''istio-ambient'', wp,
      case svc_Labels svc ''istio.io/use-waypoint-namespace'' of
        Some ns \<Rightarrow> if ns = '''' then svc_Namespace svc else ns | None \<Rightarrow> svc_Namespace svc)"
    using assms
    by (simp add: resolveWaypoint_def combined_lookup_def combined_LookupWaypointForService_def
        waypointIndex_LookupWaypointForService_def waypointIndex_upsertService_def label_def
        labelUseWaypoint_def labelUseWaypointNS_def useWaypointDisabled_def WaypointImplIstioAmbient_def
        split: option.split)
  then show ?thesis
    using assms(8,10)
    by (simp add: stampRouteAttrs_def Let_def put_lookup by_kind_def stampPolicyAttrs_def split: option.split)
qed

definition example_service :: Service where
  "example_service = \<lparr>svc_Name = ''cart'', svc_Namespace = ''shop'',
     svc_Labels = [''istio.io/use-waypoint'' \<mapsto> ''wp''], svc_ClusterIP = ''10.0.0.1'', svc_ClusterIPs = [''10.0.0.1'']\<rparr>"

lemma waypoint_from_label_witness:
  "stampRouteAttrs (default_processor None (combined_lookup \<lparr>cl_routes = newRouteIndex, cl_ips = None, cl_pods = None,
       cl_waypoints = Some (waypointIndex_upsertService (Some example_service) newWaypointIndex)\<rparr>)) Map.empty
     (zero_route\<lparr>ra_RouteMode := RouteModeMesh, ra_ParentServiceName := ''cart'', ra_ParentServiceNamespace := ''shop''\<rparr>)
     AttrWaypointName = Some (VStr ''wp'')"
  using waypoint_from_label [of "default_processor None (combined_lookup \<lparr>cl_routes = newRouteIndex, cl_ips = None,
        cl_pods = None, cl_waypoints = Some (waypointIndex_upsertService (Some example_service) newWaypointIndex)\<rparr>)"
      "\<lparr>cl_routes = newRouteIndex, cl_ips = None, cl_pods = None,
        cl_waypoints = Some (waypointIndex_upsertService (Some example_service) newWaypointIndex)\<rparr>"
      example_service newWaypointIndex
      "zero_route\<lparr>ra_RouteMode := RouteModeMesh, ra_ParentServiceName := ''cart'', ra_ParentServiceNamespace := ''shop''\<rparr>"
      "''wp''" Map.empty]
  by (simp add: example_service_def zero_route_def)

text \<open>Claim C34. Addresses: the name \<open><svc>.<ns>\<close>, with any further domain and with or without a
  port, is read as that Service of that namespace, whether or not the domain is the cluster's; a bare
  name is read as a Service of the record's own namespace.\<close>

theorem address_names_service:
  assumes "svc \<noteq> ''''" and "CHR ''.'' \<notin> set svc" and "CHR '':'' \<notin> set svc" and "CHR ''['' \<notin> set svc"
    and "ns \<noteq> ''''" and "CHR ''.'' \<notin> set ns" and "CHR '':'' \<notin> set ns"
    and "domain = '''' \<or> hd domain = CHR ''.''" and "CHR '':'' \<notin> set domain"
    and "port = '''' \<or> (\<exists>digits. port = '':'' @ digits \<and> CHR '':'' \<notin> set digits)"
  shows "addressService get (normalizeSourceAddr e ''server.address'' (svc @ ''.'' @ ns @ domain @ port)) = (ns, svc)
    \<and> addressService (get(''k8s.namespace.name'' \<mapsto> ns)) (normalizeSourceAddr e ''server.address'' (svc @ port)) = (ns, svc)"
proof -
  have strip: "stripPort (h @ port) = h" if "h \<noteq> ''''" "hd h \<noteq> CHR ''[''" "CHR '':'' \<notin> set h" for h
    using assms(10)
  proof
    assume "port = ''''"
    then show ?thesis using that by (cases h) (simp_all add: stripPort_plain)
  next
    assume "\<exists>digits. port = '':'' @ digits \<and> CHR '':'' \<notin> set digits"
    then show ?thesis using that stripPort_port by auto
  qed
  have hd: "hd svc \<noteq> CHR ''[''" using assms(1,4) by (cases svc) auto
  have "stripPort ((svc @ ''.'' @ ns @ domain) @ port) = svc @ ''.'' @ ns @ domain" "stripPort (svc @ port) = svc"
    using assms(1,3,7,9) hd by (intro strip; simp)+
  then show ?thesis
    using assms(1,2,5,6,8) splitAddress_dns [of svc ns domain]
    by (simp add: normalizeSourceAddr_def addressService_def splitAddress_bare resourceAttrK8sNamespace_def)
qed

lemma address_names_service_witness:
  "addressService Map.empty (normalizeSourceAddr example_env ''server.address'' ''cart.shop.svc.cluster.local:8080'') = (''shop'', ''cart'')"
  using address_names_service [of "''cart''" "''shop''" "''.svc.cluster.local''" "'':8080''" Map.empty example_env]
  by simp

text \<open>The comment of \<open>splitAddress\<close> says that raw IPs and external hosts give two empty strings; the
  code splits them as it splits any other name with a dot. Dotted quads only escape it where the lookup
  has address indexes (\<open>ip_literal_by_index\<close> below); an external host is read as a Service.\<close>

lemma splitAddress_reads_any_host:
  "splitAddress ''www.google.com'' = (''google'', ''www'')" "splitAddress ''10.108.2.156'' = (''108'', ''10'')"
  by code_simp+

text \<open>An IP literal is resolved by the address indexes and never read as a DNS name: for
  a dotted quad, with or without a port, under an attribute that holds a host, the fallback asks
  the ClusterIP index, then the PodIP index, and gives up on the attribute when neither knows the
  address.\<close>

lemma ip_literal_by_index:
  assumes "a < 256" and "b < 256" and "c < 256" and "d < 256"
    and "get key = Some (dotted [a, b, c, d] @ port)" and "key \<notin> {''http.url'', ''url.full''}"
    and "port = '''' \<or> (\<exists>digits. port = '':'' @ digits \<and> CHR '':'' \<notin> set digits)"
  shows "fallbackKey e (combined_lookup cl) get key =
    (case Option.bind (cl_ips cl) (\<lambda>ips. ci_m ips (dotted [a, b, c, d])) of
       Some v \<Rightarrow> resolveByBackend (combined_lookup cl) get (nn_Namespace v) (nn_Name v)
     | None \<Rightarrow>
         (case Option.bind (cl_pods cl) (\<lambda>pods. ci_m pods (dotted [a, b, c, d])) of
            Some v \<Rightarrow> resolveByBackend (combined_lookup cl) get (nn_Namespace v) (nn_Name v)
          | None \<Rightarrow> None))"
proof -
  have chars: "x = CHR ''.'' \<or> is_digit x" if "x \<in> set (dotted [a, b, c, d])" for x
    using that itoa_digits by (auto simp: dotted_eq list_all_iff)
  have nonempty: "dotted [a, b, c, d] \<noteq> ''''" by (simp add: dotted_eq)
  then have "hd (dotted [a, b, c, d]) \<in> set (dotted [a, b, c, d])" by simp
  then have hd: "hd (dotted [a, b, c, d]) \<noteq> CHR ''[''" and colon: "CHR '':'' \<notin> set (dotted [a, b, c, d])"
    using chars by (fastforce simp: is_digit_def)+
  have "stripPort (dotted [a, b, c, d] @ port) = dotted [a, b, c, d]"
    using assms(7)
  proof
    assume "port = ''''"
    then show ?thesis using nonempty hd colon stripPort_plain [of "dotted [a, b, c, d]"] by simp
  next
    assume "\<exists>digits. port = '':'' @ digits \<and> CHR '':'' \<notin> set digits"
    then show ?thesis using stripPort_port nonempty hd colon by blast
  qed
  then have norm: "normalizeSourceAddr e key (dotted [a, b, c, d] @ port) = dotted [a, b, c, d]"
    using assms(6) by (simp add: normalizeSourceAddr_def)
  have canon: "canonicalIP (dotted [a, b, c, d]) = dotted [a, b, c, d]" "ParseIP (dotted [a, b, c, d]) \<noteq> None"
    using assms(1-4) by (simp_all add: canonicalIP_dotted ParseIP_dotted)
  have "combined_LookupServiceByIP cl (dotted [a, b, c, d]) =
      (case Option.bind (cl_ips cl) (\<lambda>ips. ci_m ips (dotted [a, b, c, d])) of
         Some v \<Rightarrow> Some (nn_Namespace v, nn_Name v)
       | None \<Rightarrow> map_option nsName_pair (Option.bind (cl_pods cl) (\<lambda>pods. ci_m pods (dotted [a, b, c, d]))))"
    using nonempty canon(1)
    by (cases "cl_ips cl"; cases "cl_pods cl")
      (auto simp: combined_LookupServiceByIP_def serviceIPIndex_LookupServiceByIP_def LookupPodIP_def
        nsName_pair_def Let_def split: option.split)
  moreover have "ServiceIPLookup (combined_lookup cl) = Some (combined_LookupServiceByIP cl)"
    by (simp add: combined_lookup_def)
  ultimately show ?thesis
    using assms(5) nonempty norm canon(2)
    by (simp add: fallbackKey_def Let_def nsName_pair_def split: option.split)
qed

lemma ip_literal_by_index_witness:
  "fallbackKey example_env (combined_lookup \<lparr>cl_routes = newRouteIndex, cl_ips = None, cl_pods = None, cl_waypoints = None\<rparr>)
     [''server.address'' \<mapsto> dotted [10, 108, 2, 156]] ''server.address'' = None"
  using ip_literal_by_index [of 10 108 2 156 "[''server.address'' \<mapsto> dotted [10, 108, 2, 156]]" "''server.address''" "''''"
      example_env "\<lparr>cl_routes = newRouteIndex, cl_ips = None, cl_pods = None, cl_waypoints = None\<rparr>"]
  by simp

text \<open>The comment on \<open>stripPort\<close> gives \<open>[::1]\<close> for a bracketed literal; the code drops the brackets.\<close>

lemma stripPort_brackets: "stripPort ''[::1]:8080'' = ''::1''"
  by (simp add: stripPort_def hasPrefix_def)

end
