(* ===== verification/AttrTypes.thy ===== *)
theory AttrTypes
  imports EnrichmentProps
begin

text \<open>
  The types of the attribute schema (\<open>attrs.go\<close>): each key carries values of one type, whatever
  parser, route kind and path wrote it, so a consumer of the records can rely on it. Rule and match
  indexes are integers that are not negative, the port of a parent Service is a positive integer, the two status conditions booleans, the
  four policy attributes lists of strings, and every other key a string.
\<close>

section \<open>The type of a key\<close>

definition int_keys :: "string list" where
  "int_keys = [AttrHTTPRouteRuleIndex, AttrHTTPRouteMatchIndex, AttrParentServicePort]"

definition bool_keys :: "string list" where
  "bool_keys = [AttrHTTPRouteAccepted, AttrHTTPRouteResolvedRefs, AttrGRPCRouteAccepted, AttrGRPCRouteResolvedRefs]"

definition slice_keys :: "string list" where
  "slice_keys = [AttrPolicyNames, AttrPolicyKinds, AttrPolicyNamespaces, AttrPolicyGroups]"

definition attr_typed :: "string \<Rightarrow> attr_value \<Rightarrow> bool" where
  "attr_typed k v =
     (case v of
        VInt n \<Rightarrow> k \<in> set int_keys \<and> 0 \<le> n \<and> (k = AttrParentServicePort \<longrightarrow> 0 < n)
      | VBool b \<Rightarrow> k \<in> set bool_keys
      | VSlice xs \<Rightarrow> k \<in> set slice_keys
      | VStr s \<Rightarrow> k \<notin> set (int_keys @ bool_keys @ slice_keys)
      | VOther n \<Rightarrow> False)"

definition typed :: "attrs \<Rightarrow> bool" where
  "typed m = list_all (\<lambda>k. case m k of Some v \<Rightarrow> attr_typed k v | None \<Rightarrow> True) schema_keys"

lemma typed_put:
  "typed m \<Longrightarrow> k \<notin> set (int_keys @ bool_keys @ slice_keys) \<Longrightarrow> typed (putString m k s)"
  "typed m \<Longrightarrow> k \<in> set int_keys \<Longrightarrow> 0 \<le> n \<Longrightarrow> (k = AttrParentServicePort \<Longrightarrow> 0 < n) \<Longrightarrow> typed (putInt m k n)"
  "typed m \<Longrightarrow> k \<in> set bool_keys \<Longrightarrow> typed (putBool m k b)"
  "typed m \<Longrightarrow> k \<in> set slice_keys \<Longrightarrow> typed (putSlice m k xs)"
  "typed m \<Longrightarrow> typed (removeKey m k)"
  by (auto simp: typed_def attr_ops attr_typed_def list_all_iff)

lemma typed_putNonEmpty:
  "typed m \<Longrightarrow> k \<notin> set (int_keys @ bool_keys @ slice_keys) \<Longrightarrow> typed (putNonEmpty m k s)"
  by (simp add: putNonEmpty_def typed_put)

lemma typed_putOptBool: "typed m \<Longrightarrow> k \<in> set bool_keys \<Longrightarrow> typed (putOptBool m k b)"
  by (simp add: putOptBool_def typed_put split: option.split)

lemma typed_if: "(b \<Longrightarrow> typed m) \<Longrightarrow> (\<not> b \<Longrightarrow> typed m') \<Longrightarrow> typed (if b then m else m')"
  by simp

lemmas typed_steps = typed_put typed_putNonEmpty typed_putOptBool typed_if

lemma typed_identity: "typed m \<Longrightarrow> typed (stampRouteIdentity m r)"
  unfolding stampRouteIdentity_def Let_def
  by (intro typed_steps; simp add: int_keys_def bool_keys_def slice_keys_def)

lemma typed_ruleName: "typed m \<Longrightarrow> typed (stampRuleName m ra i)"
  unfolding stampRuleName_def Let_def
  by (intro typed_steps; simp add: int_keys_def bool_keys_def slice_keys_def)

lemma typed_policies: "typed m \<Longrightarrow> typed (stampPolicyAttrs m ra)"
  unfolding stampPolicyAttrs_def Let_def
  by (intro typed_steps; simp add: int_keys_def bool_keys_def slice_keys_def)

lemma typed_route:
  assumes "typed m"
  shows "typed (stampRouteAttrs p m ra)"
proof -
  obtain impl n ns where w: "resolveWaypoint p ra = (impl, n, ns)" by (cases "resolveWaypoint p ra")
  show ?thesis
    using assms unfolding stampRouteAttrs_def Let_def w prod.case
    by (intro typed_policies typed_steps; simp add: by_kind_def int_keys_def bool_keys_def slice_keys_def)
qed

lemma typed_metadata: "typed m \<Longrightarrow> typed (stampCRMetadata p m r)"
  by (simp add: stampCRMetadata_def Let_def typed_route typed_ruleName split: option.split)

lemma typed_strip: "typed m \<Longrightarrow> typed (maybeStripMetrics p m signal)"
proof -
  have "typed m \<Longrightarrow> typed (foldl removeKey m ks)" for ks m
    by (induction ks arbitrary: m) (simp_all add: typed_put)
  then show "typed m \<Longrightarrow> typed (maybeStripMetrics p m signal)" by (simp add: maybeStripMetrics_def)
qed

lemma typed_carry_out:
  assumes "typed m" "p_passthroughAttrKey p \<notin> set (int_keys @ bool_keys @ slice_keys)"
  shows "typed (carry_out p d signal m)"
proof -
  have parser: "AttrParser \<notin> set (int_keys @ bool_keys @ slice_keys)"
    by (simp add: int_keys_def bool_keys_def slice_keys_def)
  show ?thesis
    using assms parser
    by (cases d)
      (auto simp: carry_out_def Let_def intro!: typed_strip typed_metadata typed_identity typed_route typed_put)
qed

section \<open>Property\<close>

text \<open>Claim C20. The attribute schema is typed: an enrichment of any record, by any parser or by the
  fallback, for any signal, keeps every schema key at its type: where the route indexes were not negative,
  a port was positive, the status flags were booleans and the policy attributes lists, they are so
  afterwards; in particular no index is stamped negative and no port that is not positive. The only way to break it is to
  configure a typed key as the passthrough attribute.\<close>

theorem enrich_keeps_types:
  assumes "typed m" and "p_passthroughAttrKey p \<notin> set (int_keys @ bool_keys @ slice_keys)"
  shows "typed (enrich p e res m signal)"
  using typed_carry_out [OF assms] by (simp add: enrich_eq)

lemma enrich_keeps_types_witness:
  "typed (enrich (default_processor None no_lookup) example_env Map.empty
     [''route_name'' \<mapsto> VStr (envoy_route ''shop'' ''r'' (Some 1) None)] signalTraces)"
proof (rule enrich_keeps_types)
  show "typed [''route_name'' \<mapsto> VStr (envoy_route ''shop'' ''r'' (Some 1) None)]"
    by (simp add: typed_def key_list_defs attr_defs)
  show "p_passthroughAttrKey (default_processor None no_lookup) \<notin> set (int_keys @ bool_keys @ slice_keys)"
    by (simp add: default_processor_def int_keys_def bool_keys_def slice_keys_def attr_defs)
qed

end
