(* ===== verification/Informers.thy ===== *)
theory Informers
  imports Projection Policy
begin

text \<open>
  The event handlers of the seven informers (\<open>informer.go\<close>, \<open>service_informer.go\<close>,
  \<open>endpointslice_informer.go\<close>, \<open>policy_informer.go\<close>) over one state, the world, and the wiring
  of \<open>newInformers\<close>. Each index has its own lock and a handler takes the locks one operation at a
  time; a history of the world is a sequence of handler runs in any order of events, which is the
  order in which the locks were taken. The relation \<open>reachable\<close> has the states such histories
  lead to.
\<close>

section \<open>The world\<close>

record world =
  w_idx :: routeIndex
  w_gws :: gatewayStore
  w_gcs :: gatewayClassStore
  w_ips :: "serviceIPIndex option"
  w_wps :: "waypointIndex option"
  w_names :: "serviceNameIndex option"
  w_pods :: "podIPIndex option"
  w_synced :: bool   \<comment> \<open>every Gateway informer \<open>HasSynced\<close>\<close>
  w_inferred :: "inference list"   \<comment> \<open>what the inferrer recorded, oldest first\<close>

text \<open>The inferrer the route handlers hold: closures over the caches, so it sees the current state.\<close>

definition inferrer_at :: "Config \<Rightarrow> world \<Rightarrow> parentInferrer option" where
  "inferrer_at cfg w = newParentInferrer cfg (w_synced w) (serviceNameIndex_Exists (w_names w))"

text \<open>The lookup \<open>newInformers\<close> returns shares the indexes with the handlers.\<close>

definition world_combined :: "world \<Rightarrow> combinedLookup" where
  "world_combined w =
     \<lparr>cl_routes = w_idx w, cl_ips = w_ips w, cl_pods = w_pods w, cl_waypoints = w_wps w\<rparr>"

definition world_lookup :: "world \<Rightarrow> RouteLookup" where
  "world_lookup w = combined_lookup (world_combined w)"

section \<open>Handlers\<close>

subsection \<open>Routes\<close>

definition upsert_http :: "Config \<Rightarrow> HTTPRoute \<Rightarrow> world \<Rightarrow> world" where
  "upsert_http cfg hr w =
     (let (ra, log) = httpRouteToAttrs hr (w_gws w) (w_gcs w) cfg (inferrer_at cfg w) in
      w\<lparr>w_idx := upsertHTTPRoute (w_idx w) ra (backendRefsFromHTTPRoute hr),
        w_inferred := w_inferred w @ log\<rparr>)"

definition upsert_grpc :: "Config \<Rightarrow> GRPCRoute \<Rightarrow> world \<Rightarrow> world" where
  "upsert_grpc cfg gr w =
     (let (ra, log) = grpcRouteToAttrs gr (w_gws w) (w_gcs w) cfg (inferrer_at cfg w) in
      w\<lparr>w_idx := upsertGRPCRoute (w_idx w) ra (backendRefsFromGRPCRoute gr),
        w_inferred := w_inferred w @ log\<rparr>)"

text \<open>\<open>registerHTTPRouteHandlers\<close> and \<open>registerGRPCRouteHandlers\<close>: add and update have the same body.\<close>

fun onHTTPRouteUpsert :: "Config \<Rightarrow> HTTPRoute received \<Rightarrow> world \<Rightarrow> world" where
  "onHTTPRouteUpsert cfg (Received hr) w = upsert_http cfg hr w"
| "onHTTPRouteUpsert cfg ReceivedForeign w = w"

fun onHTTPRouteDelete :: "HTTPRoute deleted \<Rightarrow> world \<Rightarrow> world" where
  "onHTTPRouteDelete (Deleted hr) w = w\<lparr>w_idx := deleteHTTPRoute (w_idx w) (rt_Namespace hr) (rt_Name hr)\<rparr>"
| "onHTTPRouteDelete (Tombstone hr) w = w\<lparr>w_idx := deleteHTTPRoute (w_idx w) (rt_Namespace hr) (rt_Name hr)\<rparr>"
| "onHTTPRouteDelete OddTombstone w = w"
| "onHTTPRouteDelete Foreign w = w"

fun onGRPCRouteUpsert :: "Config \<Rightarrow> GRPCRoute received \<Rightarrow> world \<Rightarrow> world" where
  "onGRPCRouteUpsert cfg (Received gr) w = upsert_grpc cfg gr w"
| "onGRPCRouteUpsert cfg ReceivedForeign w = w"

fun onGRPCRouteDelete :: "GRPCRoute deleted \<Rightarrow> world \<Rightarrow> world" where
  "onGRPCRouteDelete (Deleted gr) w = w\<lparr>w_idx := deleteGRPCRoute (w_idx w) (rt_Namespace gr) (rt_Name gr)\<rparr>"
| "onGRPCRouteDelete (Tombstone gr) w = w\<lparr>w_idx := deleteGRPCRoute (w_idx w) (rt_Namespace gr) (rt_Name gr)\<rparr>"
| "onGRPCRouteDelete OddTombstone w = w"
| "onGRPCRouteDelete Foreign w = w"

subsection \<open>Gateways and GatewayClasses\<close>

text \<open>The add and update handlers assert the type without the comma-ok form: \<open>None\<close> is the panic.
  The delete handlers take the object only; a tombstone is not unwrapped.\<close>

fun onGatewayUpsert :: "Gateway received \<Rightarrow> world \<Rightarrow> world option" where
  "onGatewayUpsert (Received gw) w = Some (w\<lparr>w_gws := gatewayStore_upsert gw (w_gws w)\<rparr>)"
| "onGatewayUpsert ReceivedForeign w = None"

fun onGatewayDelete :: "Gateway deleted \<Rightarrow> world \<Rightarrow> world" where
  "onGatewayDelete (Deleted gw) w = w\<lparr>w_gws := gatewayStore_delete (gw_Namespace gw) (gw_Name gw) (w_gws w)\<rparr>"
| "onGatewayDelete (Tombstone gw) w = w"
| "onGatewayDelete OddTombstone w = w"
| "onGatewayDelete Foreign w = w"

fun onGatewayClassUpsert :: "GatewayClass received \<Rightarrow> world \<Rightarrow> world option" where
  "onGatewayClassUpsert (Received gc) w = Some (w\<lparr>w_gcs := gatewayClassStore_upsert gc (w_gcs w)\<rparr>)"
| "onGatewayClassUpsert ReceivedForeign w = None"

fun onGatewayClassDelete :: "GatewayClass deleted \<Rightarrow> world \<Rightarrow> world" where
  "onGatewayClassDelete (Deleted gc) w = w\<lparr>w_gcs := gatewayClassStore_delete (gc_Name gc) (w_gcs w)\<rparr>"
| "onGatewayClassDelete (Tombstone gc) w = w"
| "onGatewayClassDelete OddTombstone w = w"
| "onGatewayClassDelete Foreign w = w"

subsection \<open>Services and EndpointSlices\<close>

text \<open>The closures \<open>upsert\<close> and \<open>del\<close> of \<open>registerServiceHandlers\<close>: each index that exists.\<close>

definition service_upsert :: "Service \<Rightarrow> world \<Rightarrow> world" where
  "service_upsert svc w =
     w\<lparr>w_ips := map_option (serviceIPIndex_upsertService (Some svc)) (w_ips w),
       w_wps := map_option (waypointIndex_upsertService (Some svc)) (w_wps w),
       w_names := map_option (serviceNameIndex_upsertService (Some svc)) (w_names w)\<rparr>"

definition service_del :: "string \<Rightarrow> string \<Rightarrow> world \<Rightarrow> world" where
  "service_del ns name w =
     w\<lparr>w_ips := map_option (serviceIPIndex_deleteService ns name) (w_ips w),
       w_wps := map_option (waypointIndex_deleteService ns name) (w_wps w),
       w_names := map_option (serviceNameIndex_deleteService ns name) (w_names w)\<rparr>"

fun onServiceUpsert :: "Service received \<Rightarrow> world \<Rightarrow> world" where
  "onServiceUpsert (Received svc) w = service_upsert svc w"
| "onServiceUpsert ReceivedForeign w = w"

fun onServiceDelete :: "Service deleted \<Rightarrow> world \<Rightarrow> world" where
  "onServiceDelete (Deleted svc) w = service_del (svc_Namespace svc) (svc_Name svc) w"
| "onServiceDelete (Tombstone svc) w = service_del (svc_Namespace svc) (svc_Name svc) w"
| "onServiceDelete OddTombstone w = w"
| "onServiceDelete Foreign w = w"

fun onEndpointSliceUpsert :: "EndpointSlice received \<Rightarrow> world \<Rightarrow> world" where
  "onEndpointSliceUpsert (Received es) w = w\<lparr>w_pods := map_option (upsertEndpointSlice (Some es)) (w_pods w)\<rparr>"
| "onEndpointSliceUpsert ReceivedForeign w = w"

fun onEndpointSliceDelete :: "EndpointSlice deleted \<Rightarrow> world \<Rightarrow> world" where
  "onEndpointSliceDelete (Deleted es) w =
     w\<lparr>w_pods := map_option (deleteEndpointSlice (es_Namespace es) (es_Name es)) (w_pods w)\<rparr>"
| "onEndpointSliceDelete (Tombstone es) w =
     w\<lparr>w_pods := map_option (deleteEndpointSlice (es_Namespace es) (es_Name es)) (w_pods w)\<rparr>"
| "onEndpointSliceDelete OddTombstone w = w"
| "onEndpointSliceDelete Foreign w = w"

subsection \<open>Policies\<close>

fun onPolicyAdd :: "PolicyGVR \<Rightarrow> json received \<Rightarrow> world \<Rightarrow> world" where
  "onPolicyAdd gvr (Received u) w = w\<lparr>w_idx := policyAdd (Some u) gvr (w_idx w)\<rparr>"
| "onPolicyAdd gvr ReceivedForeign w = w"

text \<open>The old object of an update is optional: a failed assertion leaves a nil pointer.\<close>

fun onPolicyUpdate :: "PolicyGVR \<Rightarrow> json received \<Rightarrow> json received \<Rightarrow> world \<Rightarrow> world" where
  "onPolicyUpdate gvr old (Received newU) w =
     w\<lparr>w_idx := policyUpdate (case old of Received oldU \<Rightarrow> Some oldU | ReceivedForeign \<Rightarrow> None) newU gvr (w_idx w)\<rparr>"
| "onPolicyUpdate gvr old ReceivedForeign w = w"

fun onPolicyDelete :: "PolicyGVR \<Rightarrow> json deleted \<Rightarrow> world \<Rightarrow> world" where
  "onPolicyDelete gvr (Deleted u) w = w\<lparr>w_idx := policyDelete u gvr (w_idx w)\<rparr>"
| "onPolicyDelete gvr (Tombstone u) w = w\<lparr>w_idx := policyDelete u gvr (w_idx w)\<rparr>"
| "onPolicyDelete gvr OddTombstone w = w"
| "onPolicyDelete gvr Foreign w = w"

section \<open>Wiring\<close>

definition defaultSyncTimeout :: "int \<Rightarrow> int" where
  "defaultSyncTimeout v = (if v \<le> 0 then 30 * 10 ^ 9 else v)"

text \<open>The five-minute default of the resync period, taken by every start function.\<close>

definition resyncPeriod :: "Config \<Rightarrow> int" where
  "resyncPeriod cfg = (if ResyncPeriod (Watch cfg) = 0 then 5 * 60 * 10 ^ 9 else ResyncPeriod (Watch cfg))"

text \<open>What the Kubernetes client libraries answer: \<open>None\<close> is success, \<open>Some\<close> an error. A factory
  watches one namespace, or all (\<open>None\<close>); \<open>k_synced\<close> is the result of \<open>WaitForCacheSync\<close>.\<close>

type_synonym factory = "string option"

datatype informer =
    HTTPRouteInformer factory
  | GRPCRouteInformer factory
  | GatewayInformer factory
  | GatewayClassInformer factory
  | ServiceInformer factory
  | EndpointSliceInformer factory
  | PolicyInformer factory PolicyGVR

record kube =
  k_BuildConfigFromFlags :: "string \<Rightarrow> string option"
  k_InClusterConfig :: "string option"
  k_gwclient :: "string option"
  k_kubernetes :: "string option"
  k_dynamic :: "string option"
  k_synced :: "int \<Rightarrow> informer \<Rightarrow> bool"

datatype start_error =
    RestConfigError string
  | AuthNoneError
  | GatewayClientsetError string
  | KubernetesClientsetError string
  | DynamicClientError string
  | SyncTimeout int

definition buildRESTConfig :: "kube \<Rightarrow> Config \<Rightarrow> start_error option" where
  "buildRESTConfig k cfg =
     (if AuthType cfg = AuthTypeKubeConfig
      then map_option RestConfigError (k_BuildConfigFromFlags k (KubeConfigPath cfg))
      else if AuthType cfg = AuthTypeNone then Some AuthNoneError
      else map_option RestConfigError (k_InClusterConfig k))"

definition factories :: "Config \<Rightarrow> factory list" where
  "factories cfg =
     (if length (Namespaces (Watch cfg)) = 0 then [None] else map Some (Namespaces (Watch cfg)))"

definition startServiceInformer ::
  "Config \<Rightarrow> bool \<Rightarrow> bool \<Rightarrow> bool \<Rightarrow>
   informer list \<times> serviceIPIndex option \<times> waypointIndex option \<times> serviceNameIndex option"
where
  "startServiceInformer cfg buildIP buildWaypoint buildName =
     (map ServiceInformer (factories cfg),
      if buildIP then Some newServiceIPIndex else None,
      if buildWaypoint then Some newWaypointIndex else None,
      if buildName then Some newServiceNameIndex else None)"

definition startEndpointSliceInformer :: "Config \<Rightarrow> informer list \<times> podIPIndex" where
  "startEndpointSliceInformer cfg = (map EndpointSliceInformer (factories cfg), newPodIPIndex)"

definition startPolicyInformers :: "kube \<Rightarrow> Config \<Rightarrow> start_error + informer list" where
  "startPolicyInformers k cfg =
     (if length (wc_Policies (Watch cfg)) = 0 then Inr []
      else case k_dynamic k of
        Some err \<Rightarrow> Inl (DynamicClientError err)
      | None \<Rightarrow> Inr (concat (map (\<lambda>f. map (PolicyInformer f) (wc_Policies (Watch cfg))) (factories cfg))))"

text \<open>The world before any event, with the indexes the start functions returned.\<close>

definition fresh_world ::
  "serviceIPIndex option \<Rightarrow> waypointIndex option \<Rightarrow> serviceNameIndex option \<Rightarrow> podIPIndex option \<Rightarrow> world"
where
  "fresh_world ips wps names pods =
     \<lparr>w_idx = newRouteIndex, w_gws = newGatewayStore, w_gcs = newGatewayClassStore,
      w_ips = ips, w_wps = wps, w_names = names, w_pods = pods, w_synced = False, w_inferred = []\<rparr>"

text \<open>Pass 1, the four informers of each Gateway API factory.\<close>

definition gateway_informers :: "Config \<Rightarrow> informer list" where
  "gateway_informers cfg =
     concat (map (\<lambda>f. [HTTPRouteInformer f, GRPCRouteInformer f, GatewayInformer f, GatewayClassInformer f])
       (factories cfg))"

text \<open>The Service and EndpointSlice part: the informers and the indexes of the enabled features.\<close>

definition start_core ::
  "kube \<Rightarrow> Config \<Rightarrow> start_error + informer list \<times> world"
where
  "start_core k cfg =
     (let buildIP = bf_Enabled (cfg_Fallback cfg);
          buildWaypoint = WaypointEnabled (Mesh cfg);
          buildName = InferServiceParentEnabled (Mesh cfg) in
      if buildIP \<or> buildWaypoint \<or> buildName then
        (case k_kubernetes k of
           Some err \<Rightarrow> Inl (KubernetesClientsetError err)
         | None \<Rightarrow>
             (let (svcInformers, ips, wps, names) = startServiceInformer cfg buildIP buildWaypoint buildName in
              if bf_Enabled (cfg_Fallback cfg) \<and> PodIPEnabled (cfg_Fallback cfg) then
                (let (esInformers, pods) = startEndpointSliceInformer cfg in
                 Inr (svcInformers @ esInformers, fresh_world ips wps names (Some pods)))
              else Inr (svcInformers, fresh_world ips wps names None)))
      else Inr ([], fresh_world None None None None))"

text \<open>The loop that waits for the caches, one informer after the other, under one timeout.\<close>

fun wait_for_sync :: "kube \<Rightarrow> int \<Rightarrow> informer list \<Rightarrow> start_error option" where
  "wait_for_sync k timeout [] = None"
| "wait_for_sync k timeout (i # infs) =
     (if \<not> k_synced k timeout i then Some (SyncTimeout timeout) else wait_for_sync k timeout infs)"

lemma wait_for_sync_eq:
  "wait_for_sync k timeout infs = (if list_all (k_synced k timeout) infs then None else Some (SyncTimeout timeout))"
  by (induction infs) simp_all

text \<open>The indexes exist before the first event; the events that arrive while \<open>newInformers\<close> waits
  for the caches are steps of the world. The result is the error, or the informers and the fresh
  world, in which the lookup and the handlers share the indexes.\<close>

definition newInformers :: "kube \<Rightarrow> Config \<Rightarrow> start_error + informer list \<times> world" where
  "newInformers k cfg =
     (case buildRESTConfig k cfg of
        Some err \<Rightarrow> Inl err
      | None \<Rightarrow>
          (case k_gwclient k of
             Some err \<Rightarrow> Inl (GatewayClientsetError err)
           | None \<Rightarrow>
               (case start_core k cfg of
                  Inl err \<Rightarrow> Inl err
                | Inr (coreInformers, w) \<Rightarrow>
                    (case startPolicyInformers k cfg of
                       Inl err \<Rightarrow> Inl err
                     | Inr policyInformers \<Rightarrow>
                         let infs = gateway_informers cfg @ coreInformers @ policyInformers;
                             timeout = defaultSyncTimeout (InformerSyncTimeout cfg) in
                         case wait_for_sync k timeout infs of
                           Some err \<Rightarrow> Inl err
                         | None \<Rightarrow> Inr (infs, w)))))"

section \<open>Histories\<close>

datatype event =
    HTTPRouteUpsert "HTTPRoute received"
  | HTTPRouteDelete "HTTPRoute deleted"
  | GRPCRouteUpsert "GRPCRoute received"
  | GRPCRouteDelete "GRPCRoute deleted"
  | GatewayUpsert "Gateway received"
  | GatewayDelete "Gateway deleted"
  | GatewayClassUpsert "GatewayClass received"
  | GatewayClassDelete "GatewayClass deleted"
  | ServiceUpsert "Service received"
  | ServiceDelete "Service deleted"
  | EndpointSliceUpsert "EndpointSlice received"
  | EndpointSliceDelete "EndpointSlice deleted"
  | PolicyAdded PolicyGVR "json received"
  | PolicyUpdated PolicyGVR "json received" "json received"
  | PolicyDeleted PolicyGVR "json deleted"
  | GatewaysSynced

fun handle :: "Config \<Rightarrow> event \<Rightarrow> world \<Rightarrow> world option" where
  "handle cfg (HTTPRouteUpsert x) w = Some (onHTTPRouteUpsert cfg x w)"
| "handle cfg (HTTPRouteDelete x) w = Some (onHTTPRouteDelete x w)"
| "handle cfg (GRPCRouteUpsert x) w = Some (onGRPCRouteUpsert cfg x w)"
| "handle cfg (GRPCRouteDelete x) w = Some (onGRPCRouteDelete x w)"
| "handle cfg (GatewayUpsert x) w = onGatewayUpsert x w"
| "handle cfg (GatewayDelete x) w = Some (onGatewayDelete x w)"
| "handle cfg (GatewayClassUpsert x) w = onGatewayClassUpsert x w"
| "handle cfg (GatewayClassDelete x) w = Some (onGatewayClassDelete x w)"
| "handle cfg (ServiceUpsert x) w = Some (onServiceUpsert x w)"
| "handle cfg (ServiceDelete x) w = Some (onServiceDelete x w)"
| "handle cfg (EndpointSliceUpsert x) w = Some (onEndpointSliceUpsert x w)"
| "handle cfg (EndpointSliceDelete x) w = Some (onEndpointSliceDelete x w)"
| "handle cfg (PolicyAdded gvr x) w = Some (onPolicyAdd gvr x w)"
| "handle cfg (PolicyUpdated gvr old x) w = Some (onPolicyUpdate gvr old x w)"
| "handle cfg (PolicyDeleted gvr x) w = Some (onPolicyDelete gvr x w)"
| "handle cfg GatewaysSynced w = Some (w\<lparr>w_synced := True\<rparr>)"

text \<open>A state is reachable from a successful start.\<close>

inductive reachable :: "Config \<Rightarrow> world \<Rightarrow> bool" for cfg where
  start: "newInformers k cfg = Inr (infs, w) \<Longrightarrow> reachable cfg w"
| event: "reachable cfg w \<Longrightarrow> handle cfg ev w = Some w' \<Longrightarrow> reachable cfg w'"

section \<open>Invariants of reachable worlds\<close>

definition features_ok :: "Config \<Rightarrow> world \<Rightarrow> bool" where
  "features_ok cfg w \<longleftrightarrow>
     (w_ips w \<noteq> None \<longleftrightarrow> bf_Enabled (cfg_Fallback cfg)) \<and>
     (w_pods w \<noteq> None \<longleftrightarrow> bf_Enabled (cfg_Fallback cfg) \<and> PodIPEnabled (cfg_Fallback cfg)) \<and>
     (w_wps w \<noteq> None \<longleftrightarrow> WaypointEnabled (Mesh cfg)) \<and>
     (w_names w \<noteq> None \<longleftrightarrow> InferServiceParentEnabled (Mesh cfg))"

definition route_ok :: "RouteAttributes \<Rightarrow> bool" where
  "route_ok ra \<longleftrightarrow> ra_RouteMode ra \<in> {RouteModeIngress, RouteModeMesh} \<and> ra_Policies ra = []"

definition world_inv :: "Config \<Rightarrow> world \<Rightarrow> bool" where
  "world_inv cfg w \<longleftrightarrow>
     idx_inv (w_idx w) \<and> pred_option claim_inv (w_ips w) \<and> pred_option claim_inv (w_pods w) \<and>
     features_ok cfg w \<and>
     (\<forall>k ra. routes (w_idx w) k = Some ra \<longrightarrow> route_ok ra) \<and>
     (w_inferred w \<noteq> [] \<longrightarrow> w_synced w \<and> InferServiceParentEnabled (Mesh cfg))"

lemma project_route_ok: "route_ok (fst (project_route kind r gws gcs cfg inferrer))"
proof -
  have "ra_RouteMode (fst (project_route kind r gws gcs cfg inferrer)) \<in> {RouteModeIngress, RouteModeMesh}"
    by (simp add: project_route_def Let_def zero_route_def applyParentRef_cases
        split: list.split parent_class.split)
  then show ?thesis by (simp add: route_ok_def)
qed

lemma inference_needs_sync:
  "snd (project_route kind r gws gcs cfg (inferrer_at cfg w)) \<noteq> [] \<Longrightarrow>
   w_synced w \<and> InferServiceParentEnabled (Mesh cfg)"
  by (auto simp: project_route_def Let_def applyParentRef_cases parent_class_of_def infers_def inferrer_at_def
      newParentInferrer_def split: list.splits option.splits if_splits)

lemma routes_upsert [simp]:
  "routes (upsertHTTPRoute r ra refs) = (routes r)(routeKey RouteKindHTTPRoute (ra_Namespace ra) (ra_Name ra) \<mapsto> ra)"
  "routes (upsertGRPCRoute r ra refs) = (routes r)(routeKey RouteKindGRPCRoute (ra_Namespace ra) (ra_Name ra) \<mapsto> ra)"
  "routes (deleteHTTPRoute r ns name) = (routes r)(routeKey RouteKindHTTPRoute ns name := None)"
  "routes (deleteGRPCRoute r ns name) = (routes r)(routeKey RouteKindGRPCRoute ns name := None)"
  by (simp_all add: upsertHTTPRoute_def upsertGRPCRoute_def deleteHTTPRoute_def deleteGRPCRoute_def
      dropBackendOwnershipLocked_eq Let_def)

lemma idx_inv_ops:
  assumes "idx_inv r"
  shows "ra_Kind ra = RouteKindHTTPRoute \<Longrightarrow> idx_inv (upsertHTTPRoute r ra refs)"
    "ra_Kind ra = RouteKindGRPCRoute \<Longrightarrow> idx_inv (upsertGRPCRoute r ra refs)"
    "idx_inv (deleteHTTPRoute r ns name)" "idx_inv (deleteGRPCRoute r ns name)"
  using idx_inv_step [OF assms, of "UpsertHTTP ra refs"] idx_inv_step [OF assms, of "UpsertGRPC ra refs"]
    idx_inv_step [OF assms, of "DeleteHTTP ns name"] idx_inv_step [OF assms, of "DeleteGRPC ns name"]
  by simp_all

lemma world_inv_http: "world_inv cfg w \<Longrightarrow> world_inv cfg (upsert_http cfg hr w)"
  using project_route_ok [of RouteKindHTTPRoute hr "w_gws w" "w_gcs w" cfg "inferrer_at cfg w"]
    inference_needs_sync [of RouteKindHTTPRoute hr "w_gws w" "w_gcs w" cfg w]
  by (auto simp: world_inv_def features_ok_def upsert_http_def httpRouteToAttrs_eq case_prod_beta idx_inv_ops)

lemma world_inv_grpc: "world_inv cfg w \<Longrightarrow> world_inv cfg (upsert_grpc cfg gr w)"
  using project_route_ok [of RouteKindGRPCRoute gr "w_gws w" "w_gcs w" cfg "inferrer_at cfg w"]
    inference_needs_sync [of RouteKindGRPCRoute gr "w_gws w" "w_gcs w" cfg w]
  by (auto simp: world_inv_def features_ok_def upsert_grpc_def grpcRouteToAttrs_eq case_prod_beta idx_inv_ops)

lemma world_inv_idx:
  "world_inv cfg w \<Longrightarrow> idx_inv r \<Longrightarrow> (\<And>k ra. routes r k = Some ra \<Longrightarrow> routes (w_idx w) k = Some ra) \<Longrightarrow>
   world_inv cfg (w\<lparr>w_idx := r\<rparr>)"
  by (auto simp: world_inv_def features_ok_def)

lemma world_inv_policy:
  assumes "world_inv cfg w" "idx_inv r \<and> same_routes (w_idx w) r"
  shows "world_inv cfg (w\<lparr>w_idx := r\<rparr>)"
proof (rule world_inv_idx [OF assms(1)])
  have "routes r = routes (w_idx w)"
    using assms(2) unfolding same_routes_def by (metis routeIndex.select_convs(1) routeIndex.surjective routeIndex.update_convs(5))
  then show "routes r k = Some ra \<Longrightarrow> routes (w_idx w) k = Some ra" for k ra by simp
qed (use assms in simp)

lemma world_inv_service:
  "world_inv cfg w \<Longrightarrow> world_inv cfg (service_upsert svc w)"
  "world_inv cfg w \<Longrightarrow> world_inv cfg (service_del ns name w)"
  by (auto simp: world_inv_def features_ok_def service_upsert_def service_del_def option.pred_map comp_def
      option.pred_True claim_inv_ops elim!: option.pred_mono_strong)

lemma world_inv_slice:
  "world_inv cfg w \<Longrightarrow> world_inv cfg (w\<lparr>w_pods := map_option (upsertEndpointSlice eso) (w_pods w)\<rparr>)"
  "world_inv cfg w \<Longrightarrow> world_inv cfg (w\<lparr>w_pods := map_option (deleteEndpointSlice ns name) (w_pods w)\<rparr>)"
  by (auto simp: world_inv_def features_ok_def option.pred_map comp_def claim_inv_ops
      elim!: option.pred_mono_strong)

lemma world_inv_stores:
  "world_inv cfg w \<Longrightarrow> world_inv cfg (w\<lparr>w_gws := x\<rparr>)" "world_inv cfg w \<Longrightarrow> world_inv cfg (w\<lparr>w_gcs := y\<rparr>)"
  "world_inv cfg w \<Longrightarrow> world_inv cfg (w\<lparr>w_synced := True\<rparr>)"
  by (simp_all add: world_inv_def features_ok_def)

lemma world_inv_delete:
  assumes "world_inv cfg w"
  shows "world_inv cfg (w\<lparr>w_idx := deleteHTTPRoute (w_idx w) ns name\<rparr>)"
    "world_inv cfg (w\<lparr>w_idx := deleteGRPCRoute (w_idx w) ns name\<rparr>)"
  using assms by (auto intro!: world_inv_idx simp: idx_inv_ops world_inv_def features_ok_def split: if_splits)

lemmas world_inv_ops = world_inv_http world_inv_grpc world_inv_delete world_inv_stores world_inv_service
  world_inv_slice world_inv_policy idx_inv_policyAdd idx_inv_policyUpdate idx_inv_policyDelete

lemma world_inv_step:
  assumes inv: "world_inv cfg w" and step: "handle cfg ev w = Some w'"
  shows "world_inv cfg w'"
proof -
  have idx: "idx_inv (w_idx w)" using inv by (simp add: world_inv_def)
  show ?thesis
  proof (cases ev)
    case (HTTPRouteUpsert x)
    with inv step show ?thesis by (cases x) (auto simp: world_inv_ops)
  next
    case (HTTPRouteDelete x)
    with inv step show ?thesis by (cases x) (auto simp: world_inv_ops)
  next
    case (GRPCRouteUpsert x)
    with inv step show ?thesis by (cases x) (auto simp: world_inv_ops)
  next
    case (GRPCRouteDelete x)
    with inv step show ?thesis by (cases x) (auto simp: world_inv_ops)
  next
    case (GatewayUpsert x)
    with inv step show ?thesis by (cases x) (auto simp: world_inv_ops)
  next
    case (GatewayDelete x)
    with inv step show ?thesis by (cases x) (auto simp: world_inv_ops)
  next
    case (GatewayClassUpsert x)
    with inv step show ?thesis by (cases x) (auto simp: world_inv_ops)
  next
    case (GatewayClassDelete x)
    with inv step show ?thesis by (cases x) (auto simp: world_inv_ops)
  next
    case (ServiceUpsert x)
    with inv step show ?thesis by (cases x) (auto simp: world_inv_ops)
  next
    case (ServiceDelete x)
    with inv step show ?thesis by (cases x) (auto simp: world_inv_ops)
  next
    case (EndpointSliceUpsert x)
    with inv step show ?thesis by (cases x) (auto simp: world_inv_ops)
  next
    case (EndpointSliceDelete x)
    with inv step show ?thesis by (cases x) (auto simp: world_inv_ops)
  next
    case (PolicyAdded gvr x)
    with inv step idx show ?thesis by (cases x) (auto simp: world_inv_ops)
  next
    case (PolicyUpdated gvr old x)
    with inv step idx show ?thesis by (cases x) (auto simp: world_inv_ops)
  next
    case (PolicyDeleted gvr x)
    with inv step idx show ?thesis by (cases x) (auto simp: world_inv_ops)
  next
    case GatewaysSynced
    with inv step show ?thesis by (auto simp: world_inv_ops)
  qed
qed

lemma world_inv_start:
  assumes "newInformers k cfg = Inr (infs, w)"
  shows "world_inv cfg w"
proof -
  obtain cs where core: "start_core k cfg = Inr (cs, w)"
    using assms by (auto simp: newInformers_def Let_def split: option.splits sum.splits prod.splits if_splits)
  then have "features_ok cfg w \<and> w_idx w = newRouteIndex \<and> w_inferred w = [] \<and>
      w_ips w \<in> {None, Some newServiceIPIndex} \<and> w_pods w \<in> {None, Some newPodIPIndex}"
    by (auto simp: start_core_def features_ok_def fresh_world_def startServiceInformer_def
        startEndpointSliceInformer_def Let_def split: option.splits if_splits)
  then show ?thesis
    using idx_inv_new claim_inv_new
    by (auto simp: world_inv_def newServiceIPIndex_def newPodIPIndex_def newRouteIndex_def)
qed

lemma reachable_inv: "reachable cfg w \<Longrightarrow> world_inv cfg w"
  by (induction rule: reachable.induct) (auto intro: world_inv_start world_inv_step)

lemma world_combined_inv: "world_inv cfg w \<Longrightarrow> combined_inv (world_combined w)"
  by (simp add: world_inv_def combined_inv_def world_combined_def)

section \<open>Properties\<close>

text \<open>A cluster whose clients all answer, for the examples.\<close>

definition example_kube :: kube where
  "example_kube = \<lparr>k_BuildConfigFromFlags = (\<lambda>_. None), k_InClusterConfig = None, k_gwclient = None,
     k_kubernetes = None, k_dynamic = None, k_synced = (\<lambda>_ _. True)\<rparr>"

definition example_world :: world where
  "example_world = fresh_world (Some newServiceIPIndex) (Some newWaypointIndex) (Some newServiceNameIndex)
     (Some newPodIPIndex)"

lemma example_start:
  "newInformers example_kube createDefaultConfig =
   Inr ([HTTPRouteInformer None, GRPCRouteInformer None, GatewayInformer None, GatewayClassInformer None,
         ServiceInformer None, EndpointSliceInformer None], example_world)"
  by (simp add: newInformers_def example_kube_def example_world_def buildRESTConfig_def auth_defs
      createDefaultConfig_def start_core_def startServiceInformer_def startEndpointSliceInformer_def
      startPolicyInformers_def gateway_informers_def factories_def WaypointEnabled_def PodIPEnabled_def
      InferServiceParentEnabled_def enabled_by_default_def Let_def)

lemma example_reachable: "reachable createDefaultConfig example_world"
  by (rule reachable.start [OF example_start])

text \<open>The example route and its nil-Kind parent, the Service \<open>shop/cart\<close>.\<close>

lemma example_parent_facts:
  "\<not> isServiceParent example_parent" "isNilKindCoreParent example_parent"
  "parent_ns example_parent ''shop'' = ''shop''" "pr_Name example_parent = ''cart''"
  "rt_Namespace (example_route pr) = ''shop''" "rt_Name (example_route pr) = ''r''"
  "rt_ParentRefs (example_route pr) = [pr]"
  by (simp_all add: isServiceParent_def isNilKindCoreParent_def parent_ns_def example_parent_def example_route_def)

lemma example_inference_on: "InferServiceParentEnabled (Mesh createDefaultConfig)"
  by (simp add: createDefaultConfig_def InferServiceParentEnabled_def enabled_by_default_def)

lemma example_service_known:
  "serviceNameIndex_Exists (w_names (service_upsert cart_service example_world)) ''shop'' ''cart''"
  by (simp add: service_upsert_def example_world_def fresh_world_def serviceNameIndex_Exists_def
      serviceNameIndex_upsertService_def cart_service_def newServiceNameIndex_def)

lemma example_fresh:
  "w_gws (service_upsert svc example_world) = newGatewayStore" "\<not> w_synced (service_upsert svc example_world)"
  by (simp_all add: service_upsert_def example_world_def fresh_world_def)

text \<open>Every reachable world is consistent: after a successful start and any sequence of
  informer events, the route index satisfies its invariant, both maps of each address index agree,
  exactly the indexes of the enabled features exist, every indexed route is ingress or mesh and
  carries no policies of its own, and no parent was inferred before the Gateway informers had synced
  or with the inference switched off.\<close>

lemma reachable_worlds_consistent:
  assumes "reachable cfg w"
  shows "idx_inv (w_idx w)
    \<and> (\<forall>ips ip. w_ips w = Some ips \<longrightarrow> (ci_owner ips ip = None \<longleftrightarrow> ci_m ips ip = None))
    \<and> (\<forall>pods ip. w_pods w = Some pods \<longrightarrow> (ci_owner pods ip = None \<longleftrightarrow> ci_m pods ip = None))
    \<and> (w_ips w \<noteq> None \<longleftrightarrow> bf_Enabled (cfg_Fallback cfg))
    \<and> (w_pods w \<noteq> None \<longleftrightarrow> bf_Enabled (cfg_Fallback cfg) \<and> PodIPEnabled (cfg_Fallback cfg))
    \<and> (w_wps w \<noteq> None \<longleftrightarrow> WaypointEnabled (Mesh cfg))
    \<and> (w_names w \<noteq> None \<longleftrightarrow> InferServiceParentEnabled (Mesh cfg))
    \<and> (\<forall>k ra. routes (w_idx w) k = Some ra \<longrightarrow>
         ra_RouteMode ra \<in> {RouteModeIngress, RouteModeMesh} \<and> ra_Policies ra = [])
    \<and> (w_inferred w \<noteq> [] \<longrightarrow> w_synced w \<and> InferServiceParentEnabled (Mesh cfg))"
  using reachable_inv [OF assms]
  by (simp add: world_inv_def features_ok_def route_ok_def claim_inv_def option.pred_set)

lemma reachable_worlds_consistent_witness: "idx_inv (w_idx example_world) \<and> w_pods example_world \<noteq> None"
proof -
  have "bf_Enabled (cfg_Fallback createDefaultConfig) \<and> PodIPEnabled (cfg_Fallback createDefaultConfig)"
    by (simp add: createDefaultConfig_def PodIPEnabled_def enabled_by_default_def)
  then show ?thesis using reachable_worlds_consistent [OF example_reachable] by blast
qed

text \<open>An HTTPRoute is visible as soon as its event is handled: the lookup of its
  namespace and name returns its projection against the Gateways, classes and Services known at
  that moment, with the policies stamped on it, and the entries of all other routes are as before.\<close>

lemma route_event_visible:
  "\<exists>w'. handle cfg (HTTPRouteUpsert (Received hr)) w = Some w' \<and>
    LookupRoute (world_lookup w') RouteKindHTTPRoute (rt_Namespace hr) (rt_Name hr) =
      Some (let ra = fst (httpRouteToAttrs hr (w_gws w) (w_gcs w) cfg (inferrer_at cfg w));
                pols = get_list (policies (w_idx w)) (routeKey RouteKindHTTPRoute (rt_Namespace hr) (rt_Name hr)) in
            if pols = [] then ra else ra\<lparr>ra_Policies := pols\<rparr>) \<and>
    (\<forall>kind ns name. routeKey kind ns name = routeKey RouteKindHTTPRoute (rt_Namespace hr) (rt_Name hr) \<or>
       LookupRoute (world_lookup w') kind ns name = LookupRoute (world_lookup w) kind ns name)"
proof -
  have pol: "policies (upsertHTTPRoute r ra refs) = policies r" for r ra refs
    by (simp add: upsertHTTPRoute_def Let_def)
  show ?thesis
    by (auto simp: upsert_http_def world_lookup_def combined_lookup_def world_combined_def
        httpRouteToAttrs_eq case_prod_beta idx_LookupRoute_def overlayPolicies_def Let_def pol
        split: option.split)
qed

text \<open>Claim C14. A deleted HTTPRoute leaves the index completely, also when the delete was missed
  and arrives as a tombstone: in a reachable world the lookup of the route then fails, no Service
  resolves to it, and it is in no candidate list.\<close>

theorem route_deletion_complete:
  assumes "reachable cfg w" and "d = Deleted hr \<or> d = Tombstone hr"
    and "handle cfg (HTTPRouteDelete d) w = Some w'"
  shows "LookupRoute (world_lookup w') RouteKindHTTPRoute (rt_Namespace hr) (rt_Name hr) = None
    \<and> (\<forall>ns svc ras ra. LookupByBackendServiceWithParents (world_lookup w') ns svc = Some ras \<and> ra \<in> set ras \<longrightarrow>
         routeKey (ra_Kind ra) (ra_Namespace ra) (ra_Name ra) \<noteq> routeKey RouteKindHTTPRoute (rt_Namespace hr) (rt_Name hr))
    \<and> (\<forall>ns svc ra. LookupByBackendService (world_lookup w') ns svc = Some ra \<longrightarrow>
         routeKey (ra_Kind ra) (ra_Namespace ra) (ra_Name ra) \<noteq> routeKey RouteKindHTTPRoute (rt_Namespace hr) (rt_Name hr))"
proof -
  let ?key = "routeKey RouteKindHTTPRoute (rt_Namespace hr) (rt_Name hr)"
  have w': "w' = w\<lparr>w_idx := deleteHTTPRoute (w_idx w) (rt_Namespace hr) (rt_Name hr)\<rparr>"
    using assms(2,3) by auto
  have "reachable cfg w'" using assms(1,3) by (rule reachable.event)
  then have inv: "idx_inv (w_idx w')" "combined_inv (world_combined w')"
    using reachable_inv world_combined_inv unfolding world_inv_def by blast+
  have gone: "routes (w_idx w') ?key = None" by (simp add: w')
  have cand: "routeKey (ra_Kind ra) (ra_Namespace ra) (ra_Name ra) \<noteq> ?key"
    if ras: "LookupByBackendServiceWithParents (world_lookup w') ns svc = Some ras" and ra: "ra \<in> set ras"
    for ns svc ras ra
  proof -
    obtain owner where o: "owner \<in> owners_of (w_idx w') (nsKey ns svc)"
      and ra': "ra = overlayPolicies (w_idx w') owner (route_or_zero (w_idx w') owner)"
      using ras ra by (auto simp: world_lookup_def combined_lookup_def world_combined_def owners_of_def
          idx_LookupByBackendServiceWithParents_def Let_def split: if_splits)
    then obtain ra0 where ra0: "routes (w_idx w') owner = Some ra0" using idx_invD(2) [OF inv(1)] by blast
    then have "owner = routeKey (ra_Kind ra0) (ra_Namespace ra0) (ra_Name ra0)"
      using idx_invD(6) [OF inv(1)] by blast
    moreover have "owner \<noteq> ?key" using ra0 gone by auto
    ultimately show ?thesis using ra0 by (simp add: ra' route_or_zero_def)
  qed
  have "LookupRoute (world_lookup w') RouteKindHTTPRoute (rt_Namespace hr) (rt_Name hr) = None"
    using gone by (simp add: world_lookup_def combined_lookup_def world_combined_def idx_LookupRoute_def)
  then show ?thesis
    using cand combined.single_is_candidate [OF inv(2)] unfolding world_lookup_def by blast
qed

lemma route_deletion_complete_witness:
  "LookupRoute (world_lookup (the (handle createDefaultConfig
       (HTTPRouteDelete (Tombstone (example_route example_parent))) example_world)))
     RouteKindHTTPRoute (rt_Namespace (example_route example_parent)) (rt_Name (example_route example_parent)) = None"
  using route_deletion_complete [OF example_reachable, of "Tombstone (example_route example_parent)"
      "example_route example_parent"]
  by simp

text \<open>The handlers panic on nothing but an object of a foreign type handed to the add or
  update handler of Gateways or GatewayClasses, whose type assertions are unchecked; every other
  event, whatever it carries, is handled.\<close>

lemma handler_panics:
  "handle cfg ev w = None \<longleftrightarrow> ev = GatewayUpsert ReceivedForeign \<or> ev = GatewayClassUpsert ReceivedForeign"
proof (cases ev)
  case (GatewayUpsert x)
  then show ?thesis by (cases x) simp_all
next
  case (GatewayClassUpsert x)
  then show ?thesis by (cases x) simp_all
qed simp_all

text \<open>Claim C37. Starting the informers succeeds exactly when the REST configuration and the clients
  that the enabled features need can be built and every informer's cache syncs in time; the
  informers are the four of the Gateway API per watched namespace, a Service informer when the
  fallback, waypoints or the inference need it, an EndpointSlice informer when the fallback resolves
  PodIPs, and one per configured policy resource.\<close>

theorem start_succeeds_iff:
  "(\<exists>infs w. newInformers k cfg = Inr (infs, w)) \<longleftrightarrow>
   (let need = bf_Enabled (cfg_Fallback cfg) \<or> WaypointEnabled (Mesh cfg) \<or> InferServiceParentEnabled (Mesh cfg);
        per = (\<lambda>f. [HTTPRouteInformer f, GRPCRouteInformer f, GatewayInformer f, GatewayClassInformer f]
              @ (if need then [ServiceInformer f] else [])
              @ (if bf_Enabled (cfg_Fallback cfg) \<and> PodIPEnabled (cfg_Fallback cfg) then [EndpointSliceInformer f] else [])
              @ map (PolicyInformer f) (wc_Policies (Watch cfg)))
    in AuthType cfg \<noteq> AuthTypeNone
     \<and> (AuthType cfg = AuthTypeKubeConfig \<longrightarrow> k_BuildConfigFromFlags k (KubeConfigPath cfg) = None)
     \<and> (AuthType cfg \<noteq> AuthTypeKubeConfig \<longrightarrow> k_InClusterConfig k = None)
     \<and> k_gwclient k = None
     \<and> (need \<longrightarrow> k_kubernetes k = None)
     \<and> (wc_Policies (Watch cfg) \<noteq> [] \<longrightarrow> k_dynamic k = None)
     \<and> (\<forall>f \<in> (if Namespaces (Watch cfg) = [] then {None} else Some ` set (Namespaces (Watch cfg))).
          \<forall>i \<in> set (per f). k_synced k (defaultSyncTimeout (InformerSyncTimeout cfg)) i))"
proof -
  let ?need = "bf_Enabled (cfg_Fallback cfg) \<or> WaypointEnabled (Mesh cfg) \<or> InferServiceParentEnabled (Mesh cfg)"
  let ?pods = "bf_Enabled (cfg_Fallback cfg) \<and> PodIPEnabled (cfg_Fallback cfg)"
  let ?S = "k_synced k (defaultSyncTimeout (InformerSyncTimeout cfg))"
  have rest: "buildRESTConfig k cfg = None \<longleftrightarrow> AuthType cfg \<noteq> AuthTypeNone
      \<and> (AuthType cfg = AuthTypeKubeConfig \<longrightarrow> k_BuildConfigFromFlags k (KubeConfigPath cfg) = None)
      \<and> (AuthType cfg \<noteq> AuthTypeKubeConfig \<longrightarrow> k_InClusterConfig k = None)"
    by (auto simp: buildRESTConfig_def auth_defs)
  have facs: "set (factories cfg) =
      (if Namespaces (Watch cfg) = [] then {None} else Some ` set (Namespaces (Watch cfg)))"
    by (simp add: factories_def)
  define cs where "cs = (if ?need then map ServiceInformer (factories cfg) else [])
    @ (if ?pods then map EndpointSliceInformer (factories cfg) else [])"
  define ps where "ps = concat (map (\<lambda>f. map (PolicyInformer f) (wc_Policies (Watch cfg))) (factories cfg))"
  have core': "start_core k cfg = (if ?need \<and> k_kubernetes k \<noteq> None then Inl (KubernetesClientsetError (the (k_kubernetes k)))
      else Inr (cs, snd (projr (start_core k cfg))))"
    by (auto simp: start_core_def startServiceInformer_def startEndpointSliceInformer_def cs_def Let_def
        split: option.splits)
  have pol': "startPolicyInformers k cfg = (if wc_Policies (Watch cfg) \<noteq> [] \<and> k_dynamic k \<noteq> None
      then Inl (DynamicClientError (the (k_dynamic k))) else Inr ps)"
    by (auto simp: startPolicyInformers_def ps_def split: option.splits)
  have "(\<exists>infs w. newInformers k cfg = Inr (infs, w)) \<longleftrightarrow>
      buildRESTConfig k cfg = None \<and> k_gwclient k = None \<and>
      (?need \<longrightarrow> k_kubernetes k = None) \<and> (wc_Policies (Watch cfg) \<noteq> [] \<longrightarrow> k_dynamic k = None) \<and>
      list_all ?S (gateway_informers cfg @ cs @ ps)"
    unfolding newInformers_def pol' Let_def
    by (subst core') (simp add: wait_for_sync_eq split: option.split)
  also have "list_all ?S (gateway_informers cfg @ cs @ ps) \<longleftrightarrow>
      (\<forall>f \<in> set (factories cfg). \<forall>i \<in> set ([HTTPRouteInformer f, GRPCRouteInformer f, GatewayInformer f, GatewayClassInformer f]
              @ (if ?need then [ServiceInformer f] else []) @ (if ?pods then [EndpointSliceInformer f] else [])
              @ map (PolicyInformer f) (wc_Policies (Watch cfg))). ?S i)"
    by (auto simp: list_all_iff gateway_informers_def cs_def ps_def)
  finally show ?thesis
    unfolding rest Let_def facs by blast
qed

lemma start_succeeds_iff_witness: "\<exists>infs w. newInformers example_kube createDefaultConfig = Inr (infs, w)"
  unfolding start_succeeds_iff
  by (simp add: example_kube_def createDefaultConfig_def auth_defs)

text \<open>A tombstone does not remove a Gateway or a GatewayClass from its store, as it does a route.\<close>

lemma gateway_tombstone_ignored:
  "handle cfg (GatewayDelete (Tombstone gw)) w = Some w" "handle cfg (GatewayClassDelete (Tombstone gc)) w = Some w"
  by simp_all

end
