(* ===== verification/Convergence.thy ===== *)
theory Convergence
  imports Informers
begin

text \<open>
  Convergence of the route index. A route is projected when its event is handled, against the
  Gateways, classes and Services known at that moment, and the result is cached
  (\<open>parent_inference.go\<close>, convergence note), so an entry can be out of date until the route is
  delivered again. The informers re-deliver every object at the resync period. This theory shows
  that once the stores are stable a re-delivery brings the index to the projection of the declared
  routes, whatever it held before and whatever else is handled in between.
\<close>

section \<open>Sequences of events\<close>

fun handle_all :: "Config \<Rightarrow> event list \<Rightarrow> world \<Rightarrow> world option" where
  "handle_all cfg [] w = Some w"
| "handle_all cfg (ev # evs) w =
     (case handle cfg ev w of None \<Rightarrow> None | Some w1 \<Rightarrow> handle_all cfg evs w1)"

text \<open>The events that leave alone what the projections read.\<close>

fun keeps_stores :: "event \<Rightarrow> bool" where
  "keeps_stores (HTTPRouteUpsert x) = True"
| "keeps_stores (HTTPRouteDelete d) = True"
| "keeps_stores (GRPCRouteUpsert x) = True"
| "keeps_stores (GRPCRouteDelete d) = True"
| "keeps_stores (EndpointSliceUpsert x) = True"
| "keeps_stores (EndpointSliceDelete d) = True"
| "keeps_stores (PolicyAdded gvr x) = True"
| "keeps_stores (PolicyUpdated gvr old x) = True"
| "keeps_stores (PolicyDeleted gvr d) = True"
| "keeps_stores _ = False"

text \<open>What an event declares of a route: the key of the route and its object, or that it is gone.\<close>

fun deleted_object :: "'a deleted \<Rightarrow> 'a option" where
  "deleted_object (Deleted x) = Some x"
| "deleted_object (Tombstone x) = Some x"
| "deleted_object _ = None"

fun declares :: "event \<Rightarrow> (string \<times> (RouteKind \<times> Route) option) option" where
  "declares (HTTPRouteUpsert (Received r)) =
     Some (routeKey RouteKindHTTPRoute (rt_Namespace r) (rt_Name r), Some (RouteKindHTTPRoute, r))"
| "declares (GRPCRouteUpsert (Received r)) =
     Some (routeKey RouteKindGRPCRoute (rt_Namespace r) (rt_Name r), Some (RouteKindGRPCRoute, r))"
| "declares (HTTPRouteDelete d) =
     map_option (\<lambda>r. (routeKey RouteKindHTTPRoute (rt_Namespace r) (rt_Name r), None)) (deleted_object d)"
| "declares (GRPCRouteDelete d) =
     map_option (\<lambda>r. (routeKey RouteKindGRPCRoute (rt_Namespace r) (rt_Name r), None)) (deleted_object d)"
| "declares _ = None"

text \<open>The last word of a sequence of events on each route; \<open>None\<close> where it says nothing.\<close>

definition declared :: "event list \<Rightarrow> string \<Rightarrow> (RouteKind \<times> Route) option option" where
  "declared evs = fold (\<lambda>ev m. case declares ev of None \<Rightarrow> m | Some (key, d) \<Rightarrow> m(key \<mapsto> d)) evs Map.empty"

text \<open>What a declaration means in a world: the attributes and the Services of the route.\<close>

definition route_attrs :: "Config \<Rightarrow> world \<Rightarrow> RouteKind \<times> Route \<Rightarrow> RouteAttributes" where
  "route_attrs cfg w d =
     (if fst d = RouteKindGRPCRoute then fst (grpcRouteToAttrs (snd d) (w_gws w) (w_gcs w) cfg (inferrer_at cfg w))
      else fst (httpRouteToAttrs (snd d) (w_gws w) (w_gcs w) cfg (inferrer_at cfg w)))"

definition route_backends :: "RouteKind \<times> Route \<Rightarrow> string set" where
  "route_backends d =
     bref_key ` set (if fst d = RouteKindGRPCRoute then backendRefsFromGRPCRoute (snd d)
                     else backendRefsFromHTTPRoute (snd d))"

section \<open>The routes of the index\<close>

text \<open>The current routes and the Services they claim, as the abstract index of theory RouteIndex.\<close>

definition projected ::
  "Config \<Rightarrow> world \<Rightarrow> (string \<Rightarrow> (RouteKind \<times> Route) option option) \<Rightarrow> spec_index \<Rightarrow> spec_index"
where
  "projected cfg w decl a key =
     (case decl key of
        None \<Rightarrow> a key
      | Some None \<Rightarrow> None
      | Some (Some d) \<Rightarrow> Some (route_attrs cfg w d, route_backends d))"

lemma same_routes_refines: "same_routes r r' \<Longrightarrow> refines r' a = refines r a"
  unfolding same_routes_def by (metis refines_policies)

definition same_stores :: "world \<Rightarrow> world \<Rightarrow> bool" where
  "same_stores w w' \<longleftrightarrow> w_gws w' = w_gws w \<and> w_gcs w' = w_gcs w \<and> w_synced w' = w_synced w \<and> w_names w' = w_names w"

lemma same_stores_attrs: "same_stores w w' \<Longrightarrow> route_attrs cfg w' = route_attrs cfg w"
  by (rule ext) (simp add: same_stores_def route_attrs_def inferrer_at_def)

lemma same_stores_trans: "same_stores w w' \<Longrightarrow> same_stores w' w'' \<Longrightarrow> same_stores w w''"
  by (simp add: same_stores_def)

text \<open>The abstract index after one event.\<close>

definition decl_step :: "Config \<Rightarrow> world \<Rightarrow> event \<Rightarrow> spec_index \<Rightarrow> spec_index" where
  "decl_step cfg w ev a =
     (case declares ev of
        None \<Rightarrow> a
      | Some (key, d) \<Rightarrow> a(key := map_option (\<lambda>d. (route_attrs cfg w d, route_backends d)) d))"

lemma same_stores_decl: "same_stores w w' \<Longrightarrow> decl_step cfg w' = decl_step cfg w"
  by (intro ext) (simp add: decl_step_def same_stores_attrs split: option.split)

text \<open>What one event does to the index and to the stores.\<close>

definition tracks :: "Config \<Rightarrow> event \<Rightarrow> world \<Rightarrow> world \<Rightarrow> spec_index \<Rightarrow> bool" where
  "tracks cfg ev w w' a \<longleftrightarrow>
     same_stores w w' \<and> idx_inv (w_idx w') \<and> refines (w_idx w') (decl_step cfg w ev a)"

lemma tracks_idle: "idx_inv (w_idx w) \<Longrightarrow> refines (w_idx w) a \<Longrightarrow> declares ev = None \<Longrightarrow> tracks cfg ev w w a"
  by (simp add: tracks_def same_stores_def decl_step_def)

lemma tracks_pods: "idx_inv (w_idx w) \<Longrightarrow> refines (w_idx w) a \<Longrightarrow> declares ev = None \<Longrightarrow> tracks cfg ev w (w\<lparr>w_pods := x\<rparr>) a"
  by (simp add: tracks_def same_stores_def decl_step_def)

lemma tracks_policies:
  "idx_inv r \<and> same_routes (w_idx w) r \<Longrightarrow> refines (w_idx w) a \<Longrightarrow> declares ev = None \<Longrightarrow>
   tracks cfg ev w (w\<lparr>w_idx := r\<rparr>) a"
  using same_routes_refines [of "w_idx w" r a] by (simp add: tracks_def same_stores_def decl_step_def)

lemma tracks_routes:
  assumes inv: "idx_inv (w_idx w)" and ref: "refines (w_idx w) a"
  shows "tracks cfg (HTTPRouteUpsert (Received r)) w (upsert_http cfg r w) a"
    "tracks cfg (GRPCRouteUpsert (Received r)) w (upsert_grpc cfg r w) a"
    "declares ev = Some (routeKey RouteKindHTTPRoute ns name, None) \<Longrightarrow>
       tracks cfg ev w (w\<lparr>w_idx := deleteHTTPRoute (w_idx w) ns name\<rparr>) a"
    "declares ev = Some (routeKey RouteKindGRPCRoute ns name, None) \<Longrightarrow>
       tracks cfg ev w (w\<lparr>w_idx := deleteGRPCRoute (w_idx w) ns name\<rparr>) a"
  using refines_step [OF ref, of "UpsertHTTP (fst (httpRouteToAttrs r (w_gws w) (w_gcs w) cfg (inferrer_at cfg w)))
        (backendRefsFromHTTPRoute r)"]
    refines_step [OF ref, of "UpsertGRPC (fst (grpcRouteToAttrs r (w_gws w) (w_gcs w) cfg (inferrer_at cfg w)))
        (backendRefsFromGRPCRoute r)"]
    refines_step [OF ref, of "DeleteHTTP ns name"] refines_step [OF ref, of "DeleteGRPC ns name"]
  by (auto simp: tracks_def same_stores_def decl_step_def upsert_http_def upsert_grpc_def route_attrs_def
      route_backends_def httpRouteToAttrs_eq grpcRouteToAttrs_eq case_prod_beta idx_inv_ops [OF inv])

lemma handle_tracks:
  assumes "keeps_stores ev" and inv: "idx_inv (w_idx w)" and ref: "refines (w_idx w) a"
  shows "\<exists>w'. handle cfg ev w = Some w' \<and> tracks cfg ev w w' a"
proof (cases ev)
  case (HTTPRouteUpsert x)
  then show ?thesis using tracks_routes [OF inv ref] tracks_idle [OF inv ref] by (cases x) auto
next
  case (HTTPRouteDelete x)
  then show ?thesis using tracks_routes [OF inv ref] tracks_idle [OF inv ref] by (cases x) auto
next
  case (GRPCRouteUpsert x)
  then show ?thesis using tracks_routes [OF inv ref] tracks_idle [OF inv ref] by (cases x) auto
next
  case (GRPCRouteDelete x)
  then show ?thesis using tracks_routes [OF inv ref] tracks_idle [OF inv ref] by (cases x) auto
next
  case (EndpointSliceUpsert x)
  then show ?thesis using tracks_pods [OF inv ref] tracks_idle [OF inv ref] by (cases x) auto
next
  case (EndpointSliceDelete x)
  then show ?thesis using tracks_pods [OF inv ref] tracks_idle [OF inv ref] by (cases x) auto
next
  case (PolicyAdded gvr x)
  then show ?thesis
    using tracks_policies [OF idx_inv_policyAdd [OF inv] ref] tracks_idle [OF inv ref] by (cases x) auto
next
  case (PolicyUpdated gvr old x)
  then show ?thesis
    using tracks_policies [OF idx_inv_policyUpdate [OF inv] ref] tracks_idle [OF inv ref] by (cases x) auto
next
  case (PolicyDeleted gvr x)
  then show ?thesis
    using tracks_policies [OF idx_inv_policyDelete [OF inv] ref] tracks_idle [OF inv ref] by (cases x) auto
qed (use assms in simp_all)

lemma handle_all_tracks:
  assumes "list_all keeps_stores evs" "idx_inv (w_idx w)" "refines (w_idx w) a"
  shows "\<exists>w'. handle_all cfg evs w = Some w' \<and> same_stores w w' \<and> idx_inv (w_idx w') \<and>
    refines (w_idx w') (fold (decl_step cfg w) evs a)"
  using assms
proof (induction evs arbitrary: w a)
  case Nil
  then show ?case by (simp add: same_stores_def)
next
  case (Cons ev evs)
  then obtain w1 where w1: "handle cfg ev w = Some w1" "tracks cfg ev w w1 a" using handle_tracks by fastforce
  then have "decl_step cfg w1 = decl_step cfg w" by (simp add: tracks_def same_stores_decl)
  with Cons.IH [of w1 "decl_step cfg w ev a"] Cons.prems(1) w1 show ?case
    by (auto simp: tracks_def intro: same_stores_trans)
qed

lemma projected_upd:
  "projected cfg w (decl(key \<mapsto> d)) a =
   (projected cfg w decl a)(key := map_option (\<lambda>d. (route_attrs cfg w d, route_backends d)) d)"
  by (auto simp: projected_def fun_eq_iff split: option.split)

lemma fold_decl: "fold (decl_step cfg w) evs a = projected cfg w (declared evs) a"
proof (induction evs rule: rev_induct)
  case Nil
  then show ?case by (simp add: declared_def projected_def fun_eq_iff)
next
  case (snoc ev evs)
  then show ?case
    by (auto simp: declared_def decl_step_def projected_upd split: option.split)
qed

text \<open>What the index holds before: each route with the Services it owns.\<close>

definition held :: "routeIndex \<Rightarrow> spec_index" where
  "held r key = map_option (\<lambda>ra. (ra, {k. key \<in> owners_of r k})) (routes r key)"

lemma refines_held: "idx_inv r \<Longrightarrow> refines r (held r)"
  using idx_invD(2) by (fastforce simp: refines_def held_def option.map_comp comp_def option.map_ident)

section \<open>A Service that one route names\<close>

text \<open>Only the route \<open>K\<close> holds the claim on the Service \<open>k\<close>, and it holds it, with the attributes of its
  declaration \<open>d\<close>, once it is declared with \<open>k\<close> among its backends.\<close>

definition sole_holder ::
  "Config \<Rightarrow> world \<Rightarrow> string \<Rightarrow> string \<Rightarrow> (RouteKind \<times> Route) option option \<Rightarrow> routeIndex \<Rightarrow> bool"
where
  "sole_holder cfg w K k d r \<longleftrightarrow>
     claimedBackends r k \<in> {None, Some K} \<and>
     (case d of
        Some (Some d) \<Rightarrow> k \<in> route_backends d \<longrightarrow>
          claimedBackends r k = Some K \<and> backendIndex r k = Some (route_attrs cfg w d)
      | _ \<Rightarrow> True)"

text \<open>What the event says of the route \<open>K\<close> overrides what was said before.\<close>

definition said ::
  "event \<Rightarrow> string \<Rightarrow> (RouteKind \<times> Route) option option \<Rightarrow> (RouteKind \<times> Route) option option"
where
  "said ev K d = (case declares ev of Some (key, d') \<Rightarrow> if key = K then Some d' else d | None \<Rightarrow> d)"

definition others_leave :: "event \<Rightarrow> string \<Rightarrow> string \<Rightarrow> bool" where
  "others_leave ev K k \<longleftrightarrow> (\<forall>key d. declares ev = Some (key, Some d) \<longrightarrow> key = K \<or> k \<notin> route_backends d)"

lemma sole_holder_same:
  "same_routes r r' \<Longrightarrow> sole_holder cfg w K k d r' = sole_holder cfg w K k d r"
proof -
  assume "same_routes r r'"
  then have "claimedBackends r' = claimedBackends r" "backendIndex r' = backendIndex r"
    by (metis same_routes_def routeIndex.select_convs(2,3) routeIndex.surjective routeIndex.update_convs(5))+
  then show ?thesis by (simp add: sole_holder_def split: option.split)
qed

lemma sole_holder_reindex:
  assumes "sole_holder cfg w K k d r" and "key = K \<or> k \<notin> bref_key ` set refs"
    and "d' = (if key = K then Some (Some obj) else d)" "bref_key ` set refs = route_backends obj" "ra = route_attrs cfg w obj"
  shows "sole_holder cfg w K k d' (reindexBackends key ra refs (r\<lparr>routes := x\<rparr>))"
  using assms
  by (auto simp: sole_holder_def reindex_simps split: option.splits if_splits)

lemma sole_holder_delete:
  assumes "sole_holder cfg w K k d r"
  shows "sole_holder cfg w K k (if key = K then Some None else d) (dropBackendOwnershipLocked key (r\<lparr>routes := x\<rparr>))"
  using assms by (auto simp: sole_holder_def drop_simps split: option.splits if_splits)

lemma sole_holder_routes:
  assumes "sole_holder cfg w K k d (w_idx w)"
  shows "others_leave (HTTPRouteUpsert (Received r)) K k \<Longrightarrow>
      sole_holder cfg w K k (said (HTTPRouteUpsert (Received r)) K d) (w_idx (upsert_http cfg r w))"
    "others_leave (GRPCRouteUpsert (Received r)) K k \<Longrightarrow>
      sole_holder cfg w K k (said (GRPCRouteUpsert (Received r)) K d) (w_idx (upsert_grpc cfg r w))"
    "declares ev = Some (routeKey RouteKindHTTPRoute ns name, None) \<Longrightarrow>
      sole_holder cfg w K k (said ev K d) (deleteHTTPRoute (w_idx w) ns name)"
    "declares ev = Some (routeKey RouteKindGRPCRoute ns name, None) \<Longrightarrow>
      sole_holder cfg w K k (said ev K d) (deleteGRPCRoute (w_idx w) ns name)"
proof -
  have idx_upsert:
    "w_idx (upsert_http cfg r w) = upsertHTTPRoute (w_idx w)
       (fst (httpRouteToAttrs r (w_gws w) (w_gcs w) cfg (inferrer_at cfg w))) (backendRefsFromHTTPRoute r)"
    "w_idx (upsert_grpc cfg r w) = upsertGRPCRoute (w_idx w)
       (fst (grpcRouteToAttrs r (w_gws w) (w_gcs w) cfg (inferrer_at cfg w))) (backendRefsFromGRPCRoute r)"
    by (simp_all add: upsert_http_def upsert_grpc_def case_prod_beta)
  show "sole_holder cfg w K k (said (HTTPRouteUpsert (Received r)) K d) (w_idx (upsert_http cfg r w))"
    if "others_leave (HTTPRouteUpsert (Received r)) K k"
    unfolding idx_upsert upsertHTTPRoute_def Let_def
    by (rule sole_holder_reindex [OF assms, where obj = "(RouteKindHTTPRoute, r)"])
      (use that in \<open>auto simp: said_def others_leave_def route_attrs_def route_backends_def httpRouteToAttrs_eq\<close>)
  show "sole_holder cfg w K k (said (GRPCRouteUpsert (Received r)) K d) (w_idx (upsert_grpc cfg r w))"
    if "others_leave (GRPCRouteUpsert (Received r)) K k"
    unfolding idx_upsert upsertGRPCRoute_def Let_def
    by (rule sole_holder_reindex [OF assms, where obj = "(RouteKindGRPCRoute, r)"])
      (use that in \<open>auto simp: said_def others_leave_def route_attrs_def route_backends_def grpcRouteToAttrs_eq\<close>)
  show "sole_holder cfg w K k (said ev K d) (deleteHTTPRoute (w_idx w) ns name)"
    if "declares ev = Some (routeKey RouteKindHTTPRoute ns name, None)"
    using sole_holder_delete [OF assms] that by (simp add: said_def deleteHTTPRoute_def Let_def)
  show "sole_holder cfg w K k (said ev K d) (deleteGRPCRoute (w_idx w) ns name)"
    if "declares ev = Some (routeKey RouteKindGRPCRoute ns name, None)"
    using sole_holder_delete [OF assms] that by (simp add: said_def deleteGRPCRoute_def Let_def)
qed

lemma sole_holder_event:
  assumes sole: "sole_holder cfg w K k d (w_idx w)" and inv: "idx_inv (w_idx w)" and "keeps_stores ev"
    and others: "others_leave ev K k" and "handle cfg ev w = Some w'"
  shows "sole_holder cfg w K k (said ev K d) (w_idx w')"
proof -
  note routes = sole_holder_routes [OF sole]
  have idle: "sole_holder cfg w K k (said ev' K d) (w_idx w)" if "declares ev' = None" for ev'
    using sole that by (simp add: said_def)
  have policies: "sole_holder cfg w K k (said ev' K d) r" if "declares ev' = None" "idx_inv r \<and> same_routes (w_idx w) r" for ev' r
    using sole that sole_holder_same [of "w_idx w" r cfg w K k d] by (simp add: said_def)
  show ?thesis
    using assms(3-5)
  proof (cases ev)
    case (HTTPRouteUpsert x)
    with others assms(5) routes idle show ?thesis by (cases x) auto
  next
    case (HTTPRouteDelete x)
    with assms(5) routes idle show ?thesis by (cases x) auto
  next
    case (GRPCRouteUpsert x)
    with others assms(5) routes idle show ?thesis by (cases x) auto
  next
    case (GRPCRouteDelete x)
    with assms(5) routes idle show ?thesis by (cases x) auto
  next
    case (EndpointSliceUpsert x)
    with assms(5) idle show ?thesis by (cases x) auto
  next
    case (EndpointSliceDelete x)
    with assms(5) idle show ?thesis by (cases x) auto
  next
    case (PolicyAdded gvr x)
    with assms(5) idle policies idx_inv_policyAdd [OF inv] show ?thesis by (cases x) auto
  next
    case (PolicyUpdated gvr old x)
    with assms(5) idle policies idx_inv_policyUpdate [OF inv] show ?thesis by (cases x) auto
  next
    case (PolicyDeleted gvr x)
    with assms(5) idle policies idx_inv_policyDelete [OF inv] show ?thesis by (cases x) auto
  qed simp_all
qed

lemma handle_all_append:
  "handle_all cfg (evs @ evs') w = Option.bind (handle_all cfg evs w) (handle_all cfg evs')"
  by (induction evs arbitrary: w) (simp_all split: option.split)

lemma declared_snoc: "declared (evs @ [ev]) K = said ev K (declared evs K)"
  by (simp add: declared_def said_def split: option.split)

lemma sole_holder_run:
  assumes "list_all keeps_stores evs" and inv: "idx_inv (w_idx w)" and "owners_of (w_idx w) k \<subseteq> {K}"
    and "\<forall>ev \<in> set evs. others_leave ev K k" and "handle_all cfg evs w = Some w'"
  shows "sole_holder cfg w K k (declared evs K) (w_idx w')"
  using assms(1,4,5)
proof (induction evs arbitrary: w' rule: rev_induct)
  case Nil
  then show ?case using idx_invD(3) [OF inv] assms(3) by (cases "claimedBackends (w_idx w) k") (auto simp: sole_holder_def declared_def)
next
  case (snoc ev evs)
  then obtain w1 where w1: "handle_all cfg evs w = Some w1" "handle cfg ev w1 = Some w'"
    by (auto simp: handle_all_append split: option.splits bind_splits)
  have stores: "same_stores w w1" and inv1: "idx_inv (w_idx w1)"
    using handle_all_tracks [OF _ inv refines_held [OF inv], of evs cfg] w1(1) snoc.prems(1) by auto
  have "sole_holder cfg w' K k = sole_holder cfg w K k" if "same_stores w w'" for w'
    using same_stores_attrs [OF that, of cfg] by (intro ext) (simp add: sole_holder_def split: option.split)
  with snoc w1 stores inv1 sole_holder_event [of cfg w1 K k "declared evs K" ev w'] show ?case
    by (simp add: declared_snoc)
qed

section \<open>Properties\<close>

lemma reachable_handle_all: "reachable cfg w \<Longrightarrow> handle_all cfg evs w = Some w' \<Longrightarrow> reachable cfg w'"
  by (induction evs arbitrary: w) (auto split: option.splits intro: reachable.event)

text \<open>Claim C8. A resync converges: from any reachable world, however stale its entries, a sequence of
  route, policy and EndpointSlice events in any order, during which the Gateways, the classes and the
  Services do not change, is handled to its end, and then every route the sequence was about is found
  exactly as its last event declares it: not at all when deleted, and otherwise projected against the
  present Gateways, classes and Services, with its present policies. The candidates of a Service are
  the routes that now declare it, and those it had that the sequence was not about. A Service that one
  route alone names, before the sequence and throughout it, is resolved to that route by the
  single-candidate lookup once the route is delivered again, whatever that lookup answered before.
  (Where several routes name a Service, the single-candidate answer also depends on the order of older
  events, and nothing is said of it: \<open>resync_remembers_claim_order\<close> in theory RouteIndex.)\<close>

theorem resync_converges:
  assumes "reachable cfg w" and "list_all keeps_stores evs"
  shows "\<exists>w'. handle_all cfg evs w = Some w' \<and> reachable cfg w' \<and>
    (\<forall>kind ns name. LookupRoute (world_lookup w') kind ns name =
       map_option (overlayPolicies (w_idx w') (routeKey kind ns name))
         (case declared evs (routeKey kind ns name) of
            Some d \<Rightarrow> map_option (route_attrs cfg w) d
          | None \<Rightarrow> routes (w_idx w) (routeKey kind ns name))) \<and>
    (\<forall>k key. key \<in> owners_of (w_idx w') k \<longleftrightarrow>
       (case declared evs key of
          Some None \<Rightarrow> False
        | Some (Some d) \<Rightarrow> k \<in> route_backends d
        | None \<Rightarrow> key \<in> owners_of (w_idx w) k)) \<and>
    (\<forall>ns svc K d. owners_of (w_idx w) (nsKey ns svc) \<subseteq> {K} \<and>
       (\<forall>ev \<in> set evs. \<forall>key d'. declares ev = Some (key, Some d') \<longrightarrow> key = K \<or> nsKey ns svc \<notin> route_backends d') \<and>
       declared evs K = Some (Some d) \<and> nsKey ns svc \<in> route_backends d \<longrightarrow>
       LookupByBackendService (world_lookup w') ns svc = Some (overlayPolicies (w_idx w') K (route_attrs cfg w d)))"
proof -
  have inv: "idx_inv (w_idx w)" using reachable_inv [OF assms(1)] by (simp add: world_inv_def)
  obtain w' where w': "handle_all cfg evs w = Some w'" and ref: "refines (w_idx w') (projected cfg w (declared evs) (held (w_idx w)))"
    using handle_all_tracks [OF assms(2) inv refines_held [OF inv], of cfg] by (auto simp: fold_decl)
  have reach: "reachable cfg w'" using assms(1) w' by (rule reachable_handle_all)
  have route: "routes (w_idx w') key = (case declared evs key of Some d \<Rightarrow> map_option (route_attrs cfg w) d
      | None \<Rightarrow> routes (w_idx w) key)" for key
    using refines_sel(1) [OF ref, of key]
    by (auto simp: projected_def held_def option.map_comp comp_def option.map_ident split: option.splits)
  have owners: "key \<in> owners_of (w_idx w') k \<longleftrightarrow> (case declared evs key of Some None \<Rightarrow> False
        | Some (Some d) \<Rightarrow> k \<in> route_backends d | None \<Rightarrow> key \<in> owners_of (w_idx w) k)" for k key
    using refines_sel(2) [OF ref, of key k] refines_sel(2) [OF refines_held [OF inv], of key k]
    by (auto simp: projected_def split: option.splits)
  have "LookupRoute (world_lookup w') kind ns name =
      map_option (overlayPolicies (w_idx w') (routeKey kind ns name)) (routes (w_idx w') (routeKey kind ns name))"
    for kind ns name
    by (simp add: world_lookup_def combined_lookup_def world_combined_def idx_LookupRoute_def Let_def split: option.split)
  moreover have "LookupByBackendService (world_lookup w') ns svc = Some (overlayPolicies (w_idx w') K (route_attrs cfg w d))"
    if "owners_of (w_idx w) (nsKey ns svc) \<subseteq> {K}" "\<forall>ev \<in> set evs. others_leave ev K (nsKey ns svc)"
      "declared evs K = Some (Some d)" "nsKey ns svc \<in> route_backends d" for ns svc K d
  proof -
    have "sole_holder cfg w K (nsKey ns svc) (declared evs K) (w_idx w')"
      using assms(2) inv that(1,2) w' by (rule sole_holder_run)
    then have "backendIndex (w_idx w') (nsKey ns svc) = Some (route_attrs cfg w d)"
      using that(3,4) by (simp add: sole_holder_def)
    moreover have "idx_inv (w_idx w')" using reachable_inv [OF reach] by (simp add: world_inv_def)
    moreover have "routes (w_idx w') K = Some (route_attrs cfg w d)" using route [of K] that(3) by simp
    ultimately show ?thesis
      using idx_invD(6) [of "w_idx w'" K "route_attrs cfg w d"]
      by (simp add: world_lookup_def combined_lookup_def world_combined_def idx_LookupByBackendService_def)
  qed
  ultimately show ?thesis
    using w' reach route owners unfolding others_leave_def by (intro exI [of _ w']) auto
qed

text \<open>A route that was projected before the Gateway informers had synced, and its next delivery.\<close>

definition unsynced_world :: world where
  "unsynced_world = (upsert_http createDefaultConfig (example_route example_parent)
     (service_upsert cart_service example_world))\<lparr>w_synced := True\<rparr>"

lemma unsynced_reachable: "reachable createDefaultConfig unsynced_world"
  by (rule reachable_handle_all [OF example_reachable, of "[ServiceUpsert (Received cart_service),
      HTTPRouteUpsert (Received (example_route example_parent)), GatewaysSynced]"])
    (simp add: unsynced_world_def)

lemma resync_converges_witness:
  "\<exists>w'. handle_all createDefaultConfig [HTTPRouteUpsert (Received (example_route example_parent))] unsynced_world = Some w' \<and>
     map_option ra_RouteMode (LookupRoute (world_lookup unsynced_world) RouteKindHTTPRoute ''shop'' ''r'') = Some RouteModeIngress \<and>
     map_option ra_RouteMode (LookupRoute (world_lookup w') RouteKindHTTPRoute ''shop'' ''r'') = Some RouteModeMesh"
proof -
  let ?hr = "example_route example_parent"
  let ?key = "routeKey RouteKindHTTPRoute ''shop'' ''r''"
  note facts = example_parent_facts example_inference_on example_service_known example_fresh
  have get: "gatewayStore_get newGatewayStore ''shop'' ''cart'' = None"
    by (simp add: gatewayStore_get_def newGatewayStore_def)
  have sel: "w_gws unsynced_world = newGatewayStore" "w_synced unsynced_world"
    "w_names unsynced_world = w_names (service_upsert cart_service example_world)"
    by (simp_all add: unsynced_world_def upsert_http_def case_prod_beta facts)
  have before: "map_option ra_RouteMode (LookupRoute (world_lookup unsynced_world) RouteKindHTTPRoute ''shop'' ''r'') = Some RouteModeIngress"
    by (simp add: unsynced_world_def upsert_http_def httpRouteToAttrs_eq project_route_def applyParentRef_def
        maybeInfer_eq infers_def inferrer_at_def newParentInferrer_def facts get Let_def
        world_lookup_def combined_lookup_def world_combined_def idx_LookupRoute_def)
  have mesh: "ra_RouteMode (route_attrs createDefaultConfig unsynced_world (RouteKindHTTPRoute, ?hr)) = RouteModeMesh"
    by (simp add: route_attrs_def httpRouteToAttrs_eq project_route_def applyParentRef_def
        maybeInfer_eq infers_def inferrer_at_def newParentInferrer_def facts sel get Let_def)
  have decl: "declared [HTTPRouteUpsert (Received ?hr)] ?key = Some (Some (RouteKindHTTPRoute, ?hr))"
    by (simp add: declared_def facts)
  from resync_converges [OF unsynced_reachable, of "[HTTPRouteUpsert (Received ?hr)]"]
  show ?thesis using before mesh decl by (auto simp: option.map_comp comp_def)
qed

end
