(* ===== verification/Interleaving.thy ===== *)
theory Interleaving
  imports Convergence Telemetry
begin

text \<open>
  The handlers at the granularity of the locks. Every informer has a goroutine that runs its
  handlers one after the other; the goroutines interleave. Each index and store has its own mutex,
  held for one operation, so the atomic actions are the single reads and writes of a store. A
  handler is a \<open>proc\<close>, a tree of such actions in the order in which the code performs them, a
  configuration is a world with one \<open>proc\<close> per informer, and \<open>cstep\<close> performs one action of one
  goroutine, delivers the next event to an idle one, or lets the Gateway informers sync.
\<close>

section \<open>Atomic actions\<close>

text \<open>What is written under one lock. \<open>RecordInference\<close> is the counter and the debug log of an
  inference.\<close>

datatype store_op =
    OnIndex index_op
  | PutGateway Gateway
  | DropGateway string string
  | PutClass GatewayClass
  | DropClass string
  | PutServiceIPs Service
  | DropServiceIPs string string
  | PutWaypoint Service
  | DropWaypoint string string
  | PutServiceName Service
  | DropServiceName string string
  | PutSlice EndpointSlice
  | DropSlice string string
  | RecordInference inference

fun write_step :: "store_op \<Rightarrow> world \<Rightarrow> world" where
  "write_step (OnIndex op) w = w\<lparr>w_idx := index_step op (w_idx w)\<rparr>"
| "write_step (PutGateway gw) w = w\<lparr>w_gws := gatewayStore_upsert gw (w_gws w)\<rparr>"
| "write_step (DropGateway ns name) w = w\<lparr>w_gws := gatewayStore_delete ns name (w_gws w)\<rparr>"
| "write_step (PutClass gc) w = w\<lparr>w_gcs := gatewayClassStore_upsert gc (w_gcs w)\<rparr>"
| "write_step (DropClass name) w = w\<lparr>w_gcs := gatewayClassStore_delete name (w_gcs w)\<rparr>"
| "write_step (PutServiceIPs svc) w = w\<lparr>w_ips := map_option (serviceIPIndex_upsertService (Some svc)) (w_ips w)\<rparr>"
| "write_step (DropServiceIPs ns name) w = w\<lparr>w_ips := map_option (serviceIPIndex_deleteService ns name) (w_ips w)\<rparr>"
| "write_step (PutWaypoint svc) w = w\<lparr>w_wps := map_option (waypointIndex_upsertService (Some svc)) (w_wps w)\<rparr>"
| "write_step (DropWaypoint ns name) w = w\<lparr>w_wps := map_option (waypointIndex_deleteService ns name) (w_wps w)\<rparr>"
| "write_step (PutServiceName svc) w =
     w\<lparr>w_names := map_option (serviceNameIndex_upsertService (Some svc)) (w_names w)\<rparr>"
| "write_step (DropServiceName ns name) w =
     w\<lparr>w_names := map_option (serviceNameIndex_deleteService ns name) (w_names w)\<rparr>"
| "write_step (PutSlice es) w = w\<lparr>w_pods := map_option (upsertEndpointSlice (Some es)) (w_pods w)\<rparr>"
| "write_step (DropSlice ns name) w = w\<lparr>w_pods := map_option (deleteEndpointSlice ns name) (w_pods w)\<rparr>"
| "write_step (RecordInference x) w = w\<lparr>w_inferred := w_inferred w @ [x]\<rparr>"

text \<open>What is left of a handler: it has returned, it panics, it reads a store and goes on with the
  answer, or it writes.\<close>

datatype proc =
    Halt
  | Panic
  | GetGateway string string "Gateway option \<Rightarrow> proc"
  | GetClass string "GatewayClass option \<Rightarrow> proc"
  | CheckSynced "bool \<Rightarrow> proc"
  | CheckService string string "bool \<Rightarrow> proc"
  | Write store_op proc

fun proc_step :: "proc \<Rightarrow> world \<Rightarrow> proc \<times> world" where
  "proc_step Halt w = (Halt, w)"
| "proc_step Panic w = (Panic, w)"
| "proc_step (GetGateway ns name k) w = (k (gatewayStore_get (w_gws w) ns name), w)"
| "proc_step (GetClass name k) w = (k (gatewayClassStore_get (w_gcs w) name), w)"
| "proc_step (CheckSynced k) w = (k (w_synced w), w)"
| "proc_step (CheckService ns name k) w = (k (serviceNameIndex_Exists (w_names w) ns name), w)"
| "proc_step (Write a p) w = (p, write_step a w)"

text \<open>A handler run without interruption; \<open>None\<close> is the panic.\<close>

primrec proc_run :: "proc \<Rightarrow> world \<Rightarrow> world option" where
  "proc_run Halt w = Some w"
| "proc_run Panic w = None"
| "proc_run (GetGateway ns name k) w = proc_run (k (gatewayStore_get (w_gws w) ns name)) w"
| "proc_run (GetClass name k) w = proc_run (k (gatewayClassStore_get (w_gcs w) name)) w"
| "proc_run (CheckSynced k) w = proc_run (k (w_synced w)) w"
| "proc_run (CheckService ns name k) w = proc_run (k (serviceNameIndex_Exists (w_names w) ns name)) w"
| "proc_run (Write a p) w = proc_run p (write_step a w)"

section \<open>The handlers as processes\<close>

text \<open>\<open>maybeInferServiceParent\<close>: the two closures are called after the check of the reference, the
  Gateway sync first; the inference is recorded before it is reported.\<close>

definition infer_proc ::
  "Config \<Rightarrow> ParentReference \<Rightarrow> string \<Rightarrow> RouteKind \<Rightarrow> (bool \<Rightarrow> proc) \<Rightarrow> proc"
where
  "infer_proc cfg pr parentNS kind k =
     (if \<not> InferServiceParentEnabled (Mesh cfg) then k False
      else if \<not> isNilKindCoreParent pr then k False
      else CheckSynced (\<lambda>synced. if \<not> synced then k False
        else CheckService parentNS (pr_Name pr) (\<lambda>exists. if \<not> exists then k False
          else Write (RecordInference (parentNS, pr_Name pr, kind)) (k True))))"

text \<open>The class store as the handler saw it: it reads a single class.\<close>

definition class_seen :: "string \<Rightarrow> GatewayClass option \<Rightarrow> gatewayClassStore" where
  "class_seen name gco = newGatewayClassStore(name := gco)"

definition parent_proc ::
  "Config \<Rightarrow> RouteAttributes \<Rightarrow> ParentReference \<Rightarrow> string \<Rightarrow> (RouteAttributes \<Rightarrow> proc) \<Rightarrow> proc"
where
  "parent_proc cfg ra pr routeNS k =
     (let ra1 = ra\<lparr>ra_ParentRef := formatParentRef pr routeNS, ra_ParentKind := parentKindOf pr\<rparr>;
          ns = parent_ns pr routeNS in
      if isServiceParent pr then k (applyServiceParent ra1 pr ns routeNS cfg)
      else GetGateway ns (pr_Name pr) (\<lambda>gwo. case gwo of
          None \<Rightarrow> infer_proc cfg pr ns (ra_Kind ra1) (\<lambda>inferred.
            if inferred then k (applyServiceParent (ra1\<lparr>ra_ParentKind := ''Service''\<rparr>) pr ns routeNS cfg)
            else k ra1)
        | Some gw \<Rightarrow> GetClass (gw_GatewayClassName gw) (\<lambda>gco.
            k (applyGatewayParent ra1 pr gw (class_seen (gw_GatewayClassName gw) gco) cfg))))"

text \<open>The two projections, which differ in the kind only (\<open>httpRouteToAttrs_eq\<close>, \<open>grpcRouteToAttrs_eq\<close>).\<close>

definition route_proc :: "Config \<Rightarrow> RouteKind \<Rightarrow> Route \<Rightarrow> (RouteAttributes \<Rightarrow> proc) \<Rightarrow> proc" where
  "route_proc cfg kind r k =
     (let ra = zero_route\<lparr>ra_Kind := kind, ra_Name := rt_Name r,
                ra_Namespace := rt_Namespace r, ra_UID := rt_UID r, ra_RouteMode := RouteModeIngress\<rparr>;
          flags = (if EmitStatusConds cfg then statusFlags (rt_Parents r) else (None, None));
          k' = (\<lambda>ra1. k (ra1\<lparr>ra_RuleNames := httpRuleNames r, ra_Accepted := fst flags,
                              ra_ResolvedRefs := snd flags\<rparr>))
      in case rt_ParentRefs r of
           pr # _ \<Rightarrow> parent_proc cfg ra pr (rt_Namespace r) k'
         | [] \<Rightarrow> k' ra)"

definition write_all :: "store_op list \<Rightarrow> proc" where
  "write_all ws = foldr Write ws Halt"

text \<open>The index operations of the three policy handlers, one lock each.\<close>

definition policy_add_ops :: "json \<Rightarrow> PolicyGVR \<Rightarrow> index_op list" where
  "policy_add_ops u gvr =
     (if \<not> policyAccepted (Some u) then []
      else map (\<lambda>t. ApplyPolicy (pt_Kind t) (pt_NS t) (pt_Name t) (policyRefFromUnstructured u gvr))
             (targetsFromUnstructured (Some u)))"

definition policy_update_ops :: "json option \<Rightarrow> json \<Rightarrow> PolicyGVR \<Rightarrow> index_op list" where
  "policy_update_ops oldU newU gvr =
     (let ref = policyRefFromUnstructured newU gvr;
          oldSet = targetSet (if policyAccepted oldU then targetsFromUnstructured oldU else []);
          newSet = targetSet (if policyAccepted (Some newU) then targetsFromUnstructured (Some newU) else []) in
      map (\<lambda>(k, t). RemovePolicy (pt_Kind t) (pt_NS t) (pt_Name t) ref)
        (filter (\<lambda>(k, t). k \<notin> fst ` set newSet) oldSet)
      @ map (\<lambda>(k, t). ApplyPolicy (pt_Kind t) (pt_NS t) (pt_Name t) ref)
        (filter (\<lambda>(k, t). k \<notin> fst ` set oldSet) newSet))"

definition policy_delete_ops :: "json \<Rightarrow> PolicyGVR \<Rightarrow> index_op list" where
  "policy_delete_ops u gvr =
     map (\<lambda>t. RemovePolicy (pt_Kind t) (pt_NS t) (pt_Name t) (policyRefFromUnstructured u gvr))
       (targetsFromUnstructured (Some u))"

text \<open>A delete handler: what it does with the object or the tombstone's object.\<close>

fun deleted_proc :: "('a \<Rightarrow> proc) \<Rightarrow> 'a deleted \<Rightarrow> proc" where
  "deleted_proc f (Deleted x) = f x"
| "deleted_proc f (Tombstone x) = f x"
| "deleted_proc f OddTombstone = Halt"
| "deleted_proc f Foreign = Halt"

fun handler_proc :: "Config \<Rightarrow> event \<Rightarrow> proc" where
  "handler_proc cfg (HTTPRouteUpsert (Received hr)) =
     route_proc cfg RouteKindHTTPRoute hr (\<lambda>ra. Write (OnIndex (UpsertHTTP ra (backendRefsFromHTTPRoute hr))) Halt)"
| "handler_proc cfg (HTTPRouteUpsert ReceivedForeign) = Halt"
| "handler_proc cfg (HTTPRouteDelete d) =
     deleted_proc (\<lambda>hr. Write (OnIndex (DeleteHTTP (rt_Namespace hr) (rt_Name hr))) Halt) d"
| "handler_proc cfg (GRPCRouteUpsert (Received gr)) =
     route_proc cfg RouteKindGRPCRoute gr (\<lambda>ra. Write (OnIndex (UpsertGRPC ra (backendRefsFromGRPCRoute gr))) Halt)"
| "handler_proc cfg (GRPCRouteUpsert ReceivedForeign) = Halt"
| "handler_proc cfg (GRPCRouteDelete d) =
     deleted_proc (\<lambda>gr. Write (OnIndex (DeleteGRPC (rt_Namespace gr) (rt_Name gr))) Halt) d"
| "handler_proc cfg (GatewayUpsert (Received gw)) = Write (PutGateway gw) Halt"
| "handler_proc cfg (GatewayUpsert ReceivedForeign) = Panic"
| "handler_proc cfg (GatewayDelete (Deleted gw)) = Write (DropGateway (gw_Namespace gw) (gw_Name gw)) Halt"
| "handler_proc cfg (GatewayDelete _) = Halt"
| "handler_proc cfg (GatewayClassUpsert (Received gc)) = Write (PutClass gc) Halt"
| "handler_proc cfg (GatewayClassUpsert ReceivedForeign) = Panic"
| "handler_proc cfg (GatewayClassDelete (Deleted gc)) = Write (DropClass (gc_Name gc)) Halt"
| "handler_proc cfg (GatewayClassDelete _) = Halt"
| "handler_proc cfg (ServiceUpsert (Received svc)) =
     write_all [PutServiceIPs svc, PutWaypoint svc, PutServiceName svc]"
| "handler_proc cfg (ServiceUpsert ReceivedForeign) = Halt"
| "handler_proc cfg (ServiceDelete d) =
     deleted_proc (\<lambda>svc. write_all [DropServiceIPs (svc_Namespace svc) (svc_Name svc),
       DropWaypoint (svc_Namespace svc) (svc_Name svc), DropServiceName (svc_Namespace svc) (svc_Name svc)]) d"
| "handler_proc cfg (EndpointSliceUpsert (Received es)) = Write (PutSlice es) Halt"
| "handler_proc cfg (EndpointSliceUpsert ReceivedForeign) = Halt"
| "handler_proc cfg (EndpointSliceDelete d) =
     deleted_proc (\<lambda>es. Write (DropSlice (es_Namespace es) (es_Name es)) Halt) d"
| "handler_proc cfg (PolicyAdded gvr (Received u)) = write_all (map OnIndex (policy_add_ops u gvr))"
| "handler_proc cfg (PolicyAdded gvr ReceivedForeign) = Halt"
| "handler_proc cfg (PolicyUpdated gvr old (Received newU)) =
     write_all (map OnIndex (policy_update_ops
       (case old of Received oldU \<Rightarrow> Some oldU | ReceivedForeign \<Rightarrow> None) newU gvr))"
| "handler_proc cfg (PolicyUpdated gvr old ReceivedForeign) = Halt"
| "handler_proc cfg (PolicyDeleted gvr d) =
     deleted_proc (\<lambda>u. write_all (map OnIndex (policy_delete_ops u gvr))) d"
| "handler_proc cfg GatewaysSynced = Halt"

section \<open>Configurations\<close>

record conf =
  c_world :: world
  c_informers :: "informer list"
  c_threads :: "informer \<Rightarrow> proc"

text \<open>Which events an informer delivers to its handlers.\<close>

fun delivers :: "informer \<Rightarrow> event \<Rightarrow> bool" where
  "delivers i (HTTPRouteUpsert x) = (case i of HTTPRouteInformer f \<Rightarrow> True | _ \<Rightarrow> False)"
| "delivers i (HTTPRouteDelete x) = (case i of HTTPRouteInformer f \<Rightarrow> True | _ \<Rightarrow> False)"
| "delivers i (GRPCRouteUpsert x) = (case i of GRPCRouteInformer f \<Rightarrow> True | _ \<Rightarrow> False)"
| "delivers i (GRPCRouteDelete x) = (case i of GRPCRouteInformer f \<Rightarrow> True | _ \<Rightarrow> False)"
| "delivers i (GatewayUpsert x) = (case i of GatewayInformer f \<Rightarrow> True | _ \<Rightarrow> False)"
| "delivers i (GatewayDelete x) = (case i of GatewayInformer f \<Rightarrow> True | _ \<Rightarrow> False)"
| "delivers i (GatewayClassUpsert x) = (case i of GatewayClassInformer f \<Rightarrow> True | _ \<Rightarrow> False)"
| "delivers i (GatewayClassDelete x) = (case i of GatewayClassInformer f \<Rightarrow> True | _ \<Rightarrow> False)"
| "delivers i (ServiceUpsert x) = (case i of ServiceInformer f \<Rightarrow> True | _ \<Rightarrow> False)"
| "delivers i (ServiceDelete x) = (case i of ServiceInformer f \<Rightarrow> True | _ \<Rightarrow> False)"
| "delivers i (EndpointSliceUpsert x) = (case i of EndpointSliceInformer f \<Rightarrow> True | _ \<Rightarrow> False)"
| "delivers i (EndpointSliceDelete x) = (case i of EndpointSliceInformer f \<Rightarrow> True | _ \<Rightarrow> False)"
| "delivers i (PolicyAdded gvr x) = (case i of PolicyInformer f gvr' \<Rightarrow> gvr = gvr' | _ \<Rightarrow> False)"
| "delivers i (PolicyUpdated gvr old x) = (case i of PolicyInformer f gvr' \<Rightarrow> gvr = gvr' | _ \<Rightarrow> False)"
| "delivers i (PolicyDeleted gvr x) = (case i of PolicyInformer f gvr' \<Rightarrow> gvr = gvr' | _ \<Rightarrow> False)"
| "delivers i GatewaysSynced = False"

text \<open>A panic in one goroutine ends the process, so no step leaves such a configuration.\<close>

definition alive :: "conf \<Rightarrow> bool" where
  "alive c \<longleftrightarrow> list_all (\<lambda>i. case c_threads c i of Panic \<Rightarrow> False | _ \<Rightarrow> True) (c_informers c)"

inductive cstep :: "Config \<Rightarrow> conf \<Rightarrow> conf \<Rightarrow> bool" for cfg where
  deliver: "\<lbrakk>alive c; i \<in> set (c_informers c); c_threads c i = Halt; delivers i ev\<rbrakk> \<Longrightarrow>
    cstep cfg c (c\<lparr>c_threads := (c_threads c)(i := handler_proc cfg ev)\<rparr>)"
| act: "\<lbrakk>alive c; i \<in> set (c_informers c); c_threads c i \<noteq> Halt; proc_step (c_threads c i) (c_world c) = (p, w)\<rbrakk> \<Longrightarrow>
    cstep cfg c (c\<lparr>c_world := w, c_threads := (c_threads c)(i := p)\<rparr>)"
| sync: "alive c \<Longrightarrow> cstep cfg c (c\<lparr>c_world := (c_world c)\<lparr>w_synced := True\<rparr>\<rparr>)"

inductive creachable :: "Config \<Rightarrow> conf \<Rightarrow> bool" for cfg where
  start: "newInformers k cfg = Inr (infs, w) \<Longrightarrow>
    creachable cfg \<lparr>c_world = w, c_informers = infs, c_threads = (\<lambda>_. Halt)\<rparr>"
| step: "creachable cfg c \<Longrightarrow> cstep cfg c c' \<Longrightarrow> creachable cfg c'"

inductive_cases cstepE: "cstep cfg c c'"

section \<open>A handler run alone\<close>

lemma run_write_all: "proc_run (write_all ws) w = Some (fold write_step ws w)"
  unfolding write_all_def by (induction ws arbitrary: w) simp_all

lemma fold_on_index:
  "fold write_step (map OnIndex ops) w = w\<lparr>w_idx := fold index_step ops (w_idx w)\<rparr>"
  by (induction ops arbitrary: w) simp_all

lemma class_seen_parent:
  "gatewayClassStore_get gcs (gw_GatewayClassName gw) = gco \<Longrightarrow>
   applyGatewayParent ra pr gw (class_seen (gw_GatewayClassName gw) gco) cfg = applyGatewayParent ra pr gw gcs cfg"
  by (simp add: applyGatewayParent_def class_seen_def gatewayClassStore_get_def newGatewayClassStore_def Let_def
      split: option.split)

lemma run_infer:
  "proc_run (infer_proc cfg pr ns kind k) w =
   (let (b, log) = maybeInferServiceParent (inferrer_at cfg w) pr ns kind in
    proc_run (k b) (w\<lparr>w_inferred := w_inferred w @ log\<rparr>))"
  by (simp add: infer_proc_def maybeInferServiceParent_def inferrer_at_def newParentInferrer_def)

lemma run_parent:
  "proc_run (parent_proc cfg ra pr routeNS k) w =
   (let (ra', log) = applyParentRef ra pr routeNS (w_gws w) (w_gcs w) cfg (inferrer_at cfg w) in
    proc_run (k ra') (w\<lparr>w_inferred := w_inferred w @ log\<rparr>))"
  by (simp add: parent_proc_def applyParentRef_def run_infer maybeInfer_eq class_seen_parent Let_def
      split: option.split)

lemma run_route:
  "proc_run (route_proc cfg kind r k) w =
   (let (ra, log) = project_route kind r (w_gws w) (w_gcs w) cfg (inferrer_at cfg w) in
    proc_run (k ra) (w\<lparr>w_inferred := w_inferred w @ log\<rparr>))"
  by (simp add: route_proc_def project_route_def run_parent Let_def case_prod_beta split: list.split)

lemma policy_ops_run:
  "fold index_step (policy_add_ops u gvr) r = policyAdd (Some u) gvr r"
  "fold index_step (policy_update_ops oldU newU gvr) r = policyUpdate oldU newU gvr r"
  "fold index_step (policy_delete_ops u gvr) r = policyDelete u gvr r"
proof -
  have fold_filter: "fold index_step (map (\<lambda>(k, t). op t) (filter (\<lambda>(k, t). \<not> P k) kts)) r =
      fold (\<lambda>(k, t) r. if P k then r else index_step (op t) r) kts r" for op P kts r
    by (induction kts arbitrary: r) auto
  have step: "index_step (ApplyPolicy kind ns name p) = (\<lambda>r. applyPolicy r kind ns name p)"
      "index_step (RemovePolicy kind ns name p) = (\<lambda>r. removePolicy r kind ns name p)" for kind ns name p
    by (simp_all add: fun_eq_iff)
  show "fold index_step (policy_add_ops u gvr) r = policyAdd (Some u) gvr r"
    by (simp add: policy_add_ops_def policyAdd_def fold_map comp_def step)
  show "fold index_step (policy_delete_ops u gvr) r = policyDelete u gvr r"
    by (simp add: policy_delete_ops_def policyDelete_def fold_map comp_def step)
  show "fold index_step (policy_update_ops oldU newU gvr) r = policyUpdate oldU newU gvr r"
    by (simp add: policy_update_ops_def policyUpdate_def fold_filter step Let_def cong: if_cong)
qed

lemma swap_idx_inferred: "w\<lparr>w_inferred := x, w_idx := y\<rparr> = w\<lparr>w_idx := y, w_inferred := x\<rparr>"
  by simp

lemma run_deleted:
  "proc_run (deleted_proc f d) w =
   (case d of Deleted x \<Rightarrow> proc_run (f x) w | Tombstone x \<Rightarrow> proc_run (f x) w | _ \<Rightarrow> Some w)"
  by (cases d) simp_all

lemma run_handler:
  assumes "ev \<noteq> GatewaysSynced"
  shows "proc_run (handler_proc cfg ev) w = handle cfg ev w"
  using assms
  by (cases "(cfg, ev)" rule: handler_proc.cases)
    (simp_all add: run_route run_write_all fold_on_index policy_ops_run upsert_http_def upsert_grpc_def
      httpRouteToAttrs_eq grpcRouteToAttrs_eq case_prod_beta swap_idx_inferred service_upsert_def
      run_deleted service_del_def split: deleted.split)

section \<open>What holds in every configuration\<close>

text \<open>What may still be written: index operations of the right kind, with projected attributes,
  and inferences only with the sync read as done. \<open>synced\<close> is whether the Gateway informers have
  synced so far; an answer of \<open>CheckSynced\<close> may come later.\<close>

fun write_ok :: "Config \<Rightarrow> bool \<Rightarrow> store_op \<Rightarrow> bool" where
  "write_ok cfg synced (OnIndex op) =
     (op_ok op \<and> (case op of UpsertHTTP ra refs \<Rightarrow> route_ok ra | UpsertGRPC ra refs \<Rightarrow> route_ok ra | _ \<Rightarrow> True))"
| "write_ok cfg synced (RecordInference x) = (synced \<and> InferServiceParentEnabled (Mesh cfg))"
| "write_ok cfg synced _ = True"

primrec proc_ok :: "Config \<Rightarrow> proc \<Rightarrow> bool \<Rightarrow> bool" where
  "proc_ok cfg Halt synced = True"
| "proc_ok cfg Panic synced = True"
| "proc_ok cfg (GetGateway ns name k) synced = (\<forall>x. proc_ok cfg (k x) synced)"
| "proc_ok cfg (GetClass name k) synced = (\<forall>x. proc_ok cfg (k x) synced)"
| "proc_ok cfg (CheckSynced k) synced = (\<forall>b. proc_ok cfg (k b) (synced \<or> b))"
| "proc_ok cfg (CheckService ns name k) synced = (\<forall>x. proc_ok cfg (k x) synced)"
| "proc_ok cfg (Write a p) synced = (write_ok cfg synced a \<and> proc_ok cfg p synced)"

lemma write_ok_mono: "write_ok cfg False a \<Longrightarrow> write_ok cfg synced a"
  by (cases a) simp_all

lemma proc_ok_mono: "proc_ok cfg p False \<Longrightarrow> proc_ok cfg p synced"
proof (induction p)
  case (CheckSynced k)
  have "proc_ok cfg (k b) (synced \<or> b)" for b
    using CheckSynced.prems CheckSynced.IH [of "k b"] by (cases b) (auto dest: spec [of _ b])
  then show ?case by simp
qed (auto simp: write_ok_mono)

lemma proc_ok_step:
  assumes "proc_ok cfg p (w_synced w)" "proc_step p w = (p', w')"
  shows "proc_ok cfg p' (w_synced w)"
proof (cases p)
  case (CheckSynced k)
  with assms have "proc_ok cfg (k b) (w_synced w \<or> b)" for b by simp
  from this [of "w_synced w"] show ?thesis using assms(2) CheckSynced by auto
qed (use assms in auto)

lemma proc_ok_infer:
  "(\<And>b synced'. (synced \<longrightarrow> synced') \<Longrightarrow> proc_ok cfg (k b) synced') \<Longrightarrow> proc_ok cfg (infer_proc cfg pr ns kind k) synced"
  by (simp add: infer_proc_def)

lemma proc_ok_parent:
  assumes "\<And>ra' synced'. ra_Kind ra' = ra_Kind ra \<Longrightarrow> ra_RouteMode ra' \<in> {ra_RouteMode ra, RouteModeMesh} \<Longrightarrow>
      ra_Policies ra' = ra_Policies ra \<Longrightarrow> proc_ok cfg (k ra') synced'"
  shows "proc_ok cfg (parent_proc cfg ra pr routeNS k) synced"
  by (auto simp: parent_proc_def Let_def intro!: assms proc_ok_infer split: option.split)

lemma proc_ok_route:
  assumes "\<And>ra synced'. ra_Kind ra = kind \<Longrightarrow> route_ok ra \<Longrightarrow> proc_ok cfg (k ra) synced'"
  shows "proc_ok cfg (route_proc cfg kind r k) synced"
  by (auto simp: route_proc_def route_ok_def zero_route_def Let_def intro!: assms proc_ok_parent split: list.split)

lemma proc_ok_write_all: "list_all (write_ok cfg synced) ws \<Longrightarrow> proc_ok cfg (write_all ws) synced"
  unfolding write_all_def by (induction ws) simp_all

lemma policy_ops_ok:
  "list_all (write_ok cfg synced) (map OnIndex (policy_add_ops u gvr))"
  "list_all (write_ok cfg synced) (map OnIndex (policy_update_ops oldU newU gvr))"
  "list_all (write_ok cfg synced) (map OnIndex (policy_delete_ops u gvr))"
  by (auto simp: policy_add_ops_def policy_update_ops_def policy_delete_ops_def list_all_iff Let_def)

lemma proc_ok_deleted: "(\<And>x. proc_ok cfg (f x) synced) \<Longrightarrow> proc_ok cfg (deleted_proc f d) synced"
  by (cases d) simp_all

lemma proc_ok_handler: "proc_ok cfg (handler_proc cfg ev) synced"
  by (cases "(cfg, ev)" rule: handler_proc.cases)
    (auto intro!: proc_ok_route proc_ok_deleted proc_ok_write_all policy_ops_ok)

text \<open>The histories a world has behind it, one per index and store, and the write that extends them.\<close>

record history =
  h_idx :: "index_op list"
  h_gws :: "gateway_event list"
  h_gcs :: "class_event list"
  h_ips :: "service_event list"
  h_wps :: "service_event list"
  h_names :: "service_event list"
  h_pods :: "slice_event list"

definition histories :: "world \<Rightarrow> history \<Rightarrow> bool" where
  "histories w h \<longleftrightarrow>
     list_all op_ok (h_idx h) \<and> w_idx w = index_run (h_idx h) \<and>
     w_gws w = gateway_run (h_gws h) \<and> w_gcs w = class_run (h_gcs h) \<and>
     w_ips w \<in> {None, Some (service_ip_run (h_ips h))} \<and> w_wps w \<in> {None, Some (waypoint_run (h_wps h))} \<and>
     w_names w \<in> {None, Some (service_name_run (h_names h))} \<and> w_pods w \<in> {None, Some (slice_run (h_pods h))}"

fun log_write :: "store_op \<Rightarrow> history \<Rightarrow> history" where
  "log_write (OnIndex op) h = h\<lparr>h_idx := h_idx h @ [op]\<rparr>"
| "log_write (PutGateway gw) h = h\<lparr>h_gws := h_gws h @ [SUpsert gw]\<rparr>"
| "log_write (DropGateway ns name) h = h\<lparr>h_gws := h_gws h @ [SDelete (ns, name)]\<rparr>"
| "log_write (PutClass gc) h = h\<lparr>h_gcs := h_gcs h @ [SUpsert gc]\<rparr>"
| "log_write (DropClass name) h = h\<lparr>h_gcs := h_gcs h @ [SDelete name]\<rparr>"
| "log_write (PutServiceIPs svc) h = h\<lparr>h_ips := h_ips h @ [SUpsert svc]\<rparr>"
| "log_write (DropServiceIPs ns name) h = h\<lparr>h_ips := h_ips h @ [SDelete (ns, name)]\<rparr>"
| "log_write (PutWaypoint svc) h = h\<lparr>h_wps := h_wps h @ [SUpsert svc]\<rparr>"
| "log_write (DropWaypoint ns name) h = h\<lparr>h_wps := h_wps h @ [SDelete (ns, name)]\<rparr>"
| "log_write (PutServiceName svc) h = h\<lparr>h_names := h_names h @ [SUpsert svc]\<rparr>"
| "log_write (DropServiceName ns name) h = h\<lparr>h_names := h_names h @ [SDelete (ns, name)]\<rparr>"
| "log_write (PutSlice es) h = h\<lparr>h_pods := h_pods h @ [SUpsert es]\<rparr>"
| "log_write (DropSlice ns name) h = h\<lparr>h_pods := h_pods h @ [SDelete (ns, name)]\<rparr>"
| "log_write (RecordInference x) h = h"

lemmas run_snoc_defs = index_run_def gateway_run_def class_run_def service_ip_run_def waypoint_run_def
  service_name_run_def slice_run_def

lemma histories_write:
  "histories w h \<Longrightarrow> write_ok cfg synced a \<Longrightarrow> histories (write_step a w) (log_write a h)"
  by (cases a) (auto simp: histories_def run_snoc_defs)

lemma world_inv_write:
  assumes "world_inv cfg w" "write_ok cfg (w_synced w) a"
  shows "world_inv cfg (write_step a w)"
proof (cases a)
  case (OnIndex op)
  with assms idx_inv_step [of "w_idx w" op] show ?thesis
    by (cases op) (auto simp: world_inv_def features_ok_def applyPolicy_def removePolicy_def Let_def
        split: option.splits if_splits)
qed (use assms in \<open>auto simp: world_inv_def features_ok_def option.pred_map comp_def claim_inv_ops
      elim!: option.pred_mono_strong\<close>)

definition conf_inv :: "Config \<Rightarrow> conf \<Rightarrow> bool" where
  "conf_inv cfg c \<longleftrightarrow>
     world_inv cfg (c_world c) \<and> (\<exists>h. histories (c_world c) h) \<and>
     (\<forall>i. proc_ok cfg (c_threads c i) (w_synced (c_world c)))"

lemma conf_inv_start:
  assumes "newInformers k cfg = Inr (infs, w)"
  shows "conf_inv cfg \<lparr>c_world = w, c_informers = infs, c_threads = (\<lambda>_. Halt)\<rparr>"
proof -
  obtain cs where core: "start_core k cfg = Inr (cs, w)"
    using assms by (auto simp: newInformers_def Let_def split: option.splits sum.splits prod.splits if_splits)
  then have "histories w \<lparr>h_idx = [], h_gws = [], h_gcs = [], h_ips = [], h_wps = [], h_names = [], h_pods = []\<rparr>"
    by (auto simp: start_core_def histories_def fresh_world_def startServiceInformer_def
        startEndpointSliceInformer_def run_snoc_defs Let_def split: option.splits if_splits)
  then show ?thesis using world_inv_start [OF assms] by (auto simp: conf_inv_def)
qed

lemma histories_synced: "histories (w\<lparr>w_synced := b\<rparr>) = histories w"
  by (simp add: histories_def fun_eq_iff)

lemma conf_inv_step:
  assumes inv: "conf_inv cfg c" and step: "cstep cfg c c'"
  shows "conf_inv cfg c'"
  using step
proof (cases rule: cstep.cases)
  case (deliver i ev)
  then show ?thesis using inv by (simp add: conf_inv_def proc_ok_handler)
next
  case (act i p w)
  let ?w = "c_world c"
  have ok: "proc_ok cfg (c_threads c i) (w_synced ?w)" using inv by (simp add: conf_inv_def)
  then have p: "proc_ok cfg p (w_synced ?w)" using proc_ok_step act by blast
  consider "w = ?w" | a where "c_threads c i = Write a p" "w = write_step a ?w"
    using act by (cases "c_threads c i") auto
  then show ?thesis
  proof cases
    case 1
    with inv p act show ?thesis by (simp add: conf_inv_def)
  next
    case 2
    have "w_synced w = w_synced ?w" using 2(2) by (cases a) simp_all
    with inv ok p act 2 histories_write world_inv_write show ?thesis
      unfolding conf_inv_def by simp blast
  qed
next
  case sync
  then show ?thesis
    using inv world_inv_stores(3) proc_ok_mono
    by (auto simp: conf_inv_def histories_synced) (metis (full_types))
qed

lemma creachable_inv: "creachable cfg c \<Longrightarrow> conf_inv cfg c"
  by (induction rule: creachable.induct) (auto intro: conf_inv_start conf_inv_step)

section \<open>Handlers take effect and end\<close>

text \<open>The configuration in which one goroutine has come to \<open>p\<close> in the world \<open>w\<close>.\<close>

definition conf_at :: "conf \<Rightarrow> informer \<Rightarrow> proc \<Rightarrow> world \<Rightarrow> conf" where
  "conf_at c i p w = c\<lparr>c_world := w, c_threads := (c_threads c)(i := p)\<rparr>"

lemma conf_at_step:
  assumes "alive c" "i \<in> set (c_informers c)" "p \<noteq> Halt" "p \<noteq> Panic" "proc_step p w = (p', w')"
  shows "cstep cfg (conf_at c i p w) (conf_at c i p' w')"
proof -
  have "alive (conf_at c i p w)"
    using assms(1,4) by (cases p) (auto simp: alive_def conf_at_def list_all_iff)
  from cstep.act [OF this, of i p' w' cfg] show ?thesis using assms by (simp add: conf_at_def)
qed

lemma conf_at_halt: "c_threads c i = Halt \<Longrightarrow> conf_at c i Halt w = c\<lparr>c_world := w\<rparr>"
  by (simp add: conf_at_def fun_upd_idem)

lemma deliver_at:
  assumes "alive c" "i \<in> set (c_informers c)" "c_threads c i = Halt" "delivers i ev"
  shows "cstep cfg c (conf_at c i (handler_proc cfg ev) (c_world c))"
  using cstep.deliver [OF assms] by (simp add: conf_at_def)

definition runs_out :: "Config \<Rightarrow> conf \<Rightarrow> informer \<Rightarrow> proc \<Rightarrow> world \<Rightarrow> bool" where
  "runs_out cfg c i p w \<longleftrightarrow>
     (case proc_run p w of
        Some w' \<Rightarrow> (cstep cfg)\<^sup>*\<^sup>* (conf_at c i p w) (conf_at c i Halt w')
      | None \<Rightarrow> \<exists>w'. (cstep cfg)\<^sup>*\<^sup>* (conf_at c i p w) (conf_at c i Panic w'))"

lemma runs_out_step:
  assumes "alive c" "i \<in> set (c_informers c)" "p \<noteq> Halt" "p \<noteq> Panic" "proc_step p w = (p', w')"
    and "runs_out cfg c i p' w'"
  shows "runs_out cfg c i p w"
proof -
  have "proc_run p w = proc_run p' w'" using assms(3-5) by (cases p) auto
  with assms(6) conf_at_step [OF assms(1-5), of cfg] show ?thesis
    unfolding runs_out_def
    by (auto intro: converse_rtranclp_into_rtranclp split: option.splits)
qed

lemma conf_at_run:
  assumes "alive c" "i \<in> set (c_informers c)"
  shows "runs_out cfg c i p w"
proof (induction p arbitrary: w)
  case Halt
  then show ?case by (simp add: runs_out_def)
next
  case Panic
  then show ?case by (auto simp: runs_out_def)
qed (rule runs_out_step [OF assms]; auto)+

lemma creachable_steps: "(cstep cfg)\<^sup>*\<^sup>* c c' \<Longrightarrow> creachable cfg c \<Longrightarrow> creachable cfg c'"
  by (induction rule: rtranclp_induct) (auto intro: creachable.step)

text \<open>Handling one event after the other is one of the interleavings.\<close>

lemma creachable_handle:
  assumes "creachable cfg c" "alive c" "i \<in> set (c_informers c)" "c_threads c i = Halt" "delivers i ev"
    and "handle cfg ev (c_world c) = Some w'"
  shows "creachable cfg (c\<lparr>c_world := w'\<rparr>)"
proof -
  have "ev \<noteq> GatewaysSynced" using assms(5) by auto
  then have "proc_run (handler_proc cfg ev) (c_world c) = Some w'" using run_handler assms(6) by simp
  then have "(cstep cfg)\<^sup>*\<^sup>* (conf_at c i (handler_proc cfg ev) (c_world c)) (c\<lparr>c_world := w'\<rparr>)"
    using conf_at_run [OF assms(2,3), of cfg "handler_proc cfg ev" "c_world c"] conf_at_halt [OF assms(4)]
    by (simp add: runs_out_def)
  then show ?thesis
    using deliver_at [OF assms(2-5)] assms(1) creachable_steps creachable.step by blast
qed

text \<open>What is left of a handler after it performed one action in each of the given worlds; between
  two of its actions the other goroutines may do anything.\<close>

definition proc_after :: "proc \<Rightarrow> world list \<Rightarrow> proc" where
  "proc_after p ws = foldl (\<lambda>p w. fst (proc_step p w)) p ws"

text \<open>An upper bound of the number of actions, and that a process returns within a bound.\<close>

fun handler_bound :: "event \<Rightarrow> nat" where
  "handler_bound (HTTPRouteUpsert x) = 5"
| "handler_bound (GRPCRouteUpsert x) = 5"
| "handler_bound (ServiceUpsert x) = 3"
| "handler_bound (ServiceDelete d) = 3"
| "handler_bound (PolicyAdded gvr (Received u)) = length (targetsFromUnstructured (Some u))"
| "handler_bound (PolicyUpdated gvr old (Received u)) =
     (case old of Received oldU \<Rightarrow> length (targetsFromUnstructured (Some oldU)) | ReceivedForeign \<Rightarrow> 0)
     + length (targetsFromUnstructured (Some u))"
| "handler_bound (PolicyDeleted gvr (Deleted u)) = length (targetsFromUnstructured (Some u))"
| "handler_bound (PolicyDeleted gvr (Tombstone u)) = length (targetsFromUnstructured (Some u))"
| "handler_bound _ = 1"

primrec within :: "proc \<Rightarrow> nat \<Rightarrow> bool" where
  "within Halt n = True"
| "within Panic n = False"
| "within (GetGateway ns name k) n = (0 < n \<and> (\<forall>x. within (k x) (n - 1)))"
| "within (GetClass name k) n = (0 < n \<and> (\<forall>x. within (k x) (n - 1)))"
| "within (CheckSynced k) n = (0 < n \<and> (\<forall>x. within (k x) (n - 1)))"
| "within (CheckService ns name k) n = (0 < n \<and> (\<forall>x. within (k x) (n - 1)))"
| "within (Write a p) n = (0 < n \<and> within p (n - 1))"

lemma within_mono: "within p n \<Longrightarrow> n \<le> m \<Longrightarrow> within p m"
  by (induction p arbitrary: n m) (auto, (meson diff_le_mono rangeI)+)

lemma within_step: "within p n \<Longrightarrow> within (fst (proc_step p w)) (n - 1)"
  by (cases p) auto

lemma within_after:
  "within p (length ws) \<Longrightarrow> proc_after p ws = Halt"
proof (induction ws arbitrary: p)
  case Nil
  then show ?case by (cases p) (auto simp: proc_after_def)
next
  case (Cons w ws)
  from within_step [OF Cons.prems, of w] Cons.IH show ?case by (simp add: proc_after_def)
qed

lemma within_infer: "(\<And>b. within (k b) n) \<Longrightarrow> within (infer_proc cfg pr ns kind k) (n + 3)"
  by (auto simp: infer_proc_def intro: within_mono [of _ n])

lemma within_parent: "(\<And>ra. within (k ra) n) \<Longrightarrow> within (parent_proc cfg ra pr ns k) (n + 4)"
  using within_infer [of _ n]
  by (auto simp: parent_proc_def Let_def add.commute [of n] eval_nat_numeral intro: within_mono [of _ n] split: option.split)

lemma within_route: "(\<And>ra. within (k ra) n) \<Longrightarrow> within (route_proc cfg kind r k) (n + 4)"
  by (auto simp: route_proc_def Let_def intro: within_parent within_mono [of _ n] split: list.split)

lemma within_write_all: "within (write_all ws) (length ws)"
  unfolding write_all_def by (induction ws) simp_all

lemma targetSet_length: "length (targetSet ts) \<le> length ts"
proof -
  have upd: "length (AList.update k v m) \<le> Suc (length m)" for k v and m :: "(string \<times> policyTarget) list"
    by (induction m) auto
  have "length (fold (\<lambda>t m. AList.update (target_key t) t m) ts m) \<le> length ts + length m" for m
    by (induction ts arbitrary: m) (auto, metis (no_types, lifting) upd add_Suc_right add_le_mono le_refl le_trans)
  from this [of "[]"] show ?thesis by (simp add: targetSet_def)
qed

lemma policy_ops_length:
  "length (policy_add_ops u gvr) \<le> length (targetsFromUnstructured (Some u))"
  "length (policy_delete_ops u gvr) = length (targetsFromUnstructured (Some u))"
  "length (policy_update_ops oldU newU gvr) \<le>
     (if oldU = None then 0 else length (targetsFromUnstructured oldU)) + length (targetsFromUnstructured (Some newU))"
proof -
  have none: "\<not> policyAccepted None" by (simp add: policyAccepted_def)
  have "length (targetSet (if policyAccepted oldU then targetsFromUnstructured oldU else []))
      \<le> (if oldU = None then 0 else length (targetsFromUnstructured oldU))"
    using targetSet_length [of "targetsFromUnstructured oldU"] none by (auto simp: targetSet_def)
  moreover have "length (targetSet (if policyAccepted (Some newU) then targetsFromUnstructured (Some newU) else []))
      \<le> length (targetsFromUnstructured (Some newU))"
    using targetSet_length [of "targetsFromUnstructured (Some newU)"] by (auto simp: targetSet_def)
  ultimately show "length (policy_update_ops oldU newU gvr) \<le>
     (if oldU = None then 0 else length (targetsFromUnstructured oldU)) + length (targetsFromUnstructured (Some newU))"
    unfolding policy_update_ops_def Let_def length_append length_map
    by (intro add_le_mono) (rule le_trans [OF length_filter_le], assumption)+
qed (simp_all add: policy_add_ops_def policy_delete_ops_def)

lemma within_handler:
  assumes "handle cfg ev w \<noteq> None"
  shows "within (handler_proc cfg ev) (handler_bound ev)"
proof -
  have route: "within (route_proc cfg kind r (\<lambda>ra. Write (a ra) Halt)) 5" for kind r a
    using within_route [of "\<lambda>ra. Write (a ra) Halt" 1] by simp
  have ops: "within (write_all (map OnIndex ops)) n" if "length ops \<le> n" for ops n
    using within_mono [OF within_write_all] that by simp
  have svc: "within (write_all [a, b, c]) 3" for a b c
    by (simp add: write_all_def)
  have del: "within (deleted_proc f d) n" if "\<And>x. within (f x) n" for f n and d :: "'a deleted"
    using that by (cases d) simp_all
  show ?thesis
    using assms
  proof (cases "(cfg, ev)" rule: handler_proc.cases)
    case (23 cfg' gvr old newU)
    then show ?thesis
      using policy_ops_length(3) [of "case old of Received oldU \<Rightarrow> Some oldU | ReceivedForeign \<Rightarrow> None" newU gvr]
      by (cases old) (auto intro!: ops)
  next
    case (25 cfg' gvr d)
    then show ?thesis by (cases d) (auto intro!: ops simp: policy_ops_length)
  qed (auto intro!: route ops svc del policy_ops_length)
qed

section \<open>Handlers while the stores are stable\<close>

text \<open>The writes a handler performs when each of its actions finds the given world, and those it
  performs when every read is answered from one world.\<close>

fun proc_writes :: "proc \<Rightarrow> world list \<Rightarrow> store_op list" where
  "proc_writes p [] = []"
| "proc_writes p (w # ws) =
     (case p of Write a q \<Rightarrow> [a] | _ \<Rightarrow> []) @ proc_writes (fst (proc_step p w)) ws"

primrec writes_at :: "proc \<Rightarrow> world \<Rightarrow> store_op list" where
  "writes_at Halt w = []"
| "writes_at Panic w = []"
| "writes_at (GetGateway ns name k) w = writes_at (k (gatewayStore_get (w_gws w) ns name)) w"
| "writes_at (GetClass name k) w = writes_at (k (gatewayClassStore_get (w_gcs w) name)) w"
| "writes_at (CheckSynced k) w = writes_at (k (w_synced w)) w"
| "writes_at (CheckService ns name k) w = writes_at (k (serviceNameIndex_Exists (w_names w) ns name)) w"
| "writes_at (Write a p) w = a # writes_at p w"

lemma writes_same_stores: "same_stores w w' \<Longrightarrow> writes_at p w' = writes_at p w"
  by (induction p) (simp_all add: same_stores_def)

lemma writes_at_step:
  "writes_at p w = (case p of Write a q \<Rightarrow> [a] | _ \<Rightarrow> []) @ writes_at (fst (proc_step p w)) w"
  by (cases p) simp_all

lemma proc_writes_stable:
  assumes "within p (length ws)" "\<forall>w' \<in> set ws. same_stores w w'"
  shows "proc_writes p ws = writes_at p w"
  using assms
proof (induction ws arbitrary: p)
  case Nil
  then show ?case by (cases p) auto
next
  case (Cons w' ws)
  have stores: "same_stores w w'" using Cons.prems(2) by simp
  have "proc_writes (fst (proc_step p w')) ws = writes_at (fst (proc_step p w')) w"
    using Cons.IH within_step [OF Cons.prems(1), of w'] Cons.prems(2) by simp
  also have "\<dots> = writes_at (fst (proc_step p w')) w'" using writes_same_stores [OF stores] by simp
  finally show ?case using writes_at_step [of p w'] writes_same_stores [OF stores] by simp
qed

text \<open>The handlers read before they write.\<close>

primrec only_writes :: "proc \<Rightarrow> bool" where
  "only_writes Halt = True"
| "only_writes Panic = False"
| "only_writes (GetGateway ns name k) = False"
| "only_writes (GetClass name k) = False"
| "only_writes (CheckSynced k) = False"
| "only_writes (CheckService ns name k) = False"
| "only_writes (Write a p) = only_writes p"

primrec reads_first :: "proc \<Rightarrow> bool" where
  "reads_first Halt = True"
| "reads_first Panic = False"
| "reads_first (GetGateway ns name k) = (\<forall>x. reads_first (k x))"
| "reads_first (GetClass name k) = (\<forall>x. reads_first (k x))"
| "reads_first (CheckSynced k) = (\<forall>x. reads_first (k x))"
| "reads_first (CheckService ns name k) = (\<forall>x. reads_first (k x))"
| "reads_first (Write a p) = only_writes p"

lemma only_writes_first: "only_writes p \<Longrightarrow> reads_first p"
  by (cases p) simp_all

lemma run_only_writes: "only_writes p \<Longrightarrow> proc_run p w = Some (fold write_step (writes_at p w') w)"
  by (induction p arbitrary: w) simp_all

lemma run_reads_first: "reads_first p \<Longrightarrow> proc_run p w = Some (fold write_step (writes_at p w) w)"
  by (induction p) (simp_all add: run_only_writes [of _ "write_step _ w" w])

lemma only_writes_all: "only_writes (write_all ws)"
  unfolding write_all_def by (induction ws) simp_all

lemma reads_first_route: "(\<And>ra. only_writes (k ra)) \<Longrightarrow> reads_first (route_proc cfg kind r k)"
  by (simp add: route_proc_def parent_proc_def infer_proc_def Let_def only_writes_first split: list.split option.split)

lemma reads_first_deleted: "(\<And>x. only_writes (f x)) \<Longrightarrow> reads_first (deleted_proc f d)"
  by (cases d) (simp_all add: only_writes_first)

lemma reads_first_handler: "handle cfg ev w \<noteq> None \<Longrightarrow> reads_first (handler_proc cfg ev)"
  by (cases "(cfg, ev)" rule: handler_proc.cases)
    (auto intro!: reads_first_route reads_first_deleted only_writes_first [OF only_writes_all] only_writes_all)

section \<open>Properties\<close>

text \<open>The start of the example cluster, every goroutine idle.\<close>

definition example_conf :: conf where
  "example_conf = \<lparr>c_world = example_world,
     c_informers = [HTTPRouteInformer None, GRPCRouteInformer None, GatewayInformer None, GatewayClassInformer None,
       ServiceInformer None, EndpointSliceInformer None],
     c_threads = (\<lambda>_. Halt)\<rparr>"

lemma example_conf_reachable: "creachable createDefaultConfig example_conf"
  unfolding example_conf_def by (rule creachable.start [OF example_start])

text \<open>Claim C6. The locks suffice: in every interleaving of the informer goroutines, action by action,
  the route index, the stores of Gateways and GatewayClasses, the two address indexes, the waypoint
  index and the Service names are each in a state that some sequence of their own operations leads to,
  so what is proved of such sequences holds under concurrency; each of the optional indexes exists
  exactly when its feature is on; the five maps of the route index agree, every indexed route is
  ingress or mesh, and an inference is recorded only once the Gateway informers have synced and with
  the feature on.\<close>

theorem interleavings_keep_invariants:
  assumes "creachable cfg c"
  shows "(\<exists>ops. list_all op_ok ops \<and> w_idx (c_world c) = index_run ops)
    \<and> (\<exists>evs. w_gws (c_world c) = gateway_run evs)
    \<and> (\<exists>evs. w_gcs (c_world c) = class_run evs)
    \<and> (\<exists>evs. w_ips (c_world c) = (if bf_Enabled (cfg_Fallback cfg) then Some (service_ip_run evs) else None))
    \<and> (\<exists>evs. w_wps (c_world c) = (if WaypointEnabled (Mesh cfg) then Some (waypoint_run evs) else None))
    \<and> (\<exists>evs. w_names (c_world c) =
         (if InferServiceParentEnabled (Mesh cfg) then Some (service_name_run evs) else None))
    \<and> (\<exists>evs. w_pods (c_world c) =
         (if bf_Enabled (cfg_Fallback cfg) \<and> PodIPEnabled (cfg_Fallback cfg) then Some (slice_run evs) else None))
    \<and> idx_inv (w_idx (c_world c))
    \<and> (\<forall>k ra. routes (w_idx (c_world c)) k = Some ra \<longrightarrow> ra_RouteMode ra \<in> {RouteModeIngress, RouteModeMesh})
    \<and> (w_inferred (c_world c) \<noteq> [] \<longrightarrow> w_synced (c_world c) \<and> InferServiceParentEnabled (Mesh cfg))"
proof -
  let ?w = "c_world c"
  have inv: "world_inv cfg ?w" using creachable_inv [OF assms] by (simp add: conf_inv_def)
  obtain h where h: "histories ?w h" using creachable_inv [OF assms] by (auto simp: conf_inv_def)
  note feats = inv [unfolded world_inv_def features_ok_def]
  have optional: "\<exists>evs. x = (if b then Some (run evs) else None)"
    if "x = None \<or> x = Some (run evs)" "x \<noteq> None \<longleftrightarrow> b" for x b evs and run :: "'a \<Rightarrow> 'b"
    using that by auto
  have sides: "w_ips ?w = None \<or> w_ips ?w = Some (service_ip_run (h_ips h))"
    "w_wps ?w = None \<or> w_wps ?w = Some (waypoint_run (h_wps h))"
    "w_names ?w = None \<or> w_names ?w = Some (service_name_run (h_names h))"
    "w_pods ?w = None \<or> w_pods ?w = Some (slice_run (h_pods h))"
    using h by (simp_all add: histories_def)
  have "\<exists>evs. w_ips ?w = (if bf_Enabled (cfg_Fallback cfg) then Some (service_ip_run evs) else None)"
    using feats by (intro optional [of _ service_ip_run "h_ips h"] sides) blast
  moreover have "\<exists>evs. w_wps ?w = (if WaypointEnabled (Mesh cfg) then Some (waypoint_run evs) else None)"
    using feats by (intro optional [of _ waypoint_run "h_wps h"] sides) blast
  moreover have "\<exists>evs. w_names ?w = (if InferServiceParentEnabled (Mesh cfg) then Some (service_name_run evs) else None)"
    using feats by (intro optional [of _ service_name_run "h_names h"] sides) blast
  moreover have "\<exists>evs. w_pods ?w =
       (if bf_Enabled (cfg_Fallback cfg) \<and> PodIPEnabled (cfg_Fallback cfg) then Some (slice_run evs) else None)"
    using feats by (intro optional [of _ slice_run "h_pods h"] sides) blast
  moreover have "\<exists>ops. list_all op_ok ops \<and> w_idx ?w = index_run ops" "\<exists>evs. w_gws ?w = gateway_run evs"
    "\<exists>evs. w_gcs ?w = class_run evs"
    using h unfolding histories_def by blast+
  moreover have "idx_inv (w_idx ?w)"
    "\<forall>k ra. routes (w_idx ?w) k = Some ra \<longrightarrow> ra_RouteMode ra \<in> {RouteModeIngress, RouteModeMesh}"
    "w_inferred ?w \<noteq> [] \<longrightarrow> w_synced ?w \<and> InferServiceParentEnabled (Mesh cfg)"
    using inv by (simp_all add: world_inv_def route_ok_def)
  ultimately show ?thesis by (intro conjI)
qed

text \<open>The example cluster after the events of a Service with a waypoint label.\<close>

definition waypoint_service :: Service where
  "waypoint_service = cart_service\<lparr>svc_Labels := [labelUseWaypoint \<mapsto> ''wp'']\<rparr>"

definition service_conf :: conf where
  "service_conf = example_conf\<lparr>c_world := service_upsert waypoint_service example_world\<rparr>"

lemma service_conf_reachable: "creachable createDefaultConfig service_conf"
  unfolding service_conf_def
  by (rule creachable_handle [OF example_conf_reachable, of "ServiceInformer None" "ServiceUpsert (Received waypoint_service)"])
    (simp_all add: example_conf_def alive_def)

lemma interleavings_keep_invariants_witness:
  "\<exists>evs w. w_wps (c_world service_conf) = Some (waypoint_run evs) \<and> w_wps (c_world service_conf) = Some w \<and>
     waypointIndex_LookupWaypointForService w ''shop'' ''cart'' = Some (''istio-ambient'', ''wp'', ''shop'')"
proof -
  have "\<exists>w. w_wps (c_world service_conf) = Some w \<and>
     waypointIndex_LookupWaypointForService w ''shop'' ''cart'' = Some (''istio-ambient'', ''wp'', ''shop'')"
    by (simp add: service_conf_def service_upsert_def example_world_def fresh_world_def waypoint_service_def
        cart_service_def waypointIndex_upsertService_def waypointIndex_LookupWaypointForService_def label_def
        labelUseWaypoint_def labelUseWaypointNS_def useWaypointDisabled_def WaypointImplIstioAmbient_def Let_def)
  moreover have "WaypointEnabled (Mesh createDefaultConfig)"
    by (simp add: createDefaultConfig_def WaypointEnabled_def)
  ultimately show ?thesis
    using interleavings_keep_invariants [OF service_conf_reachable] by auto
qed

text \<open>The actions of a handler are those of the sequential handler of theory Informers, when nothing
  interrupts it: from a
  configuration with an idle informer, delivering an event to it and letting its goroutine run leads
  to the world the sequential handler computes, with the goroutine idle again, and to a panic
  exactly where the sequential handler panics.\<close>

lemma handler_run_refines:
  assumes "alive c" and "i \<in> set (c_informers c)" and "c_threads c i = Halt" and "delivers i ev"
  shows "case handle cfg ev (c_world c) of
      Some w' \<Rightarrow> (cstep cfg)\<^sup>*\<^sup>* c (c\<lparr>c_world := w'\<rparr>)
    | None \<Rightarrow> \<exists>c'. (cstep cfg)\<^sup>*\<^sup>* c c' \<and> c_threads c' i = Panic \<and> \<not> alive c'"
proof -
  let ?p = "handler_proc cfg ev"
  have start: "cstep cfg c (conf_at c i ?p (c_world c))" using assms by (rule deliver_at)
  note halt = conf_at_halt [OF assms(3)]
  have dead: "\<not> alive (conf_at c i Panic w')" for w'
    using assms(2) by (auto simp: alive_def conf_at_def list_all_iff)
  have "proc_run ?p (c_world c) = handle cfg ev (c_world c)"
    using assms(4) by (intro run_handler) auto
  with conf_at_run [OF assms(1,2), of cfg ?p "c_world c"] start dead show ?thesis
    unfolding runs_out_def halt [symmetric]
    by (auto intro: converse_rtranclp_into_rtranclp simp: conf_at_def split: option.splits)
qed

text \<open>Claim C19. Every handler ends, whatever the other goroutines do between its actions: a route
  event after at most five actions, a Service event after three, a policy event after one per
  target of its revisions, any other event after one; it has then returned normally, unless it is an
  add or update of Gateways or GatewayClasses with an object of a foreign type, which has panicked.\<close>

theorem handlers_terminate:
  assumes "handler_bound ev \<le> length ws"
  shows "proc_after (handler_proc cfg ev) ws =
    (if ev = GatewayUpsert ReceivedForeign \<or> ev = GatewayClassUpsert ReceivedForeign then Panic else Halt)"
proof (cases "ev = GatewayUpsert ReceivedForeign \<or> ev = GatewayClassUpsert ReceivedForeign")
  case True
  have "proc_after Panic ws = Panic" by (induction ws) (simp_all add: proc_after_def)
  with True show ?thesis by auto
next
  case False
  then have "handle cfg ev w \<noteq> None" for w by (simp add: handler_panics)
  from within_mono [OF within_handler [OF this] assms] have "within (handler_proc cfg ev) (length ws)" .
  then show ?thesis using False within_after by simp
qed

lemma handlers_terminate_witness:
  "proc_after (handler_proc createDefaultConfig (HTTPRouteUpsert (Received (example_route example_parent))))
     [example_world, example_world, example_world, example_world, example_world] = Halt"
  using handlers_terminate [of "HTTPRouteUpsert (Received (example_route example_parent))"
      "[example_world, example_world, example_world, example_world, example_world]" createDefaultConfig]
  by simp

text \<open>Claim C13. Handlers are atomic while the stores they read are stable: in any interleaving in
  which the Gateways, the classes, the Service names and the sync state do not change between the
  actions of a handler, whatever happens to the indexes meanwhile, the handler performs exactly the
  writes that the sequential handler performs on the world in which it began.\<close>

theorem stable_handlers_atomic:
  assumes "handle cfg ev w = Some w'" and "ev \<noteq> GatewaysSynced"
    and "handler_bound ev \<le> length ws" and "\<forall>v \<in> set ws. same_stores w v"
  shows "w' = fold write_step (proc_writes (handler_proc cfg ev) ws) w"
proof -
  have "within (handler_proc cfg ev) (length ws)"
    using within_mono [OF within_handler [of cfg ev w] assms(3)] assms(1) by simp
  then have "proc_writes (handler_proc cfg ev) ws = writes_at (handler_proc cfg ev) w"
    using assms(4) by (rule proc_writes_stable)
  moreover have "handle cfg ev w = Some (fold write_step (writes_at (handler_proc cfg ev) w) w)"
    using run_handler [OF assms(2), of cfg w] run_reads_first [OF reads_first_handler, of cfg ev w w] assms(1) by simp
  ultimately show ?thesis using assms(1) by simp
qed

lemma stable_handlers_atomic_witness:
  "upsert_http createDefaultConfig (example_route example_parent) example_world =
   fold write_step (proc_writes (handler_proc createDefaultConfig (HTTPRouteUpsert (Received (example_route example_parent))))
     [example_world, example_world\<lparr>w_pods := None\<rparr>, example_world, example_world, example_world]) example_world"
  by (rule stable_handlers_atomic) (simp_all add: same_stores_def)

text \<open>The self-telemetry of a world: what the closure \<open>record\<close> did for its inferences, in order. The
  counter shows their number, also when goroutines interleave, and nothing while the feature is off
  or the informers have not synced; without a counter only the debug lines are left.\<close>

definition world_telemetry :: "nat option \<Rightarrow> world \<Rightarrow> telemetry" where
  "world_telemetry counter w = fold (record_inference counter) (w_inferred w) no_telemetry"

lemma telemetry_counts_inferences:
  assumes "creachable cfg c"
  shows "t_counters (world_telemetry (Some n) (c_world c)) n = length (w_inferred (c_world c))"
    and "t_counters (world_telemetry None (c_world c)) = (\<lambda>_. 0)"
    and "\<not> InferServiceParentEnabled (Mesh cfg) \<or> \<not> w_synced (c_world c) \<Longrightarrow>
      world_telemetry counter (c_world c) = no_telemetry"
proof -
  show "t_counters (world_telemetry (Some n) (c_world c)) n = length (w_inferred (c_world c))"
    "t_counters (world_telemetry None (c_world c)) = (\<lambda>_. 0)"
    by (simp_all add: world_telemetry_def telemetry_of_inferences no_telemetry_def)
  show "world_telemetry counter (c_world c) = no_telemetry"
    if "\<not> InferServiceParentEnabled (Mesh cfg) \<or> \<not> w_synced (c_world c)"
  proof -
    have "w_inferred (c_world c) = []"
      using creachable_inv [OF assms] that by (auto simp: conf_inv_def world_inv_def)
    then show ?thesis by (simp add: world_telemetry_def)
  qed
qed

text \<open>The guardrail of the nil-Kind inference and concurrency: the store of Gateways is read before
  \<open>gatewaySynced\<close>. A Gateway whose handler runs between the two reads is missed, and the route that
  names it is indexed as a mesh route of the Service with the same name, although the informers were
  only reported as synced after the Gateway was stored.\<close>

definition late_gateway :: Gateway where
  "late_gateway = \<lparr>gw_Name = ''cart'', gw_Namespace = ''shop'', gw_UID = ''g'', gw_GatewayClassName = ''istio''\<rparr>"

definition before_gateway :: world where
  "before_gateway = service_upsert cart_service example_world"

definition after_gateway :: world where
  "after_gateway = (before_gateway\<lparr>w_gws := gatewayStore_upsert late_gateway (w_gws before_gateway)\<rparr>)\<lparr>w_synced := True\<rparr>"

lemma inference_races_with_gateway_sync:
  "let p = proc_after (handler_proc createDefaultConfig (HTTPRouteUpsert (Received (example_route example_parent))))
         [before_gateway];
       w' = the (proc_run p after_gateway)
   in \<not> w_synced before_gateway \<and> gatewayStore_get (w_gws after_gateway) ''shop'' ''cart'' = Some late_gateway \<and>
      map_option ra_RouteMode (LookupRoute (world_lookup w') RouteKindHTTPRoute ''shop'' ''r'') = Some RouteModeMesh \<and>
      map_option ra_RouteMode (LookupRoute (world_lookup (the (handle createDefaultConfig
        (HTTPRouteUpsert (Received (example_route example_parent))) after_gateway)))
        RouteKindHTTPRoute ''shop'' ''r'') = Some RouteModeIngress"
proof -
  let ?hr = "example_route example_parent"
  note hr = example_parent_facts example_inference_on
  have cfg: "waypointImplForClass (Mesh createDefaultConfig) ''istio'' = ''''" by code_simp
  have worlds: "w_gws before_gateway = newGatewayStore" "\<not> w_synced before_gateway"
    "gatewayStore_get (w_gws after_gateway) ''shop'' ''cart'' = Some late_gateway" "w_synced after_gateway"
    "serviceNameIndex_Exists (w_names after_gateway) ''shop'' ''cart''"
    using example_service_known example_fresh
    by (simp_all add: before_gateway_def after_gateway_def gatewayStore_upsert_def gatewayStore_get_def late_gateway_def)
  have get: "gatewayStore_get newGatewayStore ''shop'' ''cart'' = None"
    by (simp add: gatewayStore_get_def newGatewayStore_def)
  have race: "map_option ra_RouteMode (LookupRoute (world_lookup (the (proc_run
      (proc_after (handler_proc createDefaultConfig (HTTPRouteUpsert (Received ?hr))) [before_gateway]) after_gateway)))
      RouteKindHTTPRoute ''shop'' ''r'') = Some RouteModeMesh"
    by (simp add: proc_after_def route_proc_def parent_proc_def hr cfg worlds get run_infer maybeInfer_eq
        infers_def inferrer_at_def newParentInferrer_def Let_def
        world_lookup_def combined_lookup_def world_combined_def idx_LookupRoute_def)
  have calm: "map_option ra_RouteMode (LookupRoute (world_lookup (the (handle createDefaultConfig
        (HTTPRouteUpsert (Received ?hr)) after_gateway))) RouteKindHTTPRoute ''shop'' ''r'') = Some RouteModeIngress"
    by (simp add: upsert_http_def httpRouteToAttrs_eq project_route_def applyParentRef_def hr cfg worlds
        world_lookup_def combined_lookup_def world_combined_def idx_LookupRoute_def Let_def late_gateway_def)
  show ?thesis using race calm worlds by (simp add: Let_def)
qed

end
