(* ===== verification/Factory.thy ===== *)
theory Factory
  imports EnrichmentProps Informers
begin

text \<open>
  \<open>factory.go\<close>: building a processor for a signal, and the start hook that connects it to the
  informers. The lookup a started processor holds is a pointer to the live indexes, so the
  processor at a later state of the cluster is \<open>at_world p w\<close>.
\<close>

text \<open>The text of a start error. The timeout's text ends with the duration, which is left out.\<close>

definition error_text :: "start_error \<Rightarrow> string" where
  "error_text err =
     ''gatewayapiprocessor start: '' @
     (case err of
        RestConfigError m \<Rightarrow> ''build rest config: '' @ m
      | AuthNoneError \<Rightarrow> ''build rest config: auth_type=none cannot build a rest config''
      | GatewayClientsetError m \<Rightarrow> ''build gateway-api clientset: '' @ m
      | KubernetesClientsetError m \<Rightarrow> ''build kubernetes clientset: '' @ m
      | DynamicClientError m \<Rightarrow> ''start policy informers: build dynamic client: '' @ m
      | SyncTimeout t \<Rightarrow> ''gatewayapiprocessor: informer cache sync timed out'')"

definition attachDefaultStartHook :: "kube \<Rightarrow> gatewayAPIProcessor \<Rightarrow> gatewayAPIProcessor" where
  "attachDefaultStartHook k p =
     (if AuthType (p_cfg p) = AuthTypeNone then p
      else p\<lparr>p_startHook := Some (\<lambda>_.
        case newInformers k (p_cfg p) of
          Inl err \<Rightarrow> Inl (error_text err)
        | Inr (infs, w) \<Rightarrow> Inr (world_lookup w, \<lambda>_. None))\<rparr>)"

definition createTracesProcessor ::
  "kube \<Rightarrow> (string \<Rightarrow> regexp option) \<Rightarrow> meter_provider option \<Rightarrow> Config \<Rightarrow> (traces \<Rightarrow> string option) option \<Rightarrow> build_error + gatewayAPIProcessor"
where
  "createTracesProcessor k rc mp cfg next =
     (case newProcessor rc mp (Some cfg) of
        Inl err \<Rightarrow> Inl err
      | Inr p \<Rightarrow> Inr (attachDefaultStartHook k (p\<lparr>p_tracesNext := next\<rparr>)))"

definition createLogsProcessor ::
  "kube \<Rightarrow> (string \<Rightarrow> regexp option) \<Rightarrow> meter_provider option \<Rightarrow> Config \<Rightarrow> (logs \<Rightarrow> string option) option \<Rightarrow> build_error + gatewayAPIProcessor"
where
  "createLogsProcessor k rc mp cfg next =
     (case newProcessor rc mp (Some cfg) of
        Inl err \<Rightarrow> Inl err
      | Inr p \<Rightarrow> Inr (attachDefaultStartHook k (p\<lparr>p_logsNext := next\<rparr>)))"

definition createMetricsProcessor ::
  "kube \<Rightarrow> (string \<Rightarrow> regexp option) \<Rightarrow> meter_provider option \<Rightarrow> Config \<Rightarrow> (metrics \<Rightarrow> string option) option \<Rightarrow> build_error + gatewayAPIProcessor"
where
  "createMetricsProcessor k rc mp cfg next =
     (case newProcessor rc mp (Some cfg) of
        Inl err \<Rightarrow> Inl err
      | Inr p \<Rightarrow> Inr (attachDefaultStartHook k (p\<lparr>p_metricsNext := next\<rparr>)))"

text \<open>What the collector is handed: the type of the component, its default configuration and one
  constructor per signal (each builds a processor of its own), and that the processor changes the
  data it is given.\<close>

definition typeStr :: string where
  "typeStr = ''gatewayapi''"

record processorFactory =
  pf_Type :: string
  pf_createDefaultConfig :: Config
  pf_createTraces ::
    "kube \<Rightarrow> (string \<Rightarrow> regexp option) \<Rightarrow> meter_provider option \<Rightarrow> Config \<Rightarrow> (traces \<Rightarrow> string option) option \<Rightarrow> build_error + gatewayAPIProcessor"
  pf_createLogs ::
    "kube \<Rightarrow> (string \<Rightarrow> regexp option) \<Rightarrow> meter_provider option \<Rightarrow> Config \<Rightarrow> (logs \<Rightarrow> string option) option \<Rightarrow> build_error + gatewayAPIProcessor"
  pf_createMetrics ::
    "kube \<Rightarrow> (string \<Rightarrow> regexp option) \<Rightarrow> meter_provider option \<Rightarrow> Config \<Rightarrow> (metrics \<Rightarrow> string option) option \<Rightarrow> build_error + gatewayAPIProcessor"

definition NewFactory :: processorFactory where
  "NewFactory = \<lparr>pf_Type = typeStr, pf_createDefaultConfig = createDefaultConfig,
     pf_createTraces = createTracesProcessor, pf_createLogs = createLogsProcessor,
     pf_createMetrics = createMetricsProcessor\<rparr>"

record capabilities = MutatesData :: bool

definition Capabilities :: "gatewayAPIProcessor \<Rightarrow> capabilities" where
  "Capabilities p = \<lparr>MutatesData = True\<rparr>"

definition at_world :: "gatewayAPIProcessor \<Rightarrow> world \<Rightarrow> gatewayAPIProcessor" where
  "at_world p w = p\<lparr>p_lookup := world_lookup w\<rparr>"

text \<open>Which parser configurations build.\<close>

definition buildable :: "(string \<Rightarrow> regexp option) \<Rightarrow> ParserConfig \<Rightarrow> bool" where
  "buildable rc pc \<longleftrightarrow> pc_Name pc \<in> {''envoy'', ''linkerd'', ''passthrough''} \<and>
     (pc_Name pc = ''envoy'' \<longrightarrow> rc (pc_FormatRegex pc) \<noteq> None)"

lemma build_chain_iff:
  "(\<exists>r. build_chain rc pcs out key = Inr r) \<longleftrightarrow> (\<forall>pc \<in> set pcs. buildable rc pc)"
proof (induction pcs arbitrary: out key)
  case Nil
  then show ?case by simp
next
  case (Cons pc pcs)
  show ?case
  proof (cases "pc_Name pc = ''envoy''")
    case True
    then show ?thesis using Cons.IH by (cases "rc (pc_FormatRegex pc)") (simp_all add: buildable_def NewEnvoyParser_def)
  next
    case False
    then show ?thesis using Cons.IH by (simp add: buildable_def Let_def)
  qed
qed

lemma newProcessor_iff:
  "(\<exists>p. newProcessor rc mp (Some cfg) = Inr p) \<longleftrightarrow> (\<forall>pc \<in> set (cfg_Parsers cfg). buildable rc pc)"
  using build_chain_iff [of rc "cfg_Parsers cfg" "[]" "''''"]
  by (auto simp: newProcessor_def buildParserChain_def split: sum.splits)

lemma valid_formats:
  assumes "Validate rc cfg = None" "rc '''' \<noteq> None" "pc \<in> set (cfg_Parsers cfg)" "pc_Name pc = ''envoy''"
  shows "rc (pc_FormatRegex pc) \<noteq> None"
proof -
  have "validate_parsers rc (length (cfg_Parsers cfg)) 0 (cfg_Parsers cfg) = None"
    using assms(1) by (simp add: Validate_def split: if_splits)
  then have "envoy_format_ok rc pc"
    using assms(3) by (auto simp: validate_parsers_None in_set_conv_nth)
  then show ?thesis using assms(2,4) by (cases "pc_FormatRegex pc = ''''") (auto simp: envoy_format_ok_def)
qed

lemma newProcessor_fresh:
  "newProcessor rc mp (Some cfg) = Inr p \<Longrightarrow> p_cfg p = cfg \<and> p_startHook p = None"
  by (auto simp: newProcessor_def split: sum.splits)

lemma attached_next [simp]:
  "p_tracesNext (attachDefaultStartHook k p) = p_tracesNext p"
  "p_logsNext (attachDefaultStartHook k p) = p_logsNext p"
  "p_metricsNext (attachDefaultStartHook k p) = p_metricsNext p"
  by (simp_all add: attachDefaultStartHook_def)

lemma attached_start:
  assumes "p_startHook p = None"
  shows "Start (attachDefaultStartHook k p) =
    (if AuthType (p_cfg p) = AuthTypeNone then (None, attachDefaultStartHook k p)
     else case newInformers k (p_cfg p) of
       Inl err \<Rightarrow> (Some (error_text err), attachDefaultStartHook k p)
     | Inr (infs, w) \<Rightarrow> (None, (at_world (attachDefaultStartHook k p) w)\<lparr>p_stopFn := Some (\<lambda>_. None)\<rparr>))"
  using assms by (simp add: attachDefaultStartHook_def Start_def at_world_def split: sum.split)

section \<open>Properties\<close>

text \<open>Claim C39. Building after validation: a configuration that \<open>Validate\<close> accepts builds, for each
  signal, exactly when every parser has one of the three known names; the empty pattern compiles.
  In particular no regular expression error is left for the build.\<close>

theorem validated_config_builds:
  assumes "Validate rc cfg = None" and "rc '''' \<noteq> None"
  shows "((\<exists>p. createTracesProcessor k rc mp cfg nt = Inr p) \<longleftrightarrow>
      (\<forall>pc \<in> set (cfg_Parsers cfg). pc_Name pc \<in> {''envoy'', ''linkerd'', ''passthrough''}))
    \<and> ((\<exists>p. createLogsProcessor k rc mp cfg nl = Inr p) \<longleftrightarrow>
      (\<forall>pc \<in> set (cfg_Parsers cfg). pc_Name pc \<in> {''envoy'', ''linkerd'', ''passthrough''}))
    \<and> ((\<exists>p. createMetricsProcessor k rc mp cfg nm = Inr p) \<longleftrightarrow>
      (\<forall>pc \<in> set (cfg_Parsers cfg). pc_Name pc \<in> {''envoy'', ''linkerd'', ''passthrough''}))"
proof -
  have "(\<forall>pc \<in> set (cfg_Parsers cfg). buildable rc pc) \<longleftrightarrow>
      (\<forall>pc \<in> set (cfg_Parsers cfg). pc_Name pc \<in> {''envoy'', ''linkerd'', ''passthrough''})"
    using valid_formats [OF assms] by (auto simp: buildable_def)
  then show ?thesis
    using newProcessor_iff [of rc mp cfg]
    by (auto simp: createTracesProcessor_def createLogsProcessor_def createMetricsProcessor_def split: sum.splits)
qed

lemma validated_config_builds_witness:
  "\<exists>p. createTracesProcessor example_kube re_parse None createDefaultConfig None = Inr p"
proof -
  have "re_parse '''' \<noteq> None" by code_simp
  from validated_config_builds [OF default_config_valid this, of example_kube None None None None]
  show ?thesis by (simp add: createDefaultConfig_def)
qed

text \<open>Claim C38. Starting a processor of any of the three signals: the processor a create function
  builds passes its signal to the consumer the function was given; with \<open>auth_type: none\<close> nothing is
  started and the processor stays as built; otherwise an error of the informers is reported and
  leaves the processor as it was, and a success connects it to the informers' indexes.\<close>

theorem start_connects_lookup:
  "let started =
      (if AuthType cfg = AuthTypeNone then (None, p)
       else case newInformers k cfg of
         Inl err \<Rightarrow> (Some (error_text err), p)
       | Inr (infs, w) \<Rightarrow> (None, (at_world p w)\<lparr>p_stopFn := Some (\<lambda>_. None)\<rparr>))
   in (createTracesProcessor k rc mp cfg nt = Inr p \<longrightarrow> p_tracesNext p = nt \<and> Start p = started)
    \<and> (createLogsProcessor k rc mp cfg nl = Inr p \<longrightarrow> p_logsNext p = nl \<and> Start p = started)
    \<and> (createMetricsProcessor k rc mp cfg nm = Inr p \<longrightarrow> p_metricsNext p = nm \<and> Start p = started)"
  unfolding Let_def
  by (auto simp: createTracesProcessor_def createLogsProcessor_def createMetricsProcessor_def attached_start
      attached_next dest: newProcessor_fresh split: sum.splits)

lemma start_connects_lookup_witness:
  "fst (Start (projr (createTracesProcessor example_kube re_parse None createDefaultConfig None))) = None \<and>
   fst (Start (projr (createLogsProcessor example_kube re_parse None createDefaultConfig None))) = None \<and>
   fst (Start (projr (createMetricsProcessor example_kube re_parse None createDefaultConfig None))) = None"
proof -
  let ?p = "attachDefaultStartHook example_kube (default_processor None (static_lookup newStaticLookup))"
  have built: "createTracesProcessor example_kube re_parse None createDefaultConfig None = Inr ?p"
    "createLogsProcessor example_kube re_parse None createDefaultConfig None = Inr ?p"
    "createMetricsProcessor example_kube re_parse None createDefaultConfig None = Inr ?p"
    by (simp_all add: createTracesProcessor_def createLogsProcessor_def createMetricsProcessor_def
        default_processor_built default_processor_def)
  have "AuthType createDefaultConfig \<noteq> AuthTypeNone"
    by (simp add: createDefaultConfig_def auth_defs)
  then show ?thesis
    using start_connects_lookup [of createDefaultConfig ?p example_kube re_parse None None None None]
    by (simp add: built example_start Let_def)
qed

text \<open>A configuration with a misspelt parser name passes validation and fails to build.\<close>

definition misspelt_config :: Config where
  "misspelt_config = createDefaultConfig\<lparr>cfg_Parsers := [\<lparr>pc_Name = ''linkrd'', pc_Controllers = [],
     pc_SourceAttribute = '''', pc_FormatRegex = '''', pc_LinkerdLabels = no_labels, pc_PassthroughAttribute = ''''\<rparr>]\<rparr>"

lemma misspelt_parser_passes_validation:
  "Validate re_parse misspelt_config = None \<and> newProcessor re_parse mp (Some misspelt_config) = Inl (UnknownParser ''linkrd'')"
proof -
  have "\<not> is_blank ''istio-waypoint'' \<and> \<not> is_blank ''kgateway-waypoint'' \<and> \<not> is_blank ''istio-eastwest''"
    by code_simp
  then show ?thesis
    by (simp add: misspelt_config_def Validate_def createDefaultConfig_def auth_defs validate_controllers_None
        validate_format_None envoy_format_ok_def newProcessor_def buildParserChain_def)
qed

text \<open>\<open>Shutdown\<close> of a started processor calls the stop function of \<open>newInformers\<close>, which does
  nothing: the informers run until the context of \<open>Start\<close> is done, before or after the shutdown.\<close>

lemma shutdown_stops_nothing:
  assumes "createTracesProcessor k rc mp cfg next = Inr p" and "Start p = (None, p')"
  shows "Shutdown p' = None"
proof -
  obtain p0 where "newProcessor rc mp (Some cfg) = Inr p0" "p = attachDefaultStartHook k (p0\<lparr>p_tracesNext := next\<rparr>)"
    using assms(1) by (auto simp: createTracesProcessor_def split: sum.splits)
  then show ?thesis
    using assms(2)
    by (auto simp: newProcessor_def attachDefaultStartHook_def Start_def Shutdown_def split: sum.splits if_splits prod.splits)
qed

text \<open>The default configuration builds a processor for every signal of the factory.\<close>

lemma factory_builds_every_signal:
  "\<exists>p. pf_createTraces NewFactory k re_parse mp (pf_createDefaultConfig NewFactory) nt = Inr p"
  "\<exists>p. pf_createLogs NewFactory k re_parse mp (pf_createDefaultConfig NewFactory) nl = Inr p"
  "\<exists>p. pf_createMetrics NewFactory k re_parse mp (pf_createDefaultConfig NewFactory) nm = Inr p"
  by (simp_all add: NewFactory_def createTracesProcessor_def createLogsProcessor_def createMetricsProcessor_def
      default_processor_built)

end
