(* ===== verification/Spec2Isabelle.thy ===== *)
theory Spec2Isabelle
  imports Prelude GoRegexp Attrs Parsers Config NetIP IPRoundtrip Routes Telemetry K8sTypes RouteIndex
    IPIndexes Projection Policy Processor Enrichment EnrichmentProps AttrTypes Informers Convergence
    Interleaving Factory
begin

text \<open>
  \<^bold>\<open>Verification of the gatewayapiprocessor\<close>

  The program is an OpenTelemetry collector processor (Go, \<open>src/gatewayapiprocessor/\<close>). It reads the
  opaque route name of a span, log record or metric data point and stamps the record with Kubernetes
  Gateway API attributes: which HTTPRoute or GRPCRoute handled the request, in ingress or mesh mode,
  which Gateway or parent Service, which waypoint and which policies. What it knows of the cluster it
  keeps in indexes that informer event handlers update while records are processed.

  \<^bold>\<open>Parts and how they interact\<close>

  \<^item> \<open>parser/\<close>: three parsers turn the attributes of a record into a route identity. The processor
    walks the configured chain and takes the first match.
  \<^item> \<open>processor.go\<close>: \<open>enrich\<close> stamps the identity, looks the route up and stamps its attributes. When no
    parser matches, the fallback takes the address the record talks to, finds the Service behind it
    and the route that claims the Service. Metrics lose the attributes configured as excluded.
  \<^item> \<open>routes.go\<close>: the interface \<open>RouteLookup\<close> between the processor and the indexes.
  \<^item> \<open>index.go\<close>, \<open>service_informer.go\<close>, \<open>endpointslice_informer.go\<close>, \<open>informer.go\<close>: the indexes of
    routes, of Service addresses, of Pod addresses, of waypoint labels and Service names, and the
    stores of Gateways and GatewayClasses.
  \<^item> \<open>informer.go\<close>, \<open>parent_inference.go\<close>, \<open>policy_informer.go\<close>: the projection of cluster objects into
    the indexes, the event handlers, and the start of the informers.
  \<^item> \<open>config.go\<close>, \<open>factory.go\<close>: the configuration, its validation and defaults, the construction of the
    processor for each signal.

  \<^bold>\<open>Theories\<close>

  \<^item> \<open>Prelude\<close>: Go strings as byte lists, the functions of \<open>strings\<close> and \<open>strconv\<close> the code calls, map
    deletion loops; collections \<open>go_string\<close> and \<open>map_ops\<close>.
  \<^item> \<open>GoRegexp\<close>: Go regular expressions as a backtracking matcher with leftmost-first semantics and
    submatches, and a parser \<open>re_parse\<close> for the syntax the formats use. \<open>regexp.Compile\<close> is a
    parameter of the model.
  \<^item> \<open>Attrs\<close> (\<open>attrs.go\<close>): the attribute keys, attribute maps and the view of record over resource.
  \<^item> \<open>Parsers\<close> (\<open>parser/\<close>): the parsers; the locale \<open>route_parser\<close> is the contract the chain relies on.
  \<^item> \<open>Config\<close> (\<open>config.go\<close>, defaults of \<open>factory.go\<close>): records, accessors, \<open>Validate\<close>, the default
    configuration, and the round trip of the default format with route names; \<open>re_conforms\<close> says that
    \<open>regexp.Compile\<close> agrees with \<open>re_parse\<close> on the default format.
  \<^item> \<open>NetIP\<close> (\<open>canonicalIP\<close>): \<open>net.ParseIP\<close> and \<open>IP.String\<close>; \<open>IPRoundtrip\<close>: printing and parsing are
    inverse, for IPv4 and for IPv6 with its zero compression.
  \<^item> \<open>Routes\<close> (\<open>routes.go\<close>): route attributes, keys and their injectivity, the lookup interface with the
    locale \<open>route_lookup\<close>, the static lookup.
  \<^item> \<open>Telemetry\<close> (\<open>parent_inference.go\<close>): the self-telemetry counter and what the closure \<open>record\<close> does;
    the meter provider is a parameter.
  \<^item> \<open>K8sTypes\<close>: the fields of the Kubernetes objects the code reads, unstructured objects as JSON, and
    what a handler may be given.
  \<^item> \<open>RouteIndex\<close> (\<open>index.go\<close>): the record of the five maps with all its operations. \<open>idx_inv\<close> ties the
    maps; \<open>spec_step\<close> is the abstract index of declared routes, which the concrete one refines.
  \<^item> \<open>IPIndexes\<close> (\<open>service_informer.go\<close>, \<open>endpointslice_informer.go\<close>, the stores of \<open>informer.go\<close>,
    \<open>combinedLookup\<close>): locale \<open>keyed_store\<close> for the maps keyed by name, locale \<open>ip_claims\<close> for the two
    indexes in which objects claim addresses.
  \<^item> \<open>Projection\<close> (\<open>informer.go\<close>, \<open>parent_inference.go\<close>, backend references of \<open>index.go\<close>): from a route
    object to attributes; what the inferrer counts and logs is a list of recorded inferences.
  \<^item> \<open>Policy\<close> (\<open>policy_informer.go\<close>): policies read from JSON and kept on the index.
  \<^item> \<open>Processor\<close> (\<open>processor.go\<close>): the processor's state and operations. A record's attributes are a
    map, \<open>url.Parse\<close> and the rendering of non-string values are the fields of \<open>env\<close>. The \<open>Consume\<close>
    methods apply \<open>enrich\<close> record by record; the properties are about \<open>enrich\<close>.
  \<^item> \<open>Enrichment\<close>, \<open>EnrichmentProps\<close>: an enrichment is a decision (\<open>decide\<close>) that reads a known set of
    keys and a patch (\<open>carry_out\<close>) that writes a known set; the properties of the path.
  \<^item> \<open>AttrTypes\<close>: the type of every key of the schema, kept by every enrichment.
  \<^item> \<open>Informers\<close>: the event handlers on one state, the \<open>world\<close>; \<open>newInformers\<close> with the answers of the
    client libraries as the record \<open>kube\<close>; the relation \<open>reachable\<close> and the invariant \<open>world_inv\<close>.
  \<^item> \<open>Convergence\<close>: sequences of events (\<open>handle_all\<close>) and what a resync does to a stale index.
  \<^item> \<open>Interleaving\<close>: the handlers at the granularity of the locks. A handler is a \<open>proc\<close>, a tree of
    single reads and writes of the stores in the order of the code; a configuration \<open>conf\<close> has a world
    and one process per informer; \<open>cstep\<close> performs one action of one goroutine, delivers an event to
    an idle one or lets the Gateway informers sync; \<open>creachable\<close> are the configurations of all runs.
  \<^item> \<open>Factory\<close> (\<open>factory.go\<close>): the create functions, the factory and the start hook. \<open>at_world p w\<close> is the started
    processor when the cluster state is \<open>w\<close>: the lookup is a pointer into the live indexes.
  \<^item> This theory: the properties that span the index, the address indexes, the projection, the handlers
    and the processor.

  \<^bold>\<open>What the properties show\<close>

  \<^item> Index: after any history the index holds exactly the declared routes and their Services; the
    single-candidate answer is never stale, and never lost where one route alone names a Service;
    policy and route events commute.
  \<^item> Addresses: every answer is backed by the last revision of an object, Services before Pods, and
    undisputed addresses are answered exactly; two literals have one key exactly when they are one
    address. The stores kept by name hold what the last event of an object says.
  \<^item> Projection: exactly when a route is mesh, when a parent is inferred, which role and which backends
    it gets.
  \<^item> Policies: what is stamped on a route is what the last revisions of the policies say.
  \<^item> Enrichment: the keys it may touch, which fields of a route it stamps, idempotence, which records
    lose the excluded metric attributes, one route kind per record, the first parser that matches
    decides, the default pipeline reads route names back and falls through to the passthrough parser,
    the fallback attributes a record only to a route that claims the Service it talks to, every key of
    the schema keeps its type, no capture is read out of bounds.
  \<^item> Concurrency: in every interleaving of the goroutines each index and store is in a state of one of
    its own histories, so all of the above holds of it; a handler that other goroutines interrupt has
    the effect of the sequential handler (\<open>handle\<close>) as long as the stores it reads are stable
    (\<open>handler_run_refines\<close> is the case without interruptions), and ends after a bounded number of its
    actions whatever the others do; the fallback and the waypoint read of the stamping, each of which
    may see another state, still find only declared routes and the waypoint of one state; a resync
    brings every entry and the owner lists to the projection against the present stores, and the
    single-candidate answer of every Service that one route names. Where several routes name a Service
    the single-candidate answer after a resync depends on the history (\<open>resync_remembers_claim_order\<close>).
  \<^item> Lifecycle: what \<open>Validate\<close> accepts, when the processor builds and starts, that every reachable
    world is consistent, that a deleted route leaves it, that a route event reaches the records.

  Lemmas outside the properties record where the code and its comments part, for example
  \<open>survivor_not_resolved_alone\<close>, \<open>resync_resolves_shared_service\<close>, \<open>resync_remembers_claim_order\<close>,
  \<open>resync_revives_conflicting_ip\<close>, \<open>gateway_tombstone_ignored\<close>, \<open>inferred_parent_prints_as_gateway\<close>,
  \<open>misspelt_parser_passes_validation\<close>, \<open>inference_races_with_gateway_sync\<close>, \<open>shutdown_stops_nothing\<close>,
  \<open>unattributed_metric_keeps_excluded\<close>, \<open>splitAddress_reads_any_host\<close>; \<open>passthrough_key_mixes_kinds\<close>
  shows why the property on route kinds needs its hypothesis.

  \<^bold>\<open>Modelling decisions\<close>

  Each operation of an index runs under its mutex and is one atomic action. Theories \<open>Informers\<close> and
  \<open>Convergence\<close> take a handler run as one step, in any order of events; theory \<open>Interleaving\<close> takes the
  single actions, and relates the two. Reading the sync state of all Gateway informers is one action:
  the state only ever becomes true. Go maps used as sets are lists without duplicates where the code
  iterates over them, and results are stated independently of the order. The model has no fuel but the
  bound of eight groups when an IPv6 address is printed, which is their number; every loop is a total
  function. Integers parsed from route names keep the range of \<open>int64\<close>.

  \<^bold>\<open>Not modelled\<close>

  The client libraries, the collector and the OpenTelemetry SDK, whose answers are parameters; the
  contexts, whose end only means that no further events arrive; the log lines other than those of an
  inference; the stability levels of the factory and the duration in the text of a sync timeout.
  Regular expressions outside the syntax of \<open>re_parse\<close> are covered only by what holds for every
  compiler.
\<close>

section \<open>The fallback and the index\<close>

text \<open>The Service that one source attribute of a record names: an IP literal is resolved by the
  address indexes, anything else is read as a DNS name or a bare Service name.\<close>

definition addressed_service :: "env \<Rightarrow> combinedLookup \<Rightarrow> attrGetter \<Rightarrow> string \<Rightarrow> (string \<times> string) option" where
  "addressed_service e c get key =
     (case get key of
        None \<Rightarrow> None
      | Some raw \<Rightarrow>
          let addr = normalizeSourceAddr e key raw in
          if ParseIP addr \<noteq> None then combined_LookupServiceByIP c addr
          else Some (addressService get addr))"

lemma fallbackKey_addressed:
  assumes "fallbackKey e (combined_lookup c) get key = Some ra"
  shows "\<exists>ns svc. addressed_service e c get key = Some (ns, svc) \<and>
    resolveByBackend (combined_lookup c) get ns svc = Some ra"
  using assms
  by (auto simp: fallbackKey_def addressed_service_def combined_lookup_def Let_def
      split: option.splits if_splits prod.splits)

lemma fallbackSearch_key:
  "fallbackSearch e lookup get keys = Some ra \<Longrightarrow>
   \<exists>pre key post. keys = pre @ key # post \<and> fallbackKey e lookup get key = Some ra \<and>
     list_all (\<lambda>k. fallbackKey e lookup get k = None) pre"
proof (induction keys)
  case Nil
  then show ?case by simp
next
  case (Cons k keys)
  show ?case
  proof (cases "fallbackKey e lookup get k")
    case None
    with Cons obtain pre key post where "keys = pre @ key # post" "fallbackKey e lookup get key = Some ra"
      "list_all (\<lambda>k. fallbackKey e lookup get k = None) pre" by auto
    with None show ?thesis by (intro exI [of _ "k # pre"] exI [of _ key] exI [of _ post]) simp
  next
    case (Some r)
    with Cons.prems show ?thesis by (intro exI [of _ "[]"] exI [of _ k] exI [of _ keys]) simp
  qed
qed

lemma resolve_is_declared:
  assumes "idx_inv (cl_routes c)" and "refines (cl_routes c) a"
    and "resolveByBackend (combined_lookup c) get ns svc = Some ra"
  shows "\<exists>owner ra0 W. a owner = Some (ra0, W) \<and> nsKey ns svc \<in> W \<and> ra = overlayPolicies (cl_routes c) owner ra0"
proof -
  have "resolveByBackend (index_lookup (cl_routes c)) get ns svc = Some ra"
    using assms(3) by (simp add: resolveByBackend_def combined_lookup_def index_lookup_def cong: option.case_cong)
  from index.resolve_is_candidate [OF assms(1) this] obtain ras
    where "idx_LookupByBackendServiceWithParents (cl_routes c) ns svc = Some ras" "ra \<in> set ras"
    by (auto simp: index_lookup_def)
  with withParents_eq [OF assms(2), of ns svc]
  have "ra \<in> {overlayPolicies (cl_routes c) key ra | key ra W. a key = Some (ra, W) \<and> nsKey ns svc \<in> W}"
    by simp
  then show ?thesis by blast
qed

text \<open>Claim C4. The fallback only attributes a record to a route that claims the Service the record
  talks to: after any history of route and policy events, when the fallback finds a route, the
  first source attribute that leads anywhere names a Service, and the route is one whose current
  declaration has that Service, with its current attributes and policies.\<close>

theorem fallback_attributes_claiming_route:
  assumes "list_all op_ok ops" and "cl_routes c = index_run ops"
    and "fallbackSearch e (combined_lookup c) get keys = Some ra"
  shows "\<exists>pre key post ns svc owner ra0 W.
    keys = pre @ key # post \<and> list_all (\<lambda>k. fallbackKey e (combined_lookup c) get k = None) pre \<and>
    addressed_service e c get key = Some (ns, svc) \<and>
    spec_run ops owner = Some (ra0, W) \<and> nsKey ns svc \<in> W \<and> ra = overlayPolicies (index_run ops) owner ra0"
proof -
  obtain pre key post where key: "keys = pre @ key # post" "fallbackKey e (combined_lookup c) get key = Some ra"
    "list_all (\<lambda>k. fallbackKey e (combined_lookup c) get k = None) pre"
    using fallbackSearch_key [OF assms(3)] by blast
  then obtain ns svc where "addressed_service e c get key = Some (ns, svc)"
    and "resolveByBackend (combined_lookup c) get ns svc = Some ra"
    using fallbackKey_addressed by blast
  moreover from this(2) obtain owner ra0 W where "spec_run ops owner = Some (ra0, W)" "nsKey ns svc \<in> W"
    "ra = overlayPolicies (index_run ops) owner ra0"
    using resolve_is_declared [of c "spec_run ops" get ns svc ra] assms(1,2) idx_inv_run refines_run by auto
  ultimately show ?thesis using key by blast
qed

definition cart_lookup :: combinedLookup where
  "cart_lookup = \<lparr>cl_routes = index_run [UpsertHTTP (sample_route ''a'') [cart_backend]],
     cl_ips = None, cl_pods = None, cl_waypoints = None\<rparr>"

lemma fallback_attributes_claiming_route_witness:
  "\<exists>owner ra0 W. spec_run [UpsertHTTP (sample_route ''a'') [cart_backend]] owner = Some (ra0, W) \<and>
     nsKey ''shop'' ''cart'' \<in> W"
proof -
  let ?get = "[''server.address'' \<mapsto> ''cart.shop.svc:8080'']"
  have addr: "normalizeSourceAddr example_env ''server.address'' ''cart.shop.svc:8080'' = ''cart.shop.svc''"
    "ParseIP ''cart.shop.svc'' = None" "addressService ?get ''cart.shop.svc'' = (''shop'', ''cart'')"
    by code_simp+
  have "idx_LookupByBackendService (index_run [UpsertHTTP (sample_route ''a'') [cart_backend]]) ''shop'' ''cart''
      = Some (sample_route ''a'')"
    by (simp add: idx_LookupByBackendService_def overlayPolicies_def get_list_def index_reindex bref_key_def
        cart_backend_def upsert_delete_defs newRouteIndex_def)
  then have "resolveByBackend (combined_lookup cart_lookup) ?get ''shop'' ''cart'' = Some (sample_route ''a'')"
    by (simp add: resolveByBackend_def combined_lookup_def cart_lookup_def)
  then have hit: "fallbackSearch example_env (combined_lookup cart_lookup) ?get [''server.address''] = Some (sample_route ''a'')"
    by (simp add: fallbackKey_def addr combined_lookup_def)
  have service: "addressed_service example_env cart_lookup ?get ''server.address'' = Some (''shop'', ''cart'')"
    by (simp add: addressed_service_def addr)
  show ?thesis
    using fallback_attributes_claiming_route [of "[UpsertHTTP (sample_route ''a'') [cart_backend]]" cart_lookup, OF _ _ hit]
      service
    by (auto simp: cart_lookup_def Cons_eq_append_conv)
qed

section \<open>The fallback beside running handlers\<close>

text \<open>
  The pipeline goroutines read while the informer goroutines write, and each read takes the lock of
  its index for itself: the reads of one record may see different states of the cluster. For a source
  attribute the fallback reads the Service addresses, the Pod addresses, the single-candidate map and
  the owner lists, in this order; when it has found a route, stamping reads the waypoint of the route's
  parent Service. \<open>torn_lookup\<close> answers each of the four reads from a configuration of its own, and
  \<open>torn_fallback\<close> is the fallback whose reads all go apart. The configurations of an actual run follow
  one another; here they may be any.
\<close>

definition torn_combined :: "conf \<Rightarrow> conf \<Rightarrow> combinedLookup" where
  "torn_combined ips pods = (world_combined (c_world ips))\<lparr>cl_pods := w_pods (c_world pods)\<rparr>"

definition torn_lookup :: "conf \<Rightarrow> conf \<Rightarrow> conf \<Rightarrow> conf \<Rightarrow> RouteLookup" where
  "torn_lookup ips pods single owners =
     (world_lookup (c_world single))
       \<lparr>LookupByBackendServiceWithParents := LookupByBackendServiceWithParents (world_lookup (c_world owners)),
        ServiceIPLookup := Some (combined_LookupServiceByIP (torn_combined ips pods))\<rparr>"

text \<open>The loop over the source attributes, each with the configurations its reads see.\<close>

type_synonym torn_reads = "(string \<times> conf \<times> conf \<times> conf \<times> conf) list"

fun torn_search :: "env \<Rightarrow> attrGetter \<Rightarrow> torn_reads \<Rightarrow> RouteAttributes option" where
  "torn_search e get [] = None"
| "torn_search e get ((key, ips, pods, single, owners) # reads) =
     (case fallbackKey e (torn_lookup ips pods single owners) get key of
        Some ra \<Rightarrow> Some ra
      | None \<Rightarrow> torn_search e get reads)"

text \<open>The whole fallback: what it does with a record when stamping sees the configuration \<open>wp\<close>.\<close>

definition torn_fallback ::
  "gatewayAPIProcessor \<Rightarrow> env \<Rightarrow> attrs \<Rightarrow> attrs \<Rightarrow> signalKind \<Rightarrow> torn_reads \<Rightarrow> conf \<Rightarrow> attrs"
where
  "torn_fallback p e res m signal reads wp =
     (case torn_search e (view_Get (env_asString e) \<lparr>cv_record = m, cv_resource = res\<rparr>) reads of
        None \<Rightarrow> m
      | Some ra \<Rightarrow> carry_out (at_world p (c_world wp)) (FellBack ra) signal m)"

text \<open>When nothing is written meanwhile this is the fallback of the processor at that state.\<close>

lemma torn_lookup_calm: "torn_lookup c c c c = world_lookup (c_world c)"
  by (simp add: torn_lookup_def torn_combined_def world_lookup_def combined_lookup_def world_combined_def)

lemma torn_search_calm:
  "torn_search e get (map (\<lambda>key. (key, c, c, c, c)) keys) = fallbackSearch e (world_lookup (c_world c)) get keys"
  by (induction keys) (simp_all add: torn_lookup_calm split: option.split)

lemma torn_fallback_calm:
  "torn_fallback p e res m signal
     (map (\<lambda>key. (key, c, c, c, c)) (effectiveSourceAttrs (cfg_Fallback (p_cfg p)))) c =
   applyBackendRefFallback (at_world p (c_world c)) e \<lparr>cv_record = m, cv_resource = res\<rparr> m signal"
  by (simp add: torn_fallback_def torn_search_calm applyBackendRefFallback_def carry_out_def fallback_result_def
      at_world_def Let_def split: option.split)

text \<open>A route that a configuration declares for a Service, as its lookups return it.\<close>

definition declared_in :: "conf \<Rightarrow> string \<Rightarrow> string \<Rightarrow> RouteAttributes \<Rightarrow> bool" where
  "declared_in c ns svc ra \<longleftrightarrow>
     (\<exists>ops owner ra0 W. list_all op_ok ops \<and> w_idx (c_world c) = index_run ops \<and>
        spec_run ops owner = Some (ra0, W) \<and> nsKey ns svc \<in> W \<and>
        ra = overlayPolicies (index_run ops) owner ra0)"

lemma candidate_declared:
  assumes "creachable cfg c" "LookupByBackendServiceWithParents (world_lookup (c_world c)) ns svc = Some ras" "ra \<in> set ras"
  shows "declared_in c ns svc ra"
proof -
  obtain ops where ops: "list_all op_ok ops" "w_idx (c_world c) = index_run ops"
    using creachable_inv [OF assms(1)] unfolding conf_inv_def histories_def by blast
  with assms(2,3) have "ra \<in> {overlayPolicies (index_run ops) key ra | key ra W.
      spec_run ops key = Some (ra, W) \<and> nsKey ns svc \<in> W}"
    using withParents_eq [OF refines_run, of ops ns svc]
    by (simp add: world_lookup_def combined_lookup_def world_combined_def)
  then show ?thesis using ops unfolding declared_in_def by blast
qed

lemma single_declared:
  assumes "creachable cfg c" "LookupByBackendService (world_lookup (c_world c)) ns svc = Some ra"
  shows "declared_in c ns svc ra"
proof -
  have "combined_inv (world_combined (c_world c))"
    using creachable_inv [OF assms(1)] world_combined_inv by (auto simp: conf_inv_def)
  from combined.single_is_candidate [OF this] obtain ras
    where "LookupByBackendServiceWithParents (world_lookup (c_world c)) ns svc = Some ras" "ra \<in> set ras"
    using assms(2) unfolding world_lookup_def by blast
  then show ?thesis using candidate_declared [OF assms(1)] by blast
qed

lemma disambiguate_member:
  assumes "disambiguateBackendCandidates get ras = Some ra"
  shows "ra \<in> set ras"
proof -
  have "length ras = 2" using assms disambiguate_other by (cases "length ras = 2") auto
  then obtain a b where "ras = [a, b]" using pairs by blast
  with assms show ?thesis by (auto simp: disambiguate_pair preferred_def split: if_splits)
qed

lemma torn_resolve:
  assumes "creachable cfg c1" "creachable cfg c2"
    and "resolveByBackend (torn_lookup ips pods c1 c2) get ns svc = Some ra"
  shows "declared_in c1 ns svc ra \<or> declared_in c2 ns svc ra"
  using assms(3) single_declared [OF assms(1)] candidate_declared [OF assms(2)] disambiguate_member
  by (fastforce simp: resolveByBackend_def torn_lookup_def split: option.splits if_splits)

lemma torn_key_addressed:
  assumes "fallbackKey e (torn_lookup ips pods single owners) get key = Some ra"
  shows "\<exists>ns svc. addressed_service e (torn_combined ips pods) get key = Some (ns, svc) \<and>
    resolveByBackend (torn_lookup ips pods single owners) get ns svc = Some ra"
  using assms
  by (auto simp: fallbackKey_def addressed_service_def torn_lookup_def Let_def
      split: option.splits if_splits prod.splits)

lemma torn_search_key:
  "torn_search e get reads = Some ra \<Longrightarrow>
   \<exists>pre key ips pods single owners post. reads = pre @ (key, ips, pods, single, owners) # post \<and>
     torn_search e get pre = None \<and> fallbackKey e (torn_lookup ips pods single owners) get key = Some ra"
proof (induction reads)
  case Nil
  then show ?case by simp
next
  case (Cons r reads)
  obtain key ips pods single owners where r: "r = (key, ips, pods, single, owners)" by (cases r) auto
  show ?case
  proof (cases "fallbackKey e (torn_lookup ips pods single owners) get key")
    case None
    with Cons r obtain pre key' ips' pods' single' owners' post
      where "reads = pre @ (key', ips', pods', single', owners') # post" "torn_search e get pre = None"
        "fallbackKey e (torn_lookup ips' pods' single' owners') get key' = Some ra" by auto
    with None r show ?thesis by (intro exI [of _ "r # pre"]) auto
  next
    case (Some ra')
    with Cons.prems r show ?thesis by (intro exI [of _ "[] :: torn_reads"]) auto
  qed
qed

text \<open>What stamping takes from the waypoint index goes to three keys, and nowhere else.\<close>

definition waypoint_keys :: "string list" where
  "waypoint_keys = [AttrWaypointImplementation, AttrWaypointName, AttrWaypointNamespace]"

lemma stampPolicyAttrs_local: "m k = m' k \<Longrightarrow> stampPolicyAttrs m ra k = stampPolicyAttrs m' ra k"
  by (simp add: stampPolicyAttrs_def Let_def put_lookup)

lemma stampRouteAttrs_split:
  "\<exists>m0. \<forall>p'. p_cfg p' = p_cfg p \<longrightarrow>
     stampRouteAttrs p' m ra =
       (case resolveWaypoint p' ra of (impl, n, ns) \<Rightarrow>
          stampPolicyAttrs (if impl \<noteq> ''''
            then putNonEmpty (putNonEmpty (putString m0 AttrWaypointImplementation impl) AttrWaypointName n)
                   AttrWaypointNamespace ns
            else m0) ra)"
  unfolding stampRouteAttrs_def Let_def by (rule exI, intro allI impI, simp only:)

lemma stampRouteAttrs_waypoint_frame:
  assumes "p_cfg p' = p_cfg p" "k \<notin> set waypoint_keys"
  shows "stampRouteAttrs p m ra k = stampRouteAttrs p' m ra k"
proof -
  obtain m0 where m0: "\<forall>p'. p_cfg p' = p_cfg p \<longrightarrow> stampRouteAttrs p' m ra =
      (case resolveWaypoint p' ra of (impl, n, ns) \<Rightarrow>
         stampPolicyAttrs (if impl \<noteq> ''''
            then putNonEmpty (putNonEmpty (putString m0 AttrWaypointImplementation impl) AttrWaypointName n)
                   AttrWaypointNamespace ns
            else m0) ra)"
    using stampRouteAttrs_split [of p m ra] by (elim exE)
  have "stampRouteAttrs q m ra k = stampPolicyAttrs m0 ra k" if "p_cfg q = p_cfg p" for q
    unfolding m0 [rule_format, OF that]
    using assms(2)
    by (auto simp: waypoint_keys_def put_lookup intro: stampPolicyAttrs_local split: prod.split)
  then show ?thesis using assms(1) by simp
qed

lemma stampRouteAttrs_waypoint:
  assumes "resolveWaypoint p ra = (impl, n, ns)"
  shows "stampRouteAttrs p m ra AttrWaypointImplementation =
      (if impl = '''' then m AttrWaypointImplementation else Some (VStr impl))"
    "stampRouteAttrs p m ra AttrWaypointName = (if impl = '''' \<or> n = '''' then m AttrWaypointName else Some (VStr n))"
    "stampRouteAttrs p m ra AttrWaypointNamespace =
      (if impl = '''' \<or> ns = '''' then m AttrWaypointNamespace else Some (VStr ns))"
  by (cases "ra_Kind ra = RouteKindGRPCRoute";
      simp add: stampRouteAttrs_def Let_def assms by_kind_def put_lookup stampPolicyAttrs_def)+

lemma resolveWaypoint_world:
  "resolveWaypoint (at_world p w) ra = (impl, n, ns) \<Longrightarrow>
   (impl, n, ns) = (ra_WaypointImplementation ra, ra_WaypointName ra, ra_WaypointNamespace ra) \<or>
   (\<exists>wps. w_wps w = Some wps \<and> waypointIndex_LookupWaypointForService wps
      (ra_ParentServiceNamespace ra) (ra_ParentServiceName ra) = Some (impl, n, ns))"
  by (auto simp: resolveWaypoint_def at_world_def world_lookup_def combined_lookup_def world_combined_def
      combined_LookupWaypointForService_def Let_def split: option.splits if_splits)

text \<open>Claim C7. The fallback is safe beside running handlers: when each of its reads, in any interleaving
  with the informer goroutines, sees a configuration of the cluster of its own, a route it finds comes
  from the first source attribute that leads anywhere, and is one that the route index declared, at
  one of its two reads for that attribute, for the Service that the attribute named at the reads of
  the address indexes (where the Service addresses had no answer, the Pod addresses were read later),
  with the attributes and policies it had at that read. What is stamped on the record depends on that
  route alone, except for the waypoint, which is the route's own or the one that the label of its
  parent Service selects when it is stamped: these two may be of different times.\<close>

theorem concurrent_fallback_safe:
  assumes "\<forall>(key, ips, pods, single, owners) \<in> set reads. creachable cfg single \<and> creachable cfg owners"
    and "torn_search e (view_Get (env_asString e) \<lparr>cv_record = m, cv_resource = res\<rparr>) reads = Some ra"
  shows "(\<exists>pre key ips pods single owners post ns svc. reads = pre @ (key, ips, pods, single, owners) # post \<and>
      torn_search e (view_Get (env_asString e) \<lparr>cv_record = m, cv_resource = res\<rparr>) pre = None \<and>
      addressed_service e (torn_combined ips pods) (view_Get (env_asString e) \<lparr>cv_record = m, cv_resource = res\<rparr>) key
        = Some (ns, svc) \<and>
      (declared_in single ns svc ra \<or> declared_in owners ns svc ra))
    \<and> (\<forall>wp wp' k. k \<notin> set waypoint_keys \<longrightarrow>
        torn_fallback p e res m signal reads wp k = torn_fallback p e res m signal reads wp' k)
    \<and> (\<exists>impl n ns.
        ((impl, n, ns) = (ra_WaypointImplementation ra, ra_WaypointName ra, ra_WaypointNamespace ra) \<or>
         (\<exists>wps. w_wps (c_world wp) = Some wps \<and> waypointIndex_LookupWaypointForService wps
            (ra_ParentServiceNamespace ra) (ra_ParentServiceName ra) = Some (impl, n, ns))) \<and>
        (\<forall>(k, v) \<in> set (zip waypoint_keys [impl, n, ns]).
           torn_fallback p e res m signal reads wp k =
             (if signal = signalMetrics \<and> k \<in> set (ExcludeFromMetricAttributes (Enrich (p_cfg p))) then None
              else if impl = '''' \<or> v = '''' then m k else Some (VStr v))))"
proof (intro conjI)
  let ?get = "view_Get (env_asString e) \<lparr>cv_record = m, cv_resource = res\<rparr>"
  obtain pre key ips pods single owners post where
    reads: "reads = pre @ (key, ips, pods, single, owners) # post" "torn_search e ?get pre = None"
      and hit: "fallbackKey e (torn_lookup ips pods single owners) ?get key = Some ra"
    using torn_search_key [OF assms(2)] by blast
  obtain ns svc where named: "addressed_service e (torn_combined ips pods) ?get key = Some (ns, svc)"
    and "resolveByBackend (torn_lookup ips pods single owners) ?get ns svc = Some ra"
    using torn_key_addressed [OF hit] by blast
  moreover have "creachable cfg single" "creachable cfg owners" using assms(1) reads(1) by simp_all
  ultimately have "declared_in single ns svc ra \<or> declared_in owners ns svc ra" by (intro torn_resolve)
  with reads named show "\<exists>pre key ips pods single owners post ns svc. reads = pre @ (key, ips, pods, single, owners) # post \<and>
      torn_search e ?get pre = None \<and> addressed_service e (torn_combined ips pods) ?get key = Some (ns, svc) \<and>
      (declared_in single ns svc ra \<or> declared_in owners ns svc ra)"
    by (intro exI conjI)
  have cfg: "p_cfg (at_world p w) = p_cfg p" for w by (simp add: at_world_def)
  have fallback: "torn_fallback p e res m signal reads wp = carry_out (at_world p (c_world wp)) (FellBack ra) signal m" for wp
    by (simp add: torn_fallback_def assms(2))
  show "\<forall>wp wp' k. k \<notin> set waypoint_keys \<longrightarrow>
      torn_fallback p e res m signal reads wp k = torn_fallback p e res m signal reads wp' k"
  proof (intro allI impI)
    fix wp wp' :: conf and k assume "k \<notin> set waypoint_keys"
    then have "stampRouteAttrs (at_world p (c_world wp)) m' ra k = stampRouteAttrs (at_world p (c_world wp')) m' ra k" for m'
      by (intro stampRouteAttrs_waypoint_frame) (simp_all add: at_world_def)
    then show "torn_fallback p e res m signal reads wp k = torn_fallback p e res m signal reads wp' k"
      by (simp add: fallback carry_out_def put_lookup cfg)
  qed
  obtain impl n nsw where w: "resolveWaypoint (at_world p (c_world wp)) ra = (impl, n, nsw)"
    by (cases "resolveWaypoint (at_world p (c_world wp)) ra")
  have stamped: "stampRouteAttrs (at_world p (c_world wp)) m' ra k = (if impl = '''' \<or> v = '''' then m' k else Some (VStr v))"
    if "(k, v) \<in> set (zip waypoint_keys [impl, n, nsw])" for m' k v
    using that by (auto simp: waypoint_keys_def stampRouteAttrs_waypoint [OF w])
  have free: "k \<noteq> AttrParser" "stampRouteIdentity m r k = m k"
    if "(k, v) \<in> set (zip waypoint_keys [impl, n, nsw])" for k v r
    using that by (auto simp: waypoint_keys_def stampRouteIdentity_def Let_def put_lookup)
  show "\<exists>impl n ns.
        ((impl, n, ns) = (ra_WaypointImplementation ra, ra_WaypointName ra, ra_WaypointNamespace ra) \<or>
         (\<exists>wps. w_wps (c_world wp) = Some wps \<and> waypointIndex_LookupWaypointForService wps
            (ra_ParentServiceNamespace ra) (ra_ParentServiceName ra) = Some (impl, n, ns))) \<and>
        (\<forall>(k, v) \<in> set (zip waypoint_keys [impl, n, ns]).
           torn_fallback p e res m signal reads wp k =
             (if signal = signalMetrics \<and> k \<in> set (ExcludeFromMetricAttributes (Enrich (p_cfg p))) then None
              else if impl = '''' \<or> v = '''' then m k else Some (VStr v)))"
    using resolveWaypoint_world [OF w] stamped free
    by (intro exI [of _ impl] exI [of _ n] exI [of _ nsw] conjI)
      (auto simp: fallback carry_out_def put_lookup cfg)
qed

text \<open>Two configurations of the example cluster: before and after the event of a route whose backend
  is \<open>shop/cart\<close>.\<close>

definition cart_route :: HTTPRoute where
  "cart_route = (example_route example_parent)\<lparr>rt_Rules := [\<lparr>rule_Name = None, rule_BackendRefs =
     [\<lparr>br_Group = None, br_Kind = None, br_Namespace = None, br_Name = ''cart''\<rparr>]\<rparr>]\<rparr>"

definition cart_conf :: conf where
  "cart_conf = example_conf\<lparr>c_world := upsert_http createDefaultConfig cart_route example_world\<rparr>"

lemma cart_conf_reachable: "creachable createDefaultConfig cart_conf"
  unfolding cart_conf_def
  by (rule creachable_handle [OF example_conf_reachable, of "HTTPRouteInformer None" "HTTPRouteUpsert (Received cart_route)"])
    (simp_all add: example_conf_def alive_def)

lemma concurrent_fallback_safe_witness:
  "\<exists>ns svc ra. declared_in example_conf ns svc ra \<or> declared_in cart_conf ns svc ra"
proof -
  let ?m = "[''server.address'' \<mapsto> VStr ''cart.shop.svc:8080'']"
  let ?get = "view_Get (env_asString example_env) \<lparr>cv_record = ?m, cv_resource = Map.empty\<rparr>"
  let ?reads = "[(''net.peer.name'', example_conf, example_conf, example_conf, cart_conf),
    (''server.address'', example_conf, cart_conf, cart_conf, example_conf)]"
  have get: "?get ''server.address'' = Some ''cart.shop.svc:8080''" "?get ''net.peer.name'' = None"
    by (simp_all add: view_Get_def example_env_def)
  have split: "splitAddress ''cart.shop.svc'' = (''shop'', ''cart'')" by code_simp
  have addr: "normalizeSourceAddr example_env ''server.address'' ''cart.shop.svc:8080'' = ''cart.shop.svc''"
    "ParseIP ''cart.shop.svc'' = None" by code_simp+
  have service: "addressService ?get ''cart.shop.svc'' = (''shop'', ''cart'')"
    by (simp add: addressService_def split)
  have "\<exists>ra. idx_LookupByBackendService (w_idx (c_world cart_conf)) ''shop'' ''cart'' = Some ra"
    by (simp add: cart_conf_def upsert_http_def case_prod_beta httpRouteToAttrs_eq idx_LookupByBackendService_def
        upsertHTTPRoute_def index_reindex Let_def example_world_def fresh_world_def new_index_sel
        backendRefsFromHTTPRoute_def backend_of_ref_def cart_route_def example_route_def bref_key_def)
  then have "\<exists>ra. torn_search example_env ?get ?reads = Some ra"
    by (auto simp: fallbackKey_def get addr service torn_lookup_def world_lookup_def combined_lookup_def world_combined_def
        resolveByBackend_def split: option.split)
  then obtain ra where ra: "torn_search example_env ?get ?reads = Some ra" by blast
  have "\<forall>(key, ips, pods, single, owners) \<in> set ?reads.
      creachable createDefaultConfig single \<and> creachable createDefaultConfig owners"
    using example_conf_reachable cart_conf_reachable by simp
  note safe = concurrent_fallback_safe [OF this ra, THEN conjunct1]
  obtain pre key ips pods single owners post ns svc where
    reads: "?reads = pre @ (key, ips, pods, single, owners) # post"
      and "declared_in single ns svc ra \<or> declared_in owners ns svc ra"
    using safe by blast
  moreover have "(key, ips, pods, single, owners) \<in> set ?reads" by (subst reads) simp
  then have "single \<in> {example_conf, cart_conf}" "owners \<in> {example_conf, cart_conf}" by auto
  ultimately show ?thesis by blast
qed

section \<open>From a cluster event to a record\<close>

lemma httpRuleNames_nth:
  assumes "n < length (rt_Rules hr)" "rule_Name (rt_Rules hr ! n) = Some nm" "nm \<noteq> ''''"
  shows "n < length (httpRuleNames hr)" "httpRuleNames hr ! n = nm"
proof -
  have "list_ex (\<lambda>rule. rule_Name rule \<noteq> None \<and> rule_Name rule \<noteq> Some '''') (rt_Rules hr)"
    using assms by (auto simp: list_ex_iff intro!: bexI [of _ "rt_Rules hr ! n"])
  with assms show "n < length (httpRuleNames hr)" "httpRuleNames hr ! n = nm"
    by (auto simp: httpRuleNames_def Let_def)
qed

lemma project_route_mode:
  "ra_RouteMode (fst (project_route kind r gws gcs cfg inferrer)) \<noteq> ''''"
  by (auto simp: project_route_def applyParentRef_cases applyGatewayParent_def Let_def RouteModeIngress_def RouteModeMesh_def
      split: list.split parent_class.split option.split)

lemma project_route_rules:
  "ra_RuleNames (fst (project_route kind r gws gcs cfg inferrer)) = httpRuleNames r"
  by (simp add: project_route_def Let_def)

lemma stampRouteAttrs_main:
  assumes "ra_Kind ra = RouteKindHTTPRoute"
  shows "stampRouteAttrs p m ra AttrHTTPRouteUID = (if ra_UID ra = '''' then m AttrHTTPRouteUID else Some (VStr (ra_UID ra)))"
    and "ra_RouteMode ra \<noteq> '''' \<Longrightarrow> stampRouteAttrs p m ra AttrRouteMode = Some (VStr (ra_RouteMode ra))"
proof -
  obtain impl n ns where w: "resolveWaypoint p ra = (impl, n, ns)" by (cases "resolveWaypoint p ra")
  show "stampRouteAttrs p m ra AttrHTTPRouteUID = (if ra_UID ra = '''' then m AttrHTTPRouteUID else Some (VStr (ra_UID ra)))"
    "ra_RouteMode ra \<noteq> '''' \<Longrightarrow> stampRouteAttrs p m ra AttrRouteMode = Some (VStr (ra_RouteMode ra))"
    using assms
    by (simp_all add: stampRouteAttrs_def Let_def w by_kind_def put_lookup stampPolicyAttrs_def)
qed

lemma overlay_more [simp]:
  "ra_UID (overlayPolicies r key ra) = ra_UID ra" "ra_RuleNames (overlayPolicies r key ra) = ra_RuleNames ra"
  by (simp_all add: overlayPolicies_def Let_def)

lemma stamped_http_record:
  assumes "ra_Kind ra = RouteKindHTTPRoute" and "Kind r = ''HTTPRoute''" and "ra_RouteMode ra \<noteq> ''''"
    and m': "m' = stampRuleName (stampRouteAttrs p (stampRouteIdentity m r) ra) ra i"
  shows "m' AttrHTTPRouteNamespace = Some (VStr (Namespace r))" "m' AttrHTTPRouteName = Some (VStr (Name r))"
    "ra_UID ra \<noteq> '''' \<Longrightarrow> m' AttrHTTPRouteUID = Some (VStr (ra_UID ra))"
    "m' AttrRouteMode = Some (VStr (ra_RouteMode ra))"
    "0 \<le> i \<Longrightarrow> i < int (length (ra_RuleNames ra)) \<Longrightarrow> ra_RuleNames ra ! nat i \<noteq> '''' \<Longrightarrow>
       m' AttrHTTPRouteRuleName = Some (VStr (ra_RuleNames ra ! nat i))"
proof -
  have id: "stampRouteAttrs p x ra AttrHTTPRouteNamespace = x AttrHTTPRouteNamespace"
    "stampRouteAttrs p x ra AttrHTTPRouteName = x AttrHTTPRouteName" for x
    by (simp_all add: identity_stampRouteAttrs identity_keys_def)
  show "m' AttrHTTPRouteNamespace = Some (VStr (Namespace r))" "m' AttrHTTPRouteName = Some (VStr (Name r))"
    "ra_UID ra \<noteq> '''' \<Longrightarrow> m' AttrHTTPRouteUID = Some (VStr (ra_UID ra))"
    "m' AttrRouteMode = Some (VStr (ra_RouteMode ra))"
    using assms by (simp_all add: stampRuleName_def put_lookup Let_def id stampRouteIdentity_def stampRouteAttrs_main)
  show "m' AttrHTTPRouteRuleName = Some (VStr (ra_RuleNames ra ! nat i))"
    if "0 \<le> i" "i < int (length (ra_RuleNames ra))" "ra_RuleNames ra ! nat i \<noteq> ''''"
    using that assms by (simp add: stampRuleName_def put_lookup Let_def)
qed

lemma handled_route_found:
  assumes "handle cfg (HTTPRouteUpsert (Received hr)) w = Some w'"
  shows "LookupRoute (world_lookup w') RouteKindHTTPRoute (rt_Namespace hr) (rt_Name hr) =
    Some (overlayPolicies (w_idx w') (routeKey RouteKindHTTPRoute (rt_Namespace hr) (rt_Name hr))
      (fst (project_route RouteKindHTTPRoute hr (w_gws w) (w_gcs w) cfg (inferrer_at cfg w))))"
  using assms
  by (auto simp: upsert_http_def world_lookup_def combined_lookup_def world_combined_def
      httpRouteToAttrs_eq case_prod_beta idx_LookupRoute_def upsertHTTPRoute_def Let_def)

text \<open>Claim C5. A route event reaches the records: once the event of an HTTPRoute is handled, a
  processor built from the default configuration stamps every trace or log record whose Envoy route
  name is that route's with the route's name, namespace and UID, with the route mode its first
  parentRef gives it against the Gateways and Services known at the event, and with the name of the
  rule the route name points at, where that rule has one.\<close>

theorem route_event_reaches_records:
  assumes "re_conforms rc" and "newProcessor rc mp (Some createDefaultConfig) = Inr p"
    and "as_string_ok (env_asString e)" and "signal \<noteq> signalMetrics"
    and "m ''route_name'' = Some (VStr (envoy_route (rt_Namespace hr) (rt_Name hr) ri mi))"
    and "rt_Namespace hr \<noteq> ''''" and "CHR ''/'' \<notin> set (rt_Namespace hr)"
    and "rt_Name hr \<noteq> ''''" and "CHR ''/'' \<notin> set (rt_Name hr)"
    and "\<And>n. ri = Some n \<or> mi = Some n \<Longrightarrow> n < 2 ^ 63"
    and "handle createDefaultConfig (HTTPRouteUpsert (Received hr)) w = Some w'"
  shows "let m' = enrich (at_world p w') e res m signal in
    m' AttrHTTPRouteNamespace = Some (VStr (rt_Namespace hr)) \<and> m' AttrHTTPRouteName = Some (VStr (rt_Name hr)) \<and>
    (rt_UID hr \<noteq> '''' \<longrightarrow> m' AttrHTTPRouteUID = Some (VStr (rt_UID hr))) \<and>
    m' AttrRouteMode = Some (VStr (ra_RouteMode (fst (httpRouteToAttrs hr (w_gws w) (w_gcs w) createDefaultConfig
      (inferrer_at createDefaultConfig w))))) \<and>
    (\<forall>n nm. ri = Some n \<and> n < length (rt_Rules hr) \<and> rule_Name (rt_Rules hr ! n) = Some nm \<and> nm \<noteq> '''' \<longrightarrow>
       m' AttrHTTPRouteRuleName = Some (VStr nm))"
proof -
  let ?get = "view_Get (env_asString e) \<lparr>cv_record = m, cv_resource = res\<rparr>"
  let ?ra = "fst (project_route RouteKindHTTPRoute hr (w_gws w) (w_gcs w) createDefaultConfig (inferrer_at createDefaultConfig w))"
  let ?ra' = "overlayPolicies (w_idx w') (routeKey RouteKindHTTPRoute (rt_Namespace hr) (rt_Name hr)) ?ra"
  let ?p = "default_processor (newParentInferredCounter mp) (world_lookup w')"
  have p: "at_world p w' = ?p"
    using assms(2) default_processor_built [OF assms(1)] by (auto simp: default_processor_def at_world_def)
  have get: "?get ''route_name'' = Some (envoy_route (rt_Namespace hr) (rt_Name hr) ri mi)"
    using assms(3,5) by (simp add: as_string_ok_def)
  have parses: "parser_Parse (default_chain ! 0) ?get = \<lparr>Matched = True, Namespace = rt_Namespace hr, Name = rt_Name hr,
      Kind = ''HTTPRoute'', RuleIndex = (case ri of Some n \<Rightarrow> int n | None \<Rightarrow> -1),
      MatchIndex = (case mi of Some n \<Rightarrow> int n | None \<Rightarrow> -1),
      RawRouteName = envoy_route (rt_Namespace hr) (rt_Name hr) ri mi, ParserName = ''envoy''\<rparr>" (is "_ = ?r")
    by (rule envoy_parses) (fact get assms(6-10))+
  have fm: "first_match default_chain ?get = Some ?r"
    using envoy_result [of ?get] by (simp add: parses)
  obtain m0 where m0: "enrich ?p e res m signal = stampRuleName (stampRouteAttrs ?p (stampRouteIdentity m0 ?r) ?ra') ?ra' (RuleIndex ?r)"
    using assms(4,6,8) handled_route_found [OF assms(11)]
    by (simp add: enrich_eq decide_def fm carry_out_def Let_def maybeStripMetrics_def stampCRMetadata_def)
  have kind: "ra_Kind ?ra' = RouteKindHTTPRoute" "Kind ?r = ''HTTPRoute''" by simp_all
  have mode: "ra_RouteMode ?ra' \<noteq> ''''" by (simp add: project_route_mode)
  note stamped = stamped_http_record [OF kind mode m0]
  have "enrich ?p e res m signal AttrHTTPRouteRuleName = Some (VStr nm)"
    if "ri = Some n" "n < length (rt_Rules hr)" "rule_Name (rt_Rules hr ! n) = Some nm" "nm \<noteq> ''''" for n nm
    using stamped(5) that httpRuleNames_nth [OF that(2-4)] by (simp add: project_route_rules)
  then show ?thesis
    using stamped(1-4) unfolding p Let_def httpRouteToAttrs_eq by simp
qed

lemma route_event_reaches_records_witness:
  "enrich (at_world (default_processor None no_lookup)
       (the (handle createDefaultConfig (HTTPRouteUpsert (Received (example_route example_parent))) example_world)))
     example_env Map.empty [''route_name'' \<mapsto> VStr (envoy_route ''shop'' ''r'' (Some 1) None)] signalTraces
     AttrHTTPRouteRuleName = Some (VStr ''canary'')"
proof -
  let ?hr = "example_route example_parent"
  let ?ev = "HTTPRouteUpsert (Received ?hr)"
  have hr: "rt_Namespace ?hr = ''shop''" "rt_Name ?hr = ''r''" "length (rt_Rules ?hr) = 2"
    "rule_Name (rt_Rules ?hr ! 1) = Some ''canary''"
    by (simp_all add: example_route_def)
  obtain w' where w': "handle createDefaultConfig ?ev example_world = Some w'" by simp
  have "let m' = enrich (at_world (default_processor None no_lookup) w') example_env Map.empty
      [''route_name'' \<mapsto> VStr (envoy_route ''shop'' ''r'' (Some 1) None)] signalTraces in
    m' AttrHTTPRouteNamespace = Some (VStr (rt_Namespace ?hr)) \<and> m' AttrHTTPRouteName = Some (VStr (rt_Name ?hr)) \<and>
    (rt_UID ?hr \<noteq> '''' \<longrightarrow> m' AttrHTTPRouteUID = Some (VStr (rt_UID ?hr))) \<and>
    m' AttrRouteMode = Some (VStr (ra_RouteMode (fst (httpRouteToAttrs ?hr (w_gws example_world) (w_gcs example_world)
      createDefaultConfig (inferrer_at createDefaultConfig example_world))))) \<and>
    (\<forall>n nm. Some 1 = Some n \<and> n < length (rt_Rules ?hr) \<and> rule_Name (rt_Rules ?hr ! n) = Some nm \<and> nm \<noteq> '''' \<longrightarrow>
       m' AttrHTTPRouteRuleName = Some (VStr nm))"
    by (rule route_event_reaches_records [where rc = re_parse and mp = None and mi = None])
      (simp_all add: default_processor_built no_lookup_def example_enrich_defs hr w' [simplified])
  then show ?thesis using hr(3,4) by (simp add: Let_def w' [simplified])
qed

end
